(* ===== verification/Linprov_Prelude.thy ===== *)
theory Linprov_Prelude
  imports Main "HOL-Library.Word"
begin

text \<open>
  Shared vocabulary of the development: the machine integer types of the Rust sources, the two
  lemma collections the component theories feed, and the generic facts on lists, options and
  words that more than one component needs.

  A Rust \<open>u8\<close> is a HOL \<open>char\<close> (HOL's characters are the 256 byte values), so that a byte
  buffer, a \<open>&[u8]\<close> and the UTF-8 bytes of a \<open>String\<close> are all values of HOL's \<open>string\<close> and
  byte literals can be written \<open>''/proc/''\<close>. \<open>of_char b\<close> is the cast \<open>b as u64\<close>.
  A fixed-size zero-padded buffer such as \<open>[u8; EXEC_PATH_LEN]\<close> is the list of its leading
  bytes: positions past the end of the list read as NUL (\<open>byte_at\<close>).
\<close>

unbundle bit_operations_syntax

type_synonym u8 = char
type_synonym u32 = "32 word"
type_synonym u64 = "64 word"
type_synonym i32 = "32 word"
type_synonym bytes = "char list"

text \<open>Collections: facts that evaluate words, and facts that evaluate the path walk.\<close>

named_theorems word_eval
named_theorems walk_simps

section \<open>Bytes and NUL-terminated buffers\<close>

abbreviation NUL :: u8 where
  "NUL \<equiv> CHR 0x00"

abbreviation SLASH :: u8 where
  "SLASH \<equiv> CHR ''/''"

text \<open>Reading position \<open>i\<close> of a zero-padded buffer.\<close>

definition byte_at :: "bytes \<Rightarrow> nat \<Rightarrow> u8" where
  "byte_at buf i = (if i < length buf then buf ! i else NUL)"

lemma byte_at_simps [simp]:
  "byte_at [] i = NUL" "byte_at (x # xs) 0 = x" "byte_at (x # xs) (Suc i) = byte_at xs i"
  "byte_at (x # xs) 1 = byte_at xs 0"
  "byte_at (x # xs) 2 = byte_at xs 1" "byte_at (x # xs) 3 = byte_at xs 2"
  by (simp_all add: byte_at_def eval_nat_numeral)

text \<open>The bytes before the first NUL: what a C string reader sees.\<close>

definition c_str :: "bytes \<Rightarrow> bytes" where
  "c_str buf = takeWhile (\<lambda>b. b \<noteq> NUL) buf"

lemma c_str_nul_free: "NUL \<notin> set (c_str buf)"
  by (auto simp: c_str_def dest: set_takeWhileD)

lemma c_str_id [simp]: "NUL \<notin> set p \<Longrightarrow> c_str p = p"
  by (auto simp: c_str_def takeWhile_eq_all_conv)

lemma c_str_terminated [simp]: "NUL \<notin> set p \<Longrightarrow> c_str (p @ NUL # rest) = p"
  unfolding c_str_def by (subst takeWhile_tail) (auto simp: takeWhile_eq_all_conv)

lemma byte_at_c_str: "i < length (c_str buf) \<Longrightarrow> byte_at buf i = c_str buf ! i"
  unfolding byte_at_def c_str_def
  using takeWhile_nth length_takeWhile_le less_le_trans by (metis (lifting))

lemma byte_at_c_str_end: "byte_at buf (length (c_str buf)) = NUL"
proof (cases "length (c_str buf) < length buf")
  case True
  then have "\<not> (buf ! length (c_str buf) \<noteq> NUL)"
    unfolding c_str_def by (rule nth_length_takeWhile)
  with True show ?thesis by (simp add: byte_at_def)
qed (simp add: byte_at_def)

lemma take_c_str:
  assumes "n \<le> length (c_str p)" shows "take n (c_str p) = take n p"
proof -
  have "c_str p = take (length (c_str p)) p" unfolding c_str_def by (rule takeWhile_eq_take)
  then have "take n (c_str p) = take n (take (length (c_str p)) p)" by (rule arg_cong)
  with assms show ?thesis by (simp only: take_take min.absorb1)
qed

lemma c_str_append: "NUL \<notin> set q \<Longrightarrow> c_str (q @ r) = q @ c_str r"
  unfolding c_str_def by (rule takeWhile_append2) blast

lemma take_eq_c_str:
  assumes "NUL \<notin> set q" "length q = n"
  shows "take n p = q \<longleftrightarrow> take n (c_str p) = q"
proof
  assume t: "take n p = q"
  have "c_str (q @ drop n p) = q @ c_str (drop n p)" by (rule c_str_append [OF assms(1)])
  moreover have "q @ drop n p = p" using t append_take_drop_id [of n p] by simp
  ultimately have "take n (c_str p) = take n (q @ c_str (drop n p))" by (simp only:)
  then show "take n (c_str p) = q" using assms(2) by simp
next
  assume t: "take n (c_str p) = q"
  then have "min (length (c_str p)) n = n" using assms(2) length_take [of n "c_str p"] by simp
  then have "n \<le> length (c_str p)" by simp
  with t show "take n p = q" by (simp only: take_c_str)
qed

section \<open>Words\<close>

lemma unat_u32_less [simp]: "unat (w :: u32) < 4294967296"
  using unsigned_less [of w, where ?'a = nat] by simp

lemma unat_of_nat_u32: "n < 4294967296 \<Longrightarrow> unat (of_nat n :: u32) = n"
  by (simp add: unat_of_nat)

lemma and_mask_31 [word_eval]: "unat (w AND 31 :: u32) = unat w mod 32"
proof -
  have "w AND 31 = take_bit 5 w"
    by (simp add: take_bit_eq_mask mask_numeral)
  then show ?thesis
    by (simp add: take_bit_eq_mod unat_mod_distrib)
qed

lemma and_mask_7 [word_eval]: "unat (w AND 7 :: u32) = unat w mod 8"
proof -
  have "w AND 7 = take_bit 3 w"
    by (simp add: take_bit_eq_mask mask_numeral)
  then show ?thesis
    by (simp add: take_bit_eq_mod unat_mod_distrib)
qed

text \<open>\<open>u64::rotate_left\<close> by shifts, for evaluation.\<close>

lemma rotl_shifts_gen:
  fixes x :: "'a::len word"
  assumes "0 < n" "n < LENGTH('a)"
  shows "word_rotl n x = push_bit n x OR drop_bit (LENGTH('a) - n) x"
proof (rule bit_word_eqI)
  fix k assume k: "k < LENGTH('a)"
  let ?j = "k + (LENGTH('a) - n)"
  have n: "n mod LENGTH('a) = n" using assms by simp
  have "bit (word_rotl n x) k = bit x (?j mod LENGTH('a))"
    using k by (simp add: bit_word_rotl_iff n)
  also have "\<dots> = (n \<le> k \<and> bit x (k - n) \<or> k < n \<and> bit x ?j)"
  proof (cases "k < n")
    case False
    with assms have "?j = LENGTH('a) + (k - n)" by simp
    then have "?j mod LENGTH('a) = (k - n) mod LENGTH('a)" by (simp only: mod_add_self1)
    also have "\<dots> = k - n" using k by simp
    finally show ?thesis using False by simp
  qed (use assms k in simp)
  also have "\<dots> = bit (push_bit n x OR drop_bit (LENGTH('a) - n) x) k"
    using k assms bit_imp_le_length [of x ?j]
    by (auto simp: bit_push_bit_iff bit_drop_bit_eq bit_or_iff add.commute)
  finally show "bit (word_rotl n x) k = bit (push_bit n x OR drop_bit (LENGTH('a) - n) x) k" .
qed

lemma rotl_shifts [word_eval]:
  "0 < n \<Longrightarrow> n < 64 \<Longrightarrow> word_rotl n (x :: u64) = push_bit n x OR drop_bit (64 - n) x"
  using rotl_shifts_gen [of n x] by simp

end
