(* ===== verification/Siphash.thy ===== *)
theory Siphash
  imports Linprov_Prelude
begin

text \<open>
  \<open>linprov-common/src/siphash.rs\<close>: the keyed SipHash-2-4 that both sides of the program hash
  paths with. The one-shot \<open>siphash\<close> is what userspace calls; the eBPF side absorbs one byte
  at a time and finalises clones of the running state. The streaming form is described here by
  the remainder function \<open>sip_run\<close>; \<open>siphash_run\<close> says that finalising it is the one-shot hash,
  and \<open>sip_run_snoc\<close> how one more byte moves it.
\<close>

section \<open>The construction\<close>

type_synonym sip_state = "u64 \<times> u64 \<times> u64 \<times> u64"

definition SIP_IV :: sip_state where
  "SIP_IV = (0x736f6d6570736575, 0x646f72616e646f6d, 0x6c7967656e657261, 0x7465646279746573)"

definition SIP_C :: nat where "SIP_C = 2"

definition SIP_D :: nat where "SIP_D = 4"

definition sip_init :: "u64 \<Rightarrow> u64 \<Rightarrow> sip_state" where
  "sip_init k0 k1 =
     (case SIP_IV of (i0, i1, i2, i3) \<Rightarrow> (i0 XOR k0, i1 XOR k1, i2 XOR k0, i3 XOR k1))"

fun sipround :: "sip_state \<Rightarrow> sip_state" where
  "sipround (v0, v1, v2, v3) =
    (let v0 = v0 + v1; v1 = word_rotl 13 v1; v1 = v1 XOR v0; v0 = word_rotl 32 v0;
         v2 = v2 + v3; v3 = word_rotl 16 v3; v3 = v3 XOR v2;
         v0 = v0 + v3; v3 = word_rotl 21 v3; v3 = v3 XOR v0;
         v2 = v2 + v1; v1 = word_rotl 17 v1; v1 = v1 XOR v2; v2 = word_rotl 32 v2
     in (v0, v1, v2, v3))"

definition sip_absorb :: "sip_state \<Rightarrow> u64 \<Rightarrow> sip_state" where
  "sip_absorb v m =
    (case v of (v0, v1, v2, v3) \<Rightarrow>
     case (sipround ^^ SIP_C) (v0, v1, v2, v3 XOR m) of (v0, v1, v2, v3) \<Rightarrow>
       (v0 XOR m, v1, v2, v3))"

definition sip_finish :: "sip_state \<Rightarrow> nat \<Rightarrow> u64 \<Rightarrow> u64" where
  "sip_finish v len tail =
    (let b = push_bit 56 (of_nat len) OR tail in
     case v of (v0, v1, v2, v3) \<Rightarrow>
     case (sipround ^^ SIP_C) (v0, v1, v2, v3 XOR b) of (v0, v1, v2, v3) \<Rightarrow>
     case (sipround ^^ SIP_D) (v0 XOR b, v1, v2 XOR 0xff, v3) of (v0, v1, v2, v3) \<Rightarrow>
       v0 XOR v1 XOR v2 XOR v3)"

lemma SIP_C_rounds [word_eval]: "(f ^^ SIP_C) v = f (f v)"
  by (simp add: SIP_C_def numeral_2_eq_2)

lemma SIP_D_rounds [word_eval]: "(f ^^ SIP_D) v = f (f (f (f v)))"
  by (simp add: SIP_D_def eval_nat_numeral)

text \<open>\<open>u64::from_le_bytes\<close> (on up to eight bytes).\<close>

fun from_le_bytes :: "bytes \<Rightarrow> u64" where
  "from_le_bytes [] = 0"
| "from_le_bytes (b # bs) = of_char b OR push_bit 8 (from_le_bytes bs)"

text \<open>The two loops of the one-shot hash: whole words, then the trailing bytes.\<close>

function siphash_words :: "bytes \<Rightarrow> nat \<Rightarrow> sip_state \<Rightarrow> sip_state \<times> nat" where
  "siphash_words data i v =
    (if i + 8 \<le> length data
     then siphash_words data (i + 8) (sip_absorb v (from_le_bytes (take 8 (drop i data))))
     else (v, i))"
  by pat_completeness auto
termination
  by (relation "measure (\<lambda>(data, i, v). length data - i)") auto

function siphash_tail :: "bytes \<Rightarrow> nat \<Rightarrow> nat \<Rightarrow> u64 \<Rightarrow> u64" where
  "siphash_tail data i shift tail =
    (if i < length data
     then siphash_tail data (i + 1) (shift + 8) (tail OR push_bit shift (of_char (data ! i)))
     else tail)"
  by pat_completeness auto
termination
  by (relation "measure (\<lambda>(data, i, shift, tail). length data - i)") auto

declare siphash_words.simps [simp del] siphash_tail.simps [simp del]

definition siphash :: "u64 \<Rightarrow> u64 \<Rightarrow> bytes \<Rightarrow> u64" where
  "siphash k0 k1 data =
    (case siphash_words data 0 (sip_init k0 k1) of (v, i) \<Rightarrow>
       sip_finish v (length data) (siphash_tail data i 0 0))"

section \<open>The streaming form\<close>

text \<open>
  What a byte-at-a-time absorber holds after a prefix: the state over the whole words, and the
  bytes (fewer than eight) not yet absorbed.
\<close>

function sip_run :: "sip_state \<Rightarrow> bytes \<Rightarrow> sip_state \<times> bytes" where
  "sip_run v xs =
    (if 8 \<le> length xs then sip_run (sip_absorb v (from_le_bytes (take 8 xs))) (drop 8 xs)
     else (v, xs))"
  by pat_completeness auto
termination
  by (relation "measure (\<lambda>(v, xs). length xs)") auto

declare sip_run.simps [simp del]

lemma sip_run_short: "length xs < 8 \<Longrightarrow> sip_run v xs = (v, xs)"
  by (simp add: sip_run.simps)

lemma sip_run_nil [simp]: "sip_run v [] = (v, [])"
  by (simp add: sip_run_short)

lemma sip_run_long:
  "8 \<le> length xs \<Longrightarrow>
    sip_run v xs = sip_run (sip_absorb v (from_le_bytes (take 8 xs))) (drop 8 xs)"
  by (subst sip_run.simps) simp

lemma sip_run_rest_short: "length (snd (sip_run v xs)) < 8"
proof (induction v xs rule: sip_run.induct)
  case (1 v xs)
  then show ?case
    by (cases "8 \<le> length xs") (auto simp: sip_run_long sip_run_short)
qed

lemma sip_run_snoc:
  assumes "sip_run v xs = (w, r)"
  shows "sip_run v (xs @ [b]) =
    (if length r = 7 then (sip_absorb w (from_le_bytes (r @ [b])), []) else (w, r @ [b]))"
  using assms
proof (induction v xs rule: sip_run.induct)
  case (1 v xs)
  show ?case
  proof (cases "8 \<le> length xs")
    case True
    with 1 show ?thesis
      by (simp add: sip_run_long)
  next
    case False
    with "1.prems" have wr: "w = v" "r = xs"
      by (auto simp: sip_run_short)
    show ?thesis
    proof (cases "length xs = 7")
      case True
      then show ?thesis by (simp add: wr sip_run_long)
    next
      case False
      with \<open>\<not> 8 \<le> length xs\<close> have "length (xs @ [b]) < 8" by simp
      with False show ?thesis by (simp add: wr sip_run_short del: length_append)
    qed
  qed
qed

lemma from_le_bytes_snoc:
  "from_le_bytes (xs @ [b]) = from_le_bytes xs OR push_bit (8 * length xs) (of_char b)"
  by (induction xs) (simp_all add: push_bit_or ac_simps)

lemma siphash_tail_from:
  "siphash_tail data i (8 * k) tail = tail OR push_bit (8 * k) (from_le_bytes (drop i data))"
proof (induction "length data - i" arbitrary: i k tail)
  case 0
  then show ?case by (simp add: siphash_tail.simps)
next
  case (Suc n)
  then have i: "i < length data" and n: "n = length data - Suc i" by auto
  from Suc.hyps(1) [OF n, of "Suc k"]
  have "siphash_tail data (Suc i) (8 * k + 8) t =
      t OR push_bit (8 * k + 8) (from_le_bytes (drop (Suc i) data))" for t
    by (simp add: algebra_simps)
  with i show ?case
    by (simp add: siphash_tail.simps [of data i] Cons_nth_drop_Suc [symmetric] push_bit_or
      ac_simps)
qed

lemma siphash_words_run:
  "i \<le> length data \<Longrightarrow> siphash_words data i v = (w, j) \<Longrightarrow>
    j \<le> length data \<and> sip_run v (drop i data) = (w, drop j data)"
proof (induction data i v rule: siphash_words.induct)
  case (1 data i v)
  show ?case
  proof (cases "i + 8 \<le> length data")
    case True
    with "1.prems" have "siphash_words data (i + 8)
        (sip_absorb v (from_le_bytes (take 8 (drop i data)))) = (w, j)"
      by (simp add: siphash_words.simps [of data i])
    with "1.IH" True show ?thesis
      by (simp add: sip_run_long add.commute)
  next
    case False
    with "1.prems" show ?thesis
      by (simp add: siphash_words.simps [of data i] sip_run_short)
  qed
qed

text \<open>Finalising the streaming state is the one-shot hash.\<close>

definition sip_digest :: "sip_state \<times> bytes \<Rightarrow> nat \<Rightarrow> u64" where
  "sip_digest s len = sip_finish (fst s) len (from_le_bytes (snd s))"

lemma siphash_run: "sip_digest (sip_run (sip_init k0 k1) data) (length data) = siphash k0 k1 data"
proof -
  obtain w j where wj: "siphash_words data 0 (sip_init k0 k1) = (w, j)" by fastforce
  with siphash_words_run [of 0 data] have "sip_run (sip_init k0 k1) data = (w, drop j data)"
    by simp
  moreover have "siphash_tail data j 0 0 = from_le_bytes (drop j data)"
    using siphash_tail_from [of data j 0 0] by simp
  ultimately show ?thesis
    by (simp add: siphash_def sip_digest_def wj)
qed

section \<open>Reference vector\<close>

text \<open>
  The hash is SipHash-2-4: on the fifteen bytes 00 .. 0e under the key 00 .. 0f it gives the
  value published with the algorithm, which the unit test of the module pins as well.
\<close>

theorem siphash_reference_vector:
  "siphash 0x0706050403020100 0x0f0e0d0c0b0a0908
    [CHR 0x00, CHR 0x01, CHR 0x02, CHR 0x03, CHR 0x04, CHR 0x05, CHR 0x06, CHR 0x07,
     CHR 0x08, CHR 0x09, CHR 0x0A, CHR 0x0B, CHR 0x0C, CHR 0x0D, CHR 0x0E] = 0xa129ca6149be45e5"
  by (simp add: siphash_def siphash_words.simps siphash_tail.simps sip_absorb_def sip_finish_def
    sip_init_def SIP_IV_def word_eval cong: prod.case_cong_weak let_weak_cong)

text \<open>A concrete digest, for the witnesses of the components that hash.\<close>

lemma siphash_x_nonzero: "siphash 1 2 ''x'' \<noteq> 0"
  by (simp add: siphash_def siphash_words.simps siphash_tail.simps sip_finish_def
    sip_init_def SIP_IV_def word_eval cong: prod.case_cong_weak let_weak_cong)

end
