(* ===== verification/Common.thy ===== *)
theory Common
  imports Linprov_Prelude
begin

text \<open>
  \<open>linprov-common/src/lib.rs\<close>: the constants and wire types shared by the eBPF program and the
  daemon, the unkeyed FNV-1a hash used for interpreter names, and the byte layout of the
  \<open>repr(C)\<close> provenance record as it is stored in the xattr.
\<close>

section \<open>Constants\<close>

definition COMM_LEN :: nat where "COMM_LEN = 16"

definition EXEC_PATH_LEN :: nat where "EXEC_PATH_LEN = 4096"

definition PATH_HASH_SCAN_LEN :: nat where "PATH_HASH_SCAN_LEN = EXEC_PATH_LEN"

definition MAX_FOLDER_ANCESTORS :: nat where "MAX_FOLDER_ANCESTORS = 32"

definition MAX_RULES :: nat where "MAX_RULES = 8192"

definition FNV_OFFSET :: u64 where "FNV_OFFSET = 0xcbf29ce484222325"

definition FNV_PRIME :: u64 where "FNV_PRIME = 0x100000001b3"

definition ORIGIN_VERSION :: u32 where "ORIGIN_VERSION = 5"

definition EVENT_KIND_NETWORK_FILE_OPEN :: u32 where "EVENT_KIND_NETWORK_FILE_OPEN = 1"

definition EVENT_KIND_EXECVE :: u32 where "EVENT_KIND_EXECVE = 2"

definition EVENT_KIND_DERIVED_FILE_OPEN :: u32 where "EVENT_KIND_DERIVED_FILE_OPEN = 3"

definition EVENT_KIND_SCRIPT_EXEC :: u32 where "EVENT_KIND_SCRIPT_EXEC = 4"

definition MODE_OBSERVE :: u32 where "MODE_OBSERVE = 0"

definition MODE_SOAK :: u32 where "MODE_SOAK = 1"

definition MODE_ENFORCE :: u32 where "MODE_ENFORCE = 2"

lemmas size_consts = COMM_LEN_def EXEC_PATH_LEN_def PATH_HASH_SCAN_LEN_def
  MAX_FOLDER_ANCESTORS_def MAX_RULES_def

lemmas kind_consts = EVENT_KIND_NETWORK_FILE_OPEN_def EVENT_KIND_EXECVE_def
  EVENT_KIND_DERIVED_FILE_OPEN_def EVENT_KIND_SCRIPT_EXEC_def

lemmas mode_consts = MODE_OBSERVE_def MODE_SOAK_def MODE_ENFORCE_def

section \<open>Rule flags (\<open>mod dim\<close>)\<close>

definition TARGET_FILENAME :: u32 where "TARGET_FILENAME = push_bit 0 1"

definition TARGET_FOLDER :: u32 where "TARGET_FOLDER = push_bit 1 1"

definition LANDING_FILENAME :: u32 where "LANDING_FILENAME = push_bit 2 1"

definition LANDING_FOLDER :: u32 where "LANDING_FOLDER = push_bit 3 1"

definition CREATOR_PROCESS :: u32 where "CREATOR_PROCESS = push_bit 4 1"

definition CREATOR_COMM :: u32 where "CREATOR_COMM = push_bit 5 1"

definition CREATOR_UID :: u32 where "CREATOR_UID = push_bit 6 1"

definition EXECUTION_UID :: u32 where "EXECUTION_UID = push_bit 7 1"

definition TARGET_FOLDER_RECURSIVE :: u32 where "TARGET_FOLDER_RECURSIVE = push_bit 8 1"

definition LANDING_FOLDER_RECURSIVE :: u32 where "LANDING_FOLDER_RECURSIVE = push_bit 9 1"

lemmas dim_consts = TARGET_FILENAME_def TARGET_FOLDER_def LANDING_FILENAME_def
  LANDING_FOLDER_def CREATOR_PROCESS_def CREATOR_COMM_def CREATOR_UID_def EXECUTION_UID_def
  TARGET_FOLDER_RECURSIVE_def LANDING_FOLDER_RECURSIVE_def

text \<open>\<open>flags & D != 0\<close>, the test every dimension check of the program makes.\<close>

abbreviation flag_set :: "u32 \<Rightarrow> u32 \<Rightarrow> bool" where
  "flag_set f d \<equiv> f AND d \<noteq> 0"

lemma and_single_bit: "(f :: u32) AND push_bit n 1 \<noteq> 0 \<longleftrightarrow> bit f n"
proof -
  have "f AND push_bit n 1 = (if bit f n then push_bit n 1 else 0)"
    by (rule bit_word_eqI) (auto simp: bit_and_iff bit_exp_iff)
  moreover have "bit f n \<Longrightarrow> (push_bit n 1 :: u32) \<noteq> 0"
    by (auto dest: bit_imp_le_length simp: push_bit_of_1)
  ultimately show ?thesis by simp
qed

lemma bit_or_single: "bit ((f :: u32) OR push_bit n 1) m \<longleftrightarrow> bit f m \<or> (m = n \<and> n < 32)"
  by (auto simp: bit_or_iff bit_exp_iff)

section \<open>Wire types\<close>

record allow_rule =
  r_flags :: u32
  r_creator_uid :: u32
  r_execution_uid :: u32
  r_pad :: u32
  r_creator_comm :: bytes
  r_target_filename_hash :: u64
  r_target_folder_hash :: u64
  r_landing_filename_hash :: u64
  r_landing_folder_hash :: u64
  r_creator_process_hash :: u64

record origin_record =
  version :: u32
  pid :: u32
  ts_boot_ns :: u64
  comm :: bytes
  creator_uid :: u32
  o_pad :: u32
  creator_path_hash :: u64
  landing_folder_hash :: u64
  landing_basename_hash :: u64
  landing_ancestor_hashes :: "u64 list"

record event =
  e_kind :: u32
  e_pid :: u32
  e_tgid :: u32
  e_status :: i32
  e_comm :: bytes
  e_origin :: origin_record
  e_filename :: bytes

text \<open>All-zero values (\<open>write_bytes(p, 0, size_of)\<close>) and the array sizes of the type.\<close>

definition zero_comm :: bytes where
  "zero_comm = replicate COMM_LEN NUL"

definition zero_record :: origin_record where
  "zero_record = \<lparr>version = 0, pid = 0, ts_boot_ns = 0, comm = zero_comm, creator_uid = 0,
     o_pad = 0, creator_path_hash = 0, landing_folder_hash = 0, landing_basename_hash = 0,
     landing_ancestor_hashes = replicate MAX_FOLDER_ANCESTORS 0\<rparr>"

definition record_shape :: "origin_record \<Rightarrow> bool" where
  "record_shape r \<longleftrightarrow> length (comm r) = COMM_LEN \<and>
     length (landing_ancestor_hashes r) = MAX_FOLDER_ANCESTORS"

lemma zero_record_shape [simp]: "record_shape zero_record"
  by (simp add: record_shape_def zero_record_def zero_comm_def)

lemma zero_record_simps [simp]:
  "version zero_record = 0" "creator_path_hash zero_record = 0"
  "landing_folder_hash zero_record = 0"
  by (simp_all add: zero_record_def)

section \<open>FNV-1a\<close>

fun fnv_loop :: "u64 \<Rightarrow> bytes \<Rightarrow> u64" where
  "fnv_loop h [] = h"
| "fnv_loop h (b # bs) = fnv_loop ((h XOR of_char b) * FNV_PRIME) bs"

definition fnv_hash_bytes :: "bytes \<Rightarrow> u64" where
  "fnv_hash_bytes bs = fnv_loop FNV_OFFSET bs"

definition fnv_hash :: "string \<Rightarrow> u64" where
  "fnv_hash s = fnv_hash_bytes s"

section \<open>Layout of the provenance record\<close>

text \<open>
  \<open>bytemuck::bytes_of(&OriginRecord)\<close>: the fields in order, little-endian, no padding
  (every field is aligned where it falls).
\<close>

fun to_le_bytes :: "nat \<Rightarrow> nat \<Rightarrow> bytes" where
  "to_le_bytes 0 n = []"
| "to_le_bytes (Suc k) n = char_of (n mod 256) # to_le_bytes k (n div 256)"

fun of_le_bytes :: "bytes \<Rightarrow> nat" where
  "of_le_bytes [] = 0"
| "of_le_bytes (b # bs) = of_char b + 256 * of_le_bytes bs"

definition bytes_of_origin :: "origin_record \<Rightarrow> bytes" where
  "bytes_of_origin r =
     to_le_bytes 4 (unat (version r)) @ to_le_bytes 4 (unat (pid r)) @
     to_le_bytes 8 (unat (ts_boot_ns r)) @ comm r @
     to_le_bytes 4 (unat (creator_uid r)) @ to_le_bytes 4 (unat (o_pad r)) @
     to_le_bytes 8 (unat (creator_path_hash r)) @ to_le_bytes 8 (unat (landing_folder_hash r)) @
     to_le_bytes 8 (unat (landing_basename_hash r)) @
     concat (map (\<lambda>h. to_le_bytes 8 (unat h)) (landing_ancestor_hashes r))"

definition field_at :: "bytes \<Rightarrow> nat \<Rightarrow> nat \<Rightarrow> nat" where
  "field_at bs off w = of_le_bytes (take w (drop off bs))"

definition origin_of_bytes :: "bytes \<Rightarrow> origin_record" where
  "origin_of_bytes bs = \<lparr>version = of_nat (field_at bs 0 4), pid = of_nat (field_at bs 4 4),
     ts_boot_ns = of_nat (field_at bs 8 8), comm = take 16 (drop 16 bs),
     creator_uid = of_nat (field_at bs 32 4), o_pad = of_nat (field_at bs 36 4),
     creator_path_hash = of_nat (field_at bs 40 8),
     landing_folder_hash = of_nat (field_at bs 48 8),
     landing_basename_hash = of_nat (field_at bs 56 8),
     landing_ancestor_hashes =
       map (\<lambda>j. of_nat (field_at bs (64 + 8 * j) 8)) [0..<MAX_FOLDER_ANCESTORS]\<rparr>"

lemma length_to_le_bytes [simp]: "length (to_le_bytes k n) = k"
  by (induction k arbitrary: n) auto

lemma of_to_le_bytes: "n < 256 ^ k \<Longrightarrow> of_le_bytes (to_le_bytes k n) = n"
proof (induction k arbitrary: n)
  case (Suc k)
  then have "n div 256 < 256 ^ k" by (simp add: less_mult_imp_div_less mult.commute)
  with Suc.IH show ?case by simp
qed simp

lemma of_to_le_u32 [simp]: "of_le_bytes (to_le_bytes 4 (unat (w :: u32))) = unat w"
  by (rule of_to_le_bytes) simp

lemma of_to_le_u64 [simp]: "of_le_bytes (to_le_bytes 8 (unat (w :: u64))) = unat w"
  using unsigned_less [of w, where ?'a = nat] by (intro of_to_le_bytes) simp

lemma length_concat_le [simp]:
  "length (concat (map (\<lambda>h. to_le_bytes 8 (unat (h :: u64))) hs)) = 8 * length hs"
  by (induction hs) auto

lemma take_drop_concat_le:
  "j < length hs \<Longrightarrow>
    take 8 (drop (8 * j) (concat (map (\<lambda>h. to_le_bytes 8 (unat (h :: u64))) hs))) =
      to_le_bytes 8 (unat (hs ! j))"
proof (induction hs arbitrary: j)
  case (Cons h hs)
  then show ?case by (cases j) auto
qed simp

lemma length_bytes_of_origin: "record_shape r \<Longrightarrow> length (bytes_of_origin r) = 320"
  by (simp add: bytes_of_origin_def record_shape_def size_consts)

lemma ancestors_of_bytes:
  assumes "record_shape r" "j < 32"
  shows "field_at (bytes_of_origin r) (64 + 8 * j) 8 = unat (landing_ancestor_hashes r ! j)"
  using assms take_drop_concat_le [of j "landing_ancestor_hashes r"]
  by (simp add: field_at_def bytes_of_origin_def record_shape_def size_consts)

lemma origin_bytes_roundtrip_aux:
  assumes "record_shape r"
  shows "origin_of_bytes (bytes_of_origin r) = r"
proof -
  have c: "length (comm r) = 16" and a: "length (landing_ancestor_hashes r) = 32"
    using assms by (simp_all add: record_shape_def size_consts)
  have "map (\<lambda>j. of_nat (field_at (bytes_of_origin r) (64 + 8 * j) 8)) [0..<32] =
      landing_ancestor_hashes r"
    using assms a by (intro nth_equalityI) (auto simp: ancestors_of_bytes)
  with c show ?thesis
    by (intro origin_record.equality)
      (simp_all add: origin_of_bytes_def bytes_of_origin_def field_at_def size_consts)
qed

text \<open>
  The stored form of a provenance record is 320 bytes and loses nothing: reading the bytes
  of a record back gives the record.
\<close>

theorem origin_bytes_roundtrip:
  assumes "record_shape r"
  shows "origin_of_bytes (bytes_of_origin r) = r \<and> length (bytes_of_origin r) = 320"
  using assms by (simp add: origin_bytes_roundtrip_aux length_bytes_of_origin)

theorem origin_bytes_roundtrip_witness:
  "origin_of_bytes (bytes_of_origin (zero_record\<lparr>version := 5, creator_uid := 1000\<rparr>)) =
    zero_record\<lparr>version := 5, creator_uid := 1000\<rparr>"
  using origin_bytes_roundtrip [of "zero_record\<lparr>version := 5, creator_uid := 1000\<rparr>"] zero_record_shape
  by (simp add: record_shape_def)

end
