(* ===== verification/Path_Walk.thy ===== *)
theory Path_Walk
  imports Siphash Common
begin

text \<open>
  The in-kernel path walk of \<open>linprov-ebpf/src/main.rs\<close>: one \<open>bpf_loop\<close> pass over a
  NUL-terminated path that streams the bytes into two SipHash states and emits the hash of the
  whole path, of the immediate parent folder, of the basename, and of every \<open>/\<close>-terminated
  ancestor. The lemmas show that each emitted value is the one-shot \<open>siphash\<close> (what userspace
  computes) of the corresponding substring of the path.

  Per-CPU scratch arrays are components of the state that is passed along; a lookup at an index
  below \<open>max_entries\<close> of such a map always resolves, so the \<open>None\<close> branches the verifier asks
  for are not modelled.
\<close>

section \<open>The walk\<close>

text \<open>\<open>bpf_loop\<close>: call the callback for \<open>i = 0, 1, ..\<close> at most \<open>n\<close> times; \<open>True\<close> breaks.\<close>

function bpf_loop_from :: "nat \<Rightarrow> nat \<Rightarrow> (nat \<Rightarrow> 'c \<Rightarrow> 'c \<times> bool) \<Rightarrow> 'c \<Rightarrow> 'c" where
  "bpf_loop_from i n cb ctx =
    (if i < n then
       (case cb i ctx of (ctx', stop) \<Rightarrow>
          if stop then ctx' else bpf_loop_from (Suc i) n cb ctx')
     else ctx)"
  by pat_completeness auto
termination
  by (relation "measure (\<lambda>(i, n, cb, ctx). n - i)") auto

declare bpf_loop_from.simps [simp del]

definition bpf_loop :: "nat \<Rightarrow> (nat \<Rightarrow> 'c \<Rightarrow> 'c \<times> bool) \<Rightarrow> 'c \<Rightarrow> 'c" where
  "bpf_loop n cb ctx = bpf_loop_from 0 n cb ctx"

record landing_ctx =
  src :: bytes
  k0 :: u64
  k1 :: u64
  w_v :: sip_state
  w_c :: sip_state
  full_tail :: u64
  comp_tail :: u64
  folder_hash :: u64
  full_len :: u32
  full_tn :: u32
  comp_len :: u32
  comp_tn :: u32
  seen_slashes :: u32

definition landing_ctx_new :: "bytes \<Rightarrow> u64 \<Rightarrow> u64 \<Rightarrow> landing_ctx" where
  "landing_ctx_new s a b = \<lparr>src = s, k0 = a, k1 = b, w_v = sip_init a b, w_c = sip_init a b,
     full_tail = 0, comp_tail = 0, folder_hash = 0, full_len = 0, full_tn = 0,
     comp_len = 0, comp_tn = 0, seen_slashes = 0\<rparr>"

text \<open>The absorb-one-byte block that \<open>landing_step\<close> writes out twice.\<close>

type_synonym sip_stream = "sip_state \<times> u64 \<times> u32 \<times> u32"

definition sip_push :: "sip_stream \<Rightarrow> u8 \<Rightarrow> sip_stream" where
  "sip_push st b =
    (case st of (v, tail, tn, len) \<Rightarrow>
      let tail = tail OR push_bit (unat (8 * (tn AND 7))) (of_char b);
          tn = tn + 1;
          len = len + 1
      in if tn = 8 then (sip_absorb v tail, 0, 0, len) else (v, tail, tn, len))"

definition landing_step ::
    "nat \<Rightarrow> landing_ctx \<times> u64 list \<Rightarrow> (landing_ctx \<times> u64 list) \<times> bool" where
  "landing_step i st =
    (case st of (ctx, walk_anc) \<Rightarrow>
      if PATH_HASH_SCAN_LEN \<le> i then (st, True)
      else let b = byte_at (src ctx) i in
      if b = NUL then (st, True)
      else
        (case sip_push (w_v ctx, full_tail ctx, full_tn ctx, full_len ctx) b of
          (v, ft, fn, fl) \<Rightarrow>
          let ctx = ctx\<lparr>w_v := v, full_tail := ft, full_tn := fn, full_len := fl\<rparr> in
          if b = SLASH then
            let h = sip_finish (w_v ctx) (unat (full_len ctx)) (full_tail ctx);
                idx = unat (seen_slashes ctx AND (of_nat MAX_FOLDER_ANCESTORS - 1))
            in ((ctx\<lparr>folder_hash := h, seen_slashes := seen_slashes ctx + 1,
                     w_c := sip_init (k0 ctx) (k1 ctx), comp_tail := 0, comp_tn := 0,
                     comp_len := 0\<rparr>,
                 walk_anc[idx := h]), False)
          else
            (case sip_push (w_c ctx, comp_tail ctx, comp_tn ctx, comp_len ctx) b of
              (c, ct, cn, cl) \<Rightarrow>
              ((ctx\<lparr>w_c := c, comp_tail := ct, comp_tn := cn, comp_len := cl\<rparr>, walk_anc),
               False))))"

definition walk_anc_clear :: "u64 list" where
  "walk_anc_clear = replicate MAX_FOLDER_ANCESTORS 0"

definition path_walk :: "bytes \<Rightarrow> u64 \<Rightarrow> u64 \<Rightarrow> landing_ctx \<times> u64 list" where
  "path_walk s a b =
     bpf_loop PATH_HASH_SCAN_LEN landing_step (landing_ctx_new s a b, walk_anc_clear)"

text \<open>Both return the value they return and the two values they store through pointers.\<close>

definition landing_hashes :: "bytes \<Rightarrow> u64 \<Rightarrow> u64 \<Rightarrow> u64 \<times> u64 list \<times> u64" where
  "landing_hashes s a b =
    (case path_walk s a b of (ctx, walk_anc) \<Rightarrow>
      (folder_hash ctx, walk_anc, sip_finish (w_c ctx) (unat (comp_len ctx)) (comp_tail ctx)))"

definition target_hashes :: "bytes \<Rightarrow> u64 \<Rightarrow> u64 \<Rightarrow> u64 \<times> u64 list \<times> u64" where
  "target_hashes s a b =
    (case path_walk s a b of (ctx, walk_anc) \<Rightarrow>
      (sip_finish (w_v ctx) (unat (full_len ctx)) (full_tail ctx), walk_anc, folder_hash ctx))"

section \<open>What the walk computes\<close>

text \<open>The pieces of a path: everything up to the last slash, what follows it, all prefixes.\<close>

definition base_part :: "bytes \<Rightarrow> bytes" where
  "base_part p = rev (takeWhile (\<lambda>b. b \<noteq> SLASH) (rev p))"

definition dir_part :: "bytes \<Rightarrow> bytes" where
  "dir_part p = rev (dropWhile (\<lambda>b. b \<noteq> SLASH) (rev p))"

fun prefixes_acc :: "bytes \<Rightarrow> bytes \<Rightarrow> bytes list" where
  "prefixes_acc acc [] = []"
| "prefixes_acc acc (b # bs) =
    (if b = SLASH then [acc @ [b]] else []) @ prefixes_acc (acc @ [b]) bs"

definition slash_prefixes :: "bytes \<Rightarrow> bytes list" where
  "slash_prefixes p = prefixes_acc [] p"

text \<open>Filling a 32-slot array round-robin, the masked index written out.\<close>

fun anc_fill :: "u64 list \<Rightarrow> nat \<Rightarrow> u64 list \<Rightarrow> u64 list" where
  "anc_fill a c [] = a"
| "anc_fill a c (h # hs) = anc_fill (a[c mod 32 := h]) (Suc c) hs"

definition ancestor_array :: "u64 list \<Rightarrow> u64 list" where
  "ancestor_array hs = anc_fill (replicate 32 0) 0 hs"

text \<open>The path the walk sees: up to the first NUL, at most \<open>PATH_HASH_SCAN_LEN\<close> bytes.\<close>

definition walked :: "bytes \<Rightarrow> bytes" where
  "walked s = take PATH_HASH_SCAN_LEN (c_str s)"

lemma base_part_snoc: "base_part (p @ [b]) = (if b = SLASH then [] else base_part p @ [b])"
  by (simp add: base_part_def)

lemma dir_part_snoc: "dir_part (p @ [b]) = (if b = SLASH then p @ [b] else dir_part p)"
  by (simp add: dir_part_def)

lemma base_part_Nil [simp]: "base_part [] = []"
  by (simp add: base_part_def)

lemma dir_part_Nil [simp]: "dir_part [] = []"
  by (simp add: dir_part_def)

lemma dir_base: "dir_part p @ base_part p = p"
  by (induction p rule: rev_induct) (auto simp: dir_part_snoc base_part_snoc)

lemma base_part_no_slash: "SLASH \<notin> set (base_part p)"
  by (induction p rule: rev_induct) (auto simp: base_part_snoc)

lemma dir_part_empty_iff: "dir_part p = [] \<longleftrightarrow> SLASH \<notin> set p"
  by (induction p rule: rev_induct) (auto simp: dir_part_snoc)

lemma prefixes_acc_snoc:
  "prefixes_acc acc (p @ [b]) =
    prefixes_acc acc p @ (if b = SLASH then [acc @ p @ [b]] else [])"
  by (induction p arbitrary: acc) auto

lemma slash_prefixes_snoc:
  "slash_prefixes (p @ [b]) = slash_prefixes p @ (if b = SLASH then [p @ [b]] else [])"
  by (simp add: slash_prefixes_def prefixes_acc_snoc)

lemma slash_prefixes_Nil [simp]: "slash_prefixes [] = []"
  by (simp add: slash_prefixes_def)

lemma last_slash_prefix: "slash_prefixes p \<noteq> [] \<Longrightarrow> last (slash_prefixes p) = dir_part p"
  by (induction p rule: rev_induct) (auto simp: slash_prefixes_snoc dir_part_snoc)

lemma slash_prefixes_empty_iff: "slash_prefixes p = [] \<longleftrightarrow> SLASH \<notin> set p"
  by (induction p rule: rev_induct) (auto simp: slash_prefixes_snoc)

lemma in_slash_prefixes:
  "q \<in> set (slash_prefixes p) \<longleftrightarrow> q \<noteq> [] \<and> last q = SLASH \<and> (\<exists>r. p = q @ r)"
proof (induction p rule: rev_induct)
  case Nil
  then show ?case by auto
next
  case (snoc b p)
  have "(\<exists>r. p @ [b] = q @ r) \<longleftrightarrow> q = p @ [b] \<or> (\<exists>r. p = q @ r)"
    by (auto simp: append_eq_append_conv2 Cons_eq_append_conv)
  with snoc show ?case by (auto simp: slash_prefixes_snoc)
qed

lemma length_slash_prefixes: "length (slash_prefixes p) = length (filter (\<lambda>b. b = SLASH) p)"
  by (induction p rule: rev_induct) (auto simp: slash_prefixes_snoc)

lemma length_anc_fill [simp]: "length (anc_fill a c hs) = length a"
  by (induction hs arbitrary: a c) auto

lemma anc_fill_snoc:
  "anc_fill a c (hs @ [h]) = (anc_fill a c hs)[(c + length hs) mod 32 := h]"
  by (induction hs arbitrary: a c) auto

lemma ancestor_array_snoc:
  "ancestor_array (hs @ [h]) = (ancestor_array hs)[length hs mod 32 := h]"
  by (simp add: ancestor_array_def anc_fill_snoc)

lemma length_ancestor_array [simp]: "length (ancestor_array hs) = 32"
  by (simp add: ancestor_array_def)

section \<open>The walk invariant\<close>

definition sip_holds :: "u64 \<Rightarrow> u64 \<Rightarrow> bytes \<Rightarrow> sip_stream \<Rightarrow> bool" where
  "sip_holds a b xs st \<longleftrightarrow>
    (case sip_run (sip_init a b) xs of (w, r) \<Rightarrow>
      st = (w, from_le_bytes r, of_nat (length r), of_nat (length xs)))"

lemma small_tn:
  assumes "n < (8 :: nat)"
  shows "unat (8 * (of_nat n AND 7 :: u32)) = 8 * n" and "(of_nat n + 1 = (8 :: u32)) = (n = 7)"
proof -
  have "n \<in> {0, 1, 2, 3, 4, 5, 6, 7}" using assms by auto
  then show "unat (8 * (of_nat n AND 7 :: u32)) = 8 * n" and
    "(of_nat n + 1 = (8 :: u32)) = (n = 7)"
    by auto
qed

lemma sip_holds_init: "sip_holds a b [] (sip_init a b, 0, 0, 0)"
  by (simp add: sip_holds_def)

lemma sip_holds_push:
  assumes "sip_holds a b xs st"
  shows "sip_holds a b (xs @ [c]) (sip_push st c)"
proof -
  obtain w r where wr: "sip_run (sip_init a b) xs = (w, r)" by fastforce
  then have r: "length r < 8" using sip_run_rest_short [of "sip_init a b" xs] by simp
  have st: "st = (w, from_le_bytes r, of_nat (length r), of_nat (length xs))"
    using assms by (simp add: sip_holds_def wr)
  have "sip_push st c =
      (if length r = 7 then (sip_absorb w (from_le_bytes (r @ [c])), 0, 0, of_nat (length xs) + 1)
       else (w, from_le_bytes (r @ [c]), of_nat (length r) + 1, of_nat (length xs) + 1))"
    unfolding sip_push_def st
    by (simp only: prod.case Let_def small_tn [OF r] from_le_bytes_snoc)
  then show ?thesis
    by (simp add: sip_holds_def sip_run_snoc [OF wr] add.commute)
qed

lemma sip_holds_finish:
  assumes "sip_holds a b xs (v, tail, tn, len)" "length xs < 4294967296"
  shows "sip_finish v (unat len) tail = siphash a b xs"
  using assms siphash_run [of a b xs]
  by (auto simp: sip_holds_def sip_digest_def unat_of_nat_u32 split: prod.splits)

definition parent_hash :: "u64 \<Rightarrow> u64 \<Rightarrow> bytes \<Rightarrow> u64" where
  "parent_hash a b p = (if SLASH \<in> set p then siphash a b (dir_part p) else 0)"

definition ancestor_hashes :: "u64 \<Rightarrow> u64 \<Rightarrow> bytes \<Rightarrow> u64 list" where
  "ancestor_hashes a b p = ancestor_array (map (siphash a b) (slash_prefixes p))"

definition walk_inv :: "bytes \<Rightarrow> u64 \<Rightarrow> u64 \<Rightarrow> bytes \<Rightarrow> landing_ctx \<times> u64 list \<Rightarrow> bool" where
  "walk_inv s a b p st \<longleftrightarrow>
    (case st of (ctx, anc) \<Rightarrow>
      src ctx = s \<and> k0 ctx = a \<and> k1 ctx = b \<and>
      sip_holds a b p (w_v ctx, full_tail ctx, full_tn ctx, full_len ctx) \<and>
      sip_holds a b (base_part p) (w_c ctx, comp_tail ctx, comp_tn ctx, comp_len ctx) \<and>
      folder_hash ctx = parent_hash a b p \<and>
      seen_slashes ctx = of_nat (length (slash_prefixes p)) \<and>
      anc = ancestor_hashes a b p)"

lemma walk_inv_init: "walk_inv s a b [] (landing_ctx_new s a b, walk_anc_clear)"
  by (simp add: walk_inv_def landing_ctx_new_def walk_anc_clear_def sip_holds_init
    parent_hash_def ancestor_hashes_def ancestor_array_def size_consts)

lemma anc_index:
  assumes "length p \<le> 4096"
  shows "unat ((of_nat (length (slash_prefixes p)) :: u32) AND 31) =
    length (slash_prefixes p) mod 32"
proof -
  have "length (slash_prefixes p) \<le> 4096"
    using assms le_trans [OF length_filter_le, of p 4096] by (simp add: length_slash_prefixes)
  then have "unat (of_nat (length (slash_prefixes p)) :: u32) = length (slash_prefixes p)"
    by (simp add: unat_of_nat_u32)
  then show ?thesis by (simp only: and_mask_31)
qed

lemma landing_step_inv:
  assumes inv: "walk_inv s a b p (ctx, anc)"
    and len: "length p < 4096"
    and c: "byte_at s (length p) = c" "c \<noteq> NUL"
  shows "\<exists>st. landing_step (length p) (ctx, anc) = (st, False) \<and> walk_inv s a b (p @ [c]) st"
proof -
  obtain v ft fn fl where push:
      "sip_push (w_v ctx, full_tail ctx, full_tn ctx, full_len ctx) c = (v, ft, fn, fl)"
    using prod_cases4 by blast
  have whole: "sip_holds a b (p @ [c]) (v, ft, fn, fl)"
    using inv sip_holds_push [of a b p "(w_v ctx, full_tail ctx, full_tn ctx, full_len ctx)" c] push
    by (simp add: walk_inv_def)
  have src: "src ctx = s" "k0 ctx = a" "k1 ctx = b" using inv by (simp_all add: walk_inv_def)
  show ?thesis
  proof (cases "c = SLASH")
    case True
    have "sip_finish v (unat fl) ft = siphash a b (p @ [c])"
      using whole len by (intro sip_holds_finish) auto
    with True inv whole push src len c show ?thesis
      by (simp add: landing_step_def walk_inv_def size_consts base_part_snoc dir_part_snoc
        slash_prefixes_snoc parent_hash_def ancestor_hashes_def ancestor_array_snoc
        sip_holds_init anc_index add.commute Let_def)
  next
    case False
    obtain w ct cn cl where push2:
        "sip_push (w_c ctx, comp_tail ctx, comp_tn ctx, comp_len ctx) c = (w, ct, cn, cl)"
      using prod_cases4 by blast
    have "sip_holds a b (base_part p @ [c]) (w, ct, cn, cl)"
      using inv push2
        sip_holds_push [of a b "base_part p" "(w_c ctx, comp_tail ctx, comp_tn ctx, comp_len ctx)" c]
      by (simp add: walk_inv_def)
    with False inv whole push push2 src len c show ?thesis
      by (simp add: landing_step_def walk_inv_def size_consts base_part_snoc dir_part_snoc
        slash_prefixes_snoc parent_hash_def ancestor_hashes_def)
  qed
qed

lemma length_walked: "length (walked s) \<le> 4096"
  by (simp add: walked_def size_consts)

lemma landing_step_stop: "landing_step (length (walked s)) (ctx, anc) = ((ctx, anc), True)"
  if "src ctx = s"
proof (cases "length (walked s) = 4096")
  case True
  then show ?thesis by (simp add: landing_step_def size_consts)
next
  case False
  with length_walked [of s] have "length (walked s) = length (c_str s)"
    by (simp add: walked_def size_consts)
  with that show ?thesis
    by (simp add: landing_step_def byte_at_c_str_end)
qed

lemma walk_loop_inv:
  assumes "i \<le> length (walked s)" "walk_inv s a b (take i (walked s)) st"
  shows "walk_inv s a b (walked s) (bpf_loop_from i PATH_HASH_SCAN_LEN landing_step st)"
  using assms
proof (induction "length (walked s) - i" arbitrary: i st)
  case 0
  obtain ctx anc where st: "st = (ctx, anc)" by fastforce
  from 0 have i: "i = length (walked s)" by simp
  then have inv: "walk_inv s a b (walked s) st" using 0 by simp
  then have "src ctx = s" by (simp add: walk_inv_def st)
  from landing_step_stop [OF this] show ?case
    by (subst bpf_loop_from.simps) (simp add: i st inv [unfolded st])
next
  case (Suc n)
  obtain ctx anc where st: "st = (ctx, anc)" by fastforce
  from Suc have i: "i < length (walked s)" by simp
  with length_walked [of s] have i': "i < 4096" by simp
  have lt: "length (take i (walked s)) = i" using i by simp
  have nth: "byte_at s i = walked s ! i"
    using i by (simp add: walked_def byte_at_c_str)
  have ne: "walked s ! i \<noteq> NUL"
    using i c_str_nul_free [of s] by (metis in_set_takeD nth_mem walked_def)
  from landing_step_inv [of s a b "take i (walked s)" ctx anc "walked s ! i"] Suc.prems i i' nth ne
  obtain st' where step: "landing_step i st = (st', False)"
    and inv: "walk_inv s a b (take (Suc i) (walked s)) st'"
    by (auto simp: st lt take_Suc_conv_app_nth)
  have "walk_inv s a b (walked s) (bpf_loop_from (Suc i) PATH_HASH_SCAN_LEN landing_step st')"
    using Suc.hyps i inv by (intro Suc.hyps(1)) auto
  then show ?case
    using i' by (subst bpf_loop_from.simps) (simp add: step size_consts)
qed

lemma path_walk_inv: "walk_inv s a b (walked s) (path_walk s a b)"
  unfolding path_walk_def bpf_loop_def
  by (rule walk_loop_inv) (simp_all add: walk_inv_init)

section \<open>The emitted hashes\<close>

lemma length_base_part: "length (base_part p) \<le> length p"
  by (metis dir_base length_append le_add2)

lemma landing_hashes_eq:
  "landing_hashes s a b =
    (parent_hash a b (walked s), ancestor_hashes a b (walked s),
     siphash a b (base_part (walked s)))"
proof -
  obtain ctx anc where w: "path_walk s a b = (ctx, anc)" by fastforce
  with path_walk_inv [of s a b] have inv: "walk_inv s a b (walked s) (ctx, anc)" by simp
  have "length (base_part (walked s)) < 4294967296"
    using length_base_part [of "walked s"] length_walked [of s] by simp
  with inv show ?thesis
    by (auto simp: landing_hashes_def w walk_inv_def intro: sip_holds_finish)
qed

lemma target_hashes_eq:
  "target_hashes s a b =
    (siphash a b (walked s), ancestor_hashes a b (walked s), parent_hash a b (walked s))"
proof -
  obtain ctx anc where w: "path_walk s a b = (ctx, anc)" by fastforce
  with path_walk_inv [of s a b] have inv: "walk_inv s a b (walked s) (ctx, anc)" by simp
  have "length (walked s) < 4294967296" using length_walked [of s] by simp
  with inv show ?thesis
    by (auto simp: target_hashes_def w walk_inv_def intro: sip_holds_finish)
qed

section \<open>The ancestor array\<close>

lemma ancestor_array_nth:
  assumes "j < 32"
  shows "ancestor_array hs ! j =
    (if {k. k < length hs \<and> k mod 32 = j} = {} then 0
     else hs ! Max {k. k < length hs \<and> k mod 32 = j})"
proof (induction hs rule: rev_induct)
  case Nil
  then show ?case using assms by (simp add: ancestor_array_def)
next
  case (snoc h hs)
  let ?K = "\<lambda>n. {k. k < n \<and> k mod 32 = j}"
  have fin: "finite (?K n)" for n by (rule finite_subset [of _ "{..<n}"]) auto
  have suc: "?K (Suc n) = (if n mod 32 = j then insert n (?K n) else ?K n)" for n
    by (auto simp: less_Suc_eq)
  show ?case
  proof (cases "length hs mod 32 = j")
    case True
    have "Max (insert (length hs) (?K (length hs))) = length hs"
      using fin by (intro Max_eqI) auto
    with True assms show ?thesis
      by (simp add: ancestor_array_snoc suc)
  next
    case False
    have "Max (?K (length hs)) < length hs" if "?K (length hs) \<noteq> {}"
      using Max_in [OF fin that] by simp
    with False assms snoc show ?thesis
      by (auto simp: ancestor_array_snoc suc nth_append)
  qed
qed

text \<open>The array holds exactly the (up to 32) deepest ancestors, and zeros where unused.\<close>

lemma ancestor_array_small:
  assumes "length hs \<le> 32"
  shows "ancestor_array hs = hs @ replicate (32 - length hs) 0"
  using assms
proof (induction hs rule: rev_induct)
  case Nil
  then show ?case by (simp add: ancestor_array_def)
next
  case (snoc h hs)
  then have l: "length hs < 32" by simp
  then have "replicate (32 - length hs) (0::u64) = 0 # replicate (32 - Suc (length hs)) 0"
    by (metis Suc_diff_Suc replicate_Suc)
  with snoc l show ?case
    by (simp add: ancestor_array_snoc list_update_append)
qed

lemma ancestor_slots_finite: "finite {k. k < length hs \<and> k mod 32 = j}"
  by (rule finite_subset [of _ "{..<length hs}"]) auto

lemma ancestor_array_slot:
  assumes "k < length hs" "length hs \<le> k + 32"
  shows "ancestor_array hs ! (k mod 32) = hs ! k"
proof -
  let ?K = "{i. i < length hs \<and> i mod 32 = k mod 32}"
  have "i \<le> k" if "i \<in> ?K" for i
  proof (rule ccontr)
    assume "\<not> i \<le> k"
    moreover from that have "i mod 32 = k mod 32" by simp
    ultimately have "32 dvd i - k" by (simp add: mod_eq_dvd_iff_nat)
    with \<open>\<not> i \<le> k\<close> have "32 \<le> i - k" by (intro dvd_imp_le) auto
    moreover from that assms have "i < k + 32" by simp
    ultimately show False by linarith
  qed
  then have "Max ?K = k"
    using assms by (intro Max_eqI ancestor_slots_finite) auto
  moreover have "?K \<noteq> {}" using assms by blast
  ultimately show ?thesis by (auto simp: ancestor_array_nth)
qed

lemma nth_in_drop:
  assumes "m \<le> k + d" "k < m" "m \<le> length hs"
  shows "hs ! k \<in> set (drop (m - d) hs)"
proof -
  have "hs ! k = drop (m - d) hs ! (k - (m - d))" using assms by simp
  moreover have "k - (m - d) < length (drop (m - d) hs)" using assms by simp
  ultimately show ?thesis by (metis nth_mem)
qed

lemma in_ancestor_array:
  assumes "x \<noteq> 0"
  shows "x \<in> set (ancestor_array hs) \<longleftrightarrow> x \<in> set (drop (length hs - 32) hs)"
proof
  assume "x \<in> set (ancestor_array hs)"
  then obtain j where j: "j < 32" "x = ancestor_array hs ! j"
    by (metis in_set_conv_nth length_ancestor_array)
  let ?K = "{k. k < length hs \<and> k mod 32 = j}"
  from j assms have ne: "?K \<noteq> {}" and x: "x = hs ! Max ?K"
    by (auto simp: ancestor_array_nth split: if_splits)
  have M: "Max ?K \<in> ?K" by (rule Max_in [OF ancestor_slots_finite ne])
  have "length hs \<le> Max ?K + 32"
  proof (rule ccontr)
    assume "\<not> length hs \<le> Max ?K + 32"
    with M have "Max ?K + 32 \<in> ?K" by simp
    from Max_ge [OF ancestor_slots_finite this] show False by simp
  qed
  moreover from M have "Max ?K < length hs" by simp
  ultimately show "x \<in> set (drop (length hs - 32) hs)"
    by (simp add: x nth_in_drop)
next
  assume "x \<in> set (drop (length hs - 32) hs)"
  then obtain i where i: "i < length hs - (length hs - 32)" "x = hs ! (length hs - 32 + i)"
    by (auto simp: in_set_conv_nth)
  then have "ancestor_array hs ! ((length hs - 32 + i) mod 32) = x"
    by (intro trans [OF ancestor_array_slot]) auto
  then show "x \<in> set (ancestor_array hs)"
    by (metis length_ancestor_array mod_less_divisor nth_mem zero_less_numeral)
qed

section \<open>Agreement with userspace\<close>

text \<open>
  C7: The in-kernel walk agrees with userspace. Streaming the path byte by byte, both uses of the
  walk emit exactly the one-shot hash of the whole path, of the parent folder with its slash, of
  the base name, and of every folder prefix, for every key and every buffer.
\<close>

theorem path_walk_is_oneshot:
  "target_hashes s a b =
    (siphash a b (walked s), ancestor_hashes a b (walked s), parent_hash a b (walked s)) \<and>
   landing_hashes s a b =
    (parent_hash a b (walked s), ancestor_hashes a b (walked s),
     siphash a b (base_part (walked s)))"
  by (simp add: target_hashes_eq landing_hashes_eq)



end
