(* ===== verification/Kernel_State.thy ===== *)
theory Kernel_State
  imports Path_Walk
begin

text \<open>
  The state and the environment of the eBPF program (\<open>linprov-ebpf/src/main.rs\<close>): its BPF maps as
  one record, the results of the kernel helpers a hook invocation calls as another, and the small
  helpers of the file.

  Hash and LRU maps are finite maps keyed as in the source, inode storage is a map from inode
  identities, \<open>Array\<close> maps are lists. \<open>EVENTS\<close> is the list of submitted ring-buffer entries, oldest
  first. \<open>PATH_SCRATCH\<close> is kept because a failing \<open>bpf_d_path\<close> leaves its previous contents in
  place; the record and ancestor scratch slots are overwritten before every use and are local
  values here.

  What the kernel answers is in \<open>env\<close>: the helpers are not part of the repository. \<open>d_path\<close>
  and \<open>xattr_read\<close> are buffer transformers, so that a failing call can leave the buffer alone;
  \<open>ins_ok\<close> says which map insertions succeed (the program ignores their status).
\<close>

type_synonym inode = nat

datatype map_id = M_NET | M_PROP | M_APPROVED | M_MARKS | M_INTERP_INODE | M_COPY | M_INTERP

record kernel =
  NET_PIDS :: "u32 \<rightharpoonup> u8"
  PROP_PIDS :: "u32 \<rightharpoonup> origin_record"
  INTERPRETERS :: "u64 \<rightharpoonup> u8"
  APPROVED_INTERP :: "u32 \<rightharpoonup> u8"
  INODE_MARKS :: "inode \<rightharpoonup> origin_record"
  INTERP_INODE :: "inode \<rightharpoonup> u8"
  INTERP_COPY_PIDS :: "u32 \<rightharpoonup> u8"
  INTERP_PIDS :: "u32 \<rightharpoonup> u8"
  EVENTS :: "event list"
  PATH_SCRATCH :: bytes
  CONFIG :: "u32 list"
  KEY :: "u64 list"
  ALLOW_RULES :: "allow_rule list"
  ALLOW_RULE_COUNT :: "u32 list"

record env =
  pid_tgid :: u64
  uid_gid :: u64
  get_comm :: "bytes option"
  boot_ns :: u64
  d_path :: "bytes \<Rightarrow> bytes"
  dynptr_ok :: bool
  xattr_read :: "origin_record \<Rightarrow> origin_record option"
  reserve_ok :: bool
  ins_ok :: "map_id \<Rightarrow> bool"

text \<open>The fields of \<open>struct file\<close> the accessors in \<open>shim.c\<close> read; a null pointer is \<open>None\<close>.\<close>

record kernel_file =
  f_inode :: "inode option"
  f_mode :: u32

definition CONFIG_MODE :: nat where "CONFIG_MODE = 0"

definition CONFIG_MARK_LOCALHOST :: nat where "CONFIG_MARK_LOCALHOST = 1"

definition CONFIG_SELF_PID :: nat where "CONFIG_SELF_PID = 2"

definition FMODE_WRITE :: u32 where "FMODE_WRITE = 0x2"

definition FMODE_EXEC :: u32 where "FMODE_EXEC = 0x20"

definition AF_INET :: u32 where "AF_INET = 2"

definition AF_INET6 :: u32 where "AF_INET6 = 10"

lemmas config_consts = CONFIG_MODE_def CONFIG_MARK_LOCALHOST_def CONFIG_SELF_PID_def

text \<open>\<open>Array::get(i).copied().unwrap_or(0)\<close>.\<close>

definition array_get :: "'a::zero list \<Rightarrow> nat \<Rightarrow> 'a" where
  "array_get xs i = (if i < length xs then xs ! i else 0)"

definition hash_key :: "kernel \<Rightarrow> u64 \<times> u64" where
  "hash_key k = (array_get (KEY k) 0, array_get (KEY k) 1)"

definition current_pid :: "env \<Rightarrow> u32" where
  "current_pid e = ucast (drop_bit 32 (pid_tgid e))"

definition current_tid :: "env \<Rightarrow> u32" where
  "current_tid e = ucast (pid_tgid e)"

definition current_uid :: "env \<Rightarrow> u32" where
  "current_uid e = ucast (uid_gid e AND 0xFFFFFFFF)"

definition current_comm :: "env \<Rightarrow> bytes" where
  "current_comm e = (case get_comm e of Some c \<Rightarrow> c | None \<Rightarrow> zero_comm)"

definition read_origin_xattr :: "env \<Rightarrow> origin_record \<Rightarrow> origin_record option" where
  "read_origin_xattr e buf = (if \<not> dynptr_ok e then None else xattr_read e buf)"

text \<open>The loop of \<open>fnv_comm\<close>, which stops at the first NUL.\<close>

fun fnv_comm_loop :: "u64 \<Rightarrow> bytes \<Rightarrow> u64" where
  "fnv_comm_loop h [] = h"
| "fnv_comm_loop h (b # bs) =
    (if b = NUL then h else fnv_comm_loop ((h XOR of_char b) * FNV_PRIME) bs)"

definition fnv_comm :: "bytes \<Rightarrow> u64" where
  "fnv_comm c = fnv_comm_loop FNV_OFFSET c"

fun starts_with_from :: "nat \<Rightarrow> bytes \<Rightarrow> bytes \<Rightarrow> bool" where
  "starts_with_from i path [] = True"
| "starts_with_from i path (b # bs) =
    (if byte_at path i \<noteq> b then False else starts_with_from (Suc i) path bs)"

definition starts_with :: "bytes \<Rightarrow> bytes \<Rightarrow> bool" where
  "starts_with path prefix = starts_with_from 0 path prefix"

definition is_pseudo_fs :: "bytes \<Rightarrow> bool" where
  "is_pseudo_fs path \<longleftrightarrow>
    starts_with path ''/dev/'' \<or> starts_with path ''/proc/'' \<or>
    starts_with path ''/sys/'' \<or> starts_with path ''/run/''"

text \<open>Insertions whose status the program ignores; \<open>get_or_insert\<close> keeps a stored record.\<close>

definition map_insert :: "bool \<Rightarrow> 'k \<Rightarrow> 'v \<Rightarrow> ('k \<rightharpoonup> 'v) \<Rightarrow> ('k \<rightharpoonup> 'v)" where
  "map_insert ok key v m = (if ok then m(key \<mapsto> v) else m)"

definition map_get_or_insert :: "bool \<Rightarrow> 'k \<Rightarrow> 'v \<Rightarrow> ('k \<rightharpoonup> 'v) \<Rightarrow> ('k \<rightharpoonup> 'v)" where
  "map_get_or_insert ok key v m =
    (case m key of Some _ \<Rightarrow> m | None \<Rightarrow> if ok then m(key \<mapsto> v) else m)"

lemma map_insert_other [simp]: "key' \<noteq> key \<Longrightarrow> map_insert ok key v m key' = m key'"
  by (simp add: map_insert_def)

lemma map_get_or_insert_other [simp]:
  "key' \<noteq> key \<Longrightarrow> map_get_or_insert ok key v m key' = m key'"
  by (simp add: map_get_or_insert_def split: option.split)

lemma map_insert_cases:
  "map_insert ok key v m key' = Some w \<Longrightarrow> (key' = key \<and> w = v) \<or> m key' = Some w"
  by (auto simp: map_insert_def split: if_splits)

lemma map_get_or_insert_cases:
  "map_get_or_insert ok key v m key' = Some w \<Longrightarrow> (key' = key \<and> w = v) \<or> m key' = Some w"
  by (auto simp: map_get_or_insert_def split: if_splits option.splits)

lemma map_get_or_insert_keeps: "m key' = Some w \<Longrightarrow> map_get_or_insert ok key v m key' = Some w"
  by (auto simp: map_get_or_insert_def split: option.splits)

lemma fnv_comm_loop_c_str: "fnv_comm_loop h c = fnv_loop h (c_str c)"
  by (induction c arbitrary: h) (simp_all add: c_str_def)

lemma fnv_comm_eq: "fnv_comm c = fnv_hash (c_str c)"
  by (simp add: fnv_comm_def fnv_hash_def fnv_hash_bytes_def fnv_comm_loop_c_str)

lemma starts_with_from_iff:
  "\<forall>b \<in> set prefix. b \<noteq> NUL \<Longrightarrow>
    starts_with_from i path prefix \<longleftrightarrow> take (length prefix) (drop i path) = prefix"
proof (induction i path prefix rule: starts_with_from.induct)
  case (2 i path b bs)
  have b: "b \<noteq> NUL" using "2.prems" by simp
  have IH: "starts_with_from (Suc i) path bs \<longleftrightarrow> take (length bs) (drop (Suc i) path) = bs"
    if "byte_at path i = b"
    using that "2.IH" "2.prems" by simp
  show ?case
  proof (cases "i < length path")
    case True
    then have "drop i path = path ! i # drop (Suc i) path" by (rule Cons_nth_drop_Suc [symmetric])
    with IH True show ?thesis by (simp add: byte_at_def)
  next
    case False
    then have "byte_at path i = NUL" by (simp add: byte_at_def)
    with not_sym [OF b] have "byte_at path i \<noteq> b" by (simp only: not_False_eq_True)
    with False show ?thesis by simp
  qed
qed simp

lemma starts_with_iff:
  "\<forall>b \<in> set prefix. b \<noteq> NUL \<Longrightarrow> starts_with path prefix \<longleftrightarrow> take (length prefix) path = prefix"
  by (simp only: starts_with_def starts_with_from_iff drop0)

lemma is_pseudo_fs_iff:
  "is_pseudo_fs path \<longleftrightarrow>
    take 5 path = ''/dev/'' \<or> take 6 path = ''/proc/'' \<or> take 5 path = ''/sys/'' \<or>
    take 5 path = ''/run/''"
proof -
  have "length ''/dev/'' = 5" "length ''/proc/'' = 6" "length ''/sys/'' = 5" "length ''/run/'' = 5"
    by simp_all
  then show ?thesis
    using starts_with_iff [of "''/dev/''" path] starts_with_iff [of "''/proc/''" path]
      starts_with_iff [of "''/sys/''" path] starts_with_iff [of "''/run/''" path]
    unfolding is_pseudo_fs_def by (simp only: list.set ball_simps) simp
qed

end
