(* ===== verification/Rust_Str.thy ===== *)
theory Rust_Str
  imports Linprov_Prelude
begin

text \<open>
  The parts of Rust's standard library that the program's text handling uses, on the UTF-8
  bytes of the strings: searching and splitting, \<open>trim\<close>, integer parsing and formatting,
  \<open>String::from_utf8_lossy\<close> and \<open>BufRead::lines\<close>. The round-trip lemmas here are what the
  allowlist, audit-db and control-socket formats rest on.
\<close>

section \<open>Searching, splitting, joining\<close>

definition str_strip_prefix :: "string \<Rightarrow> string \<Rightarrow> string option" where
  "str_strip_prefix p s = (if take (length p) s = p then Some (drop (length p) s) else None)"

definition str_starts_with :: "string \<Rightarrow> string \<Rightarrow> bool" where
  "str_starts_with p s \<longleftrightarrow> take (length p) s = p"

definition str_ends_with_char :: "char \<Rightarrow> string \<Rightarrow> bool" where
  "str_ends_with_char c s \<longleftrightarrow> s \<noteq> [] \<and> last s = c"

definition str_strip_suffix_char :: "char \<Rightarrow> string \<Rightarrow> string option" where
  "str_strip_suffix_char c s = (if str_ends_with_char c s then Some (butlast s) else None)"

fun str_split :: "char \<Rightarrow> string \<Rightarrow> string list" where
  "str_split c [] = [[]]"
| "str_split c (x # xs) =
    (if x = c then [] # str_split c xs
     else case str_split c xs of [] \<Rightarrow> [[x]] | h # t \<Rightarrow> (x # h) # t)"

fun str_join :: "string \<Rightarrow> string list \<Rightarrow> string" where
  "str_join sep [] = []"
| "str_join sep [x] = x"
| "str_join sep (x # y # ys) = x @ sep @ str_join sep (y # ys)"

fun str_split_once :: "char \<Rightarrow> string \<Rightarrow> (string \<times> string) option" where
  "str_split_once c [] = None"
| "str_split_once c (x # xs) =
    (if x = c then Some ([], xs)
     else map_option (\<lambda>(a, b). (x # a, b)) (str_split_once c xs))"

definition str_rsplit_once :: "char \<Rightarrow> string \<Rightarrow> (string \<times> string) option" where
  "str_rsplit_once c s =
    map_option (\<lambda>(a, b). (rev b, rev a)) (str_split_once c (rev s))"

lemma str_split_not_Nil [simp]: "str_split c s \<noteq> []"
  by (cases s) (auto split: list.splits)

lemma str_split_none: "c \<notin> set s \<Longrightarrow> str_split c s = [s]"
  by (induction s) auto

lemma str_split_append: "c \<notin> set x \<Longrightarrow> str_split c (x @ c # ys) = x # str_split c ys"
  by (induction x) auto

lemma str_split_join:
  "ps \<noteq> [] \<Longrightarrow> \<forall>p \<in> set ps. c \<notin> set p \<Longrightarrow> str_split c (str_join [c] ps) = ps"
  by (induction "[c]" ps rule: str_join.induct) (auto simp: str_split_none str_split_append)

lemma str_split_once_append: "c \<notin> set x \<Longrightarrow> str_split_once c (x @ c # y) = Some (x, y)"
  by (induction x) auto

lemma str_split_once_none: "str_split_once c s = None \<longleftrightarrow> c \<notin> set s"
  by (induction s) auto

lemma str_split_once_SomeD:
  "str_split_once c s = Some (a, b) \<Longrightarrow> s = a @ c # b \<and> c \<notin> set a"
  by (induction s arbitrary: a b) (auto split: if_splits)

lemma set_str_join: "set (str_join sep ps) \<subseteq> set sep \<union> \<Union> (set ` set ps)"
  by (induction sep ps rule: str_join.induct) auto

lemma str_strip_prefix_append [simp]: "str_strip_prefix p (p @ s) = Some s"
  by (simp add: str_strip_prefix_def)

lemma str_strip_prefix_None: "str_strip_prefix p s = None \<longleftrightarrow> \<not> str_starts_with p s"
  by (simp add: str_strip_prefix_def str_starts_with_def)

section \<open>White space and \<open>trim\<close>\<close>

text \<open>UTF-8 encodings of the code points with the Unicode \<open>White_Space\<close> property.\<close>

definition white_space :: "string list" where
  "white_space =
    [[CHR 0x09], [CHR 0x0A], [CHR 0x0B], [CHR 0x0C], [CHR 0x0D], [CHR 0x20],
     [CHR 0xC2, CHR 0x85], [CHR 0xC2, CHR 0xA0], [CHR 0xE1, CHR 0x9A, CHR 0x80],
     [CHR 0xE2, CHR 0x80, CHR 0x80], [CHR 0xE2, CHR 0x80, CHR 0x81],
     [CHR 0xE2, CHR 0x80, CHR 0x82], [CHR 0xE2, CHR 0x80, CHR 0x83],
     [CHR 0xE2, CHR 0x80, CHR 0x84], [CHR 0xE2, CHR 0x80, CHR 0x85],
     [CHR 0xE2, CHR 0x80, CHR 0x86], [CHR 0xE2, CHR 0x80, CHR 0x87],
     [CHR 0xE2, CHR 0x80, CHR 0x88], [CHR 0xE2, CHR 0x80, CHR 0x89],
     [CHR 0xE2, CHR 0x80, CHR 0x8A], [CHR 0xE2, CHR 0x80, CHR 0xA8],
     [CHR 0xE2, CHR 0x80, CHR 0xA9], [CHR 0xE2, CHR 0x80, CHR 0xAF],
     [CHR 0xE2, CHR 0x81, CHR 0x9F], [CHR 0xE3, CHR 0x80, CHR 0x80]]"

definition ws_head :: "string list \<Rightarrow> string \<Rightarrow> string option" where
  "ws_head ws s = find (\<lambda>w. w \<noteq> [] \<and> take (length w) s = w) ws"

lemma ws_head_SomeD: "ws_head ws s = Some w \<Longrightarrow> w \<in> set ws \<and> w \<noteq> [] \<and> take (length w) s = w"
  by (auto simp: ws_head_def find_Some_iff)

lemma ws_head_None: "ws_head ws s = None \<longleftrightarrow> (\<forall>w \<in> set ws. w \<noteq> [] \<longrightarrow> take (length w) s \<noteq> w)"
  by (auto simp: ws_head_def find_None_iff)

lemma ws_head_shorter: "ws_head ws s = Some w \<Longrightarrow> length (drop (length w) s) < length s"
  by (cases s) (auto dest!: ws_head_SomeD)

function trim_left :: "string list \<Rightarrow> string \<Rightarrow> string" where
  "trim_left ws s =
    (case ws_head ws s of None \<Rightarrow> s | Some w \<Rightarrow> trim_left ws (drop (length w) s))"
  by pat_completeness auto
termination
  by (relation "measure (\<lambda>(ws, s). length s)") (simp_all only: wf_measure in_measure prod.case ws_head_shorter)

declare trim_left.simps [simp del]

definition str_trim_start :: "string \<Rightarrow> string" where
  "str_trim_start s = trim_left white_space s"

definition str_trim_end :: "string \<Rightarrow> string" where
  "str_trim_end s = rev (trim_left (map rev white_space) (rev s))"

definition str_trim :: "string \<Rightarrow> string" where
  "str_trim s = str_trim_end (str_trim_start s)"

text \<open>A string that \<open>trim\<close> leaves alone.\<close>

definition trimmed :: "string \<Rightarrow> bool" where
  "trimmed s \<longleftrightarrow> ws_head white_space s = None \<and> ws_head (map rev white_space) (rev s) = None"

lemma trim_left_None: "ws_head ws s = None \<Longrightarrow> trim_left ws s = s"
  by (simp add: trim_left.simps)

lemma trim_left_suffix: "\<exists>p. s = p @ trim_left ws s"
proof (induction ws s rule: trim_left.induct)
  case (1 ws s)
  show ?case
  proof (cases "ws_head ws s")
    case (Some w)
    with 1 obtain p where "drop (length w) s = p @ trim_left ws (drop (length w) s)" by blast
    then have "s = (take (length w) s @ p) @ trim_left ws s"
      by (subst trim_left.simps) (metis Some append.assoc append_take_drop_id option.simps(5))
    then show ?thesis by blast
  qed (simp add: trim_left_None)
qed

lemma trim_left_length: "length (trim_left ws s) \<le> length s"
  using trim_left_suffix [of s ws] by (metis le_add2 length_append)

lemma trim_left_shrinks: "ws_head ws s = Some w \<Longrightarrow> length (trim_left ws s) < length s"
proof -
  assume w: "ws_head ws s = Some w"
  then have "length (drop (length w) s) < length s" by (rule ws_head_shorter)
  moreover have "length (trim_left ws s) \<le> length (drop (length w) s)"
    using trim_left_length [of ws "drop (length w) s"] by (subst trim_left.simps) (simp add: w)
  ultimately show ?thesis by simp
qed

lemma trim_left_stops: "ws_head ws (trim_left ws s) = None"
proof (induction ws s rule: trim_left.induct)
  case (1 ws s)
  then show ?case by (subst trim_left.simps) (auto split: option.splits)
qed

lemma ws_head_prefix: "ws_head ws (p @ r) = None \<Longrightarrow> ws_head ws p = None"
proof -
  have "take (length w) (p @ r) = w" if "take (length w) p = w" for w
    using that by (metis append_eq_append_conv_if length_take min.cobounded1 nat_le_linear
      take_all_iff take_append append_take_drop_id append_eq_conv_conj append.assoc)
  then show "ws_head ws (p @ r) = None \<Longrightarrow> ws_head ws p = None"
    by (auto simp: ws_head_None)
qed

lemma str_trim_trimmed: "trimmed s \<Longrightarrow> str_trim s = s"
  by (simp add: trimmed_def str_trim_def str_trim_start_def str_trim_end_def trim_left_None)

lemma trimmed_str_trim: "trimmed (str_trim s)"
proof -
  let ?t = "trim_left white_space s"
  obtain p where "rev ?t = p @ trim_left (map rev white_space) (rev ?t)"
    using trim_left_suffix by blast
  then have "?t = str_trim s @ rev p"
    by (metis rev_append rev_rev_ident str_trim_def str_trim_end_def str_trim_start_def)
  moreover have "ws_head white_space ?t = None" by (rule trim_left_stops)
  ultimately have "ws_head white_space (str_trim s) = None" by (metis ws_head_prefix)
  then show ?thesis
    by (simp add: trimmed_def str_trim_def str_trim_start_def str_trim_end_def trim_left_stops)
qed

lemma str_trim_id_iff: "str_trim s = s \<longleftrightarrow> trimmed s"
  using str_trim_trimmed trimmed_str_trim by metis

lemma set_trim_left: "set (trim_left ws s) \<subseteq> set s"
  using trim_left_suffix [of s ws] by (metis Un_iff set_append subsetI)

lemma set_str_trim: "set (str_trim s) \<subseteq> set s"
  unfolding str_trim_def str_trim_end_def str_trim_start_def
  using set_trim_left [of "map rev white_space"] set_trim_left [of white_space s]
  by (metis set_rev subset_trans)

lemma trimmed_Nil [simp]: "trimmed []"
  by (simp add: trimmed_def ws_head_None)

text \<open>A byte that no white space contains separates the two ends.\<close>

definition solid :: "char \<Rightarrow> bool" where
  "solid c \<longleftrightarrow> (\<forall>w \<in> set white_space. c \<notin> set w)"

lemma solid_ascii: "0x20 < (of_char c :: nat) \<Longrightarrow> (of_char c :: nat) < 0x80 \<Longrightarrow> solid c"
  by (auto simp: solid_def white_space_def)

lemma ws_head_solid:
  assumes "\<forall>w \<in> set ws. c \<notin> set w"
  shows "ws_head ws (a @ c # b) = None \<longleftrightarrow> ws_head ws a = None"
proof -
  have "take (length w) (a @ c # b) = w \<longleftrightarrow> take (length w) a = w" if "c \<notin> set w" for w
  proof (cases "length w \<le> length a")
    case False
    then have "c \<in> set (take (length w) (a @ c # b))"
      by (cases "length w - length a") auto
    with that False show ?thesis
      by (metis length_take min.cobounded1)
  qed simp
  with assms show ?thesis by (auto simp: ws_head_None)
qed

lemma trimmed_solid:
  assumes "solid c"
  shows "trimmed (a @ c # b) \<longleftrightarrow>
    ws_head white_space a = None \<and> ws_head (map rev white_space) (rev b) = None"
proof -
  have "\<forall>w \<in> set (map rev white_space). c \<notin> set w" using assms by (auto simp: solid_def)
  from ws_head_solid [OF this, of "rev b" "rev a"] ws_head_solid [of white_space c a b] assms
  show ?thesis by (simp add: trimmed_def solid_def)
qed

lemma trimmed_solid_snoc: "solid c \<Longrightarrow> trimmed a \<Longrightarrow> trimmed (a @ [c])"
  using trimmed_solid [of c a "[]"] by (simp add: trimmed_def ws_head_None)

lemma trimmed_join:
  assumes "solid c" "\<forall>p \<in> set ps. trimmed p"
  shows "trimmed (str_join [c] ps)"
  using assms(2)
proof (induction "[c]" ps rule: str_join.induct)
  case (3 x y ys)
  then have "trimmed x" "trimmed (str_join [c] (y # ys))" by simp_all
  with trimmed_solid [OF assms(1), of x] show ?case by (simp add: trimmed_def)
qed simp_all

section \<open>\<open>split_whitespace\<close>\<close>

text \<open>Maximal runs between white space; the empty runs are dropped.\<close>

function split_ws_acc :: "string \<Rightarrow> string \<Rightarrow> string list" where
  "split_ws_acc acc s =
    (case ws_head white_space s of
       Some w \<Rightarrow> (if acc = [] then [] else [acc]) @ split_ws_acc [] (drop (length w) s)
     | None \<Rightarrow>
        (case s of [] \<Rightarrow> if acc = [] then [] else [acc]
         | c # cs \<Rightarrow> split_ws_acc (acc @ [c]) cs))"
  by pat_completeness auto
termination
proof (relation "measure (\<lambda>(acc, s). length s)", goal_cases)
  case (3 acc s w)
  then show ?case by (simp only: in_measure prod.case ws_head_shorter)
qed simp_all

declare split_ws_acc.simps [simp del]

definition str_split_whitespace :: "string \<Rightarrow> string list" where
  "str_split_whitespace s = split_ws_acc [] s"

section \<open>Integers\<close>

text \<open>\<open>char::to_digit\<close> and its inverse on lower-case digits.\<close>

definition digit_value :: "nat \<Rightarrow> char \<Rightarrow> nat option" where
  "digit_value r c =
    (let n = of_char c :: nat;
         d = (if 48 \<le> n \<and> n \<le> 57 then Some (n - 48)
              else if 97 \<le> n \<and> n \<le> 122 then Some (n - 87)
              else if 65 \<le> n \<and> n \<le> 90 then Some (n - 55) else None)
     in case d of Some v \<Rightarrow> if v < r then Some v else None | None \<Rightarrow> None)"

definition digit_char :: "nat \<Rightarrow> char" where
  "digit_char d = (if d < 10 then char_of (48 + d) else char_of (87 + d))"

fun digits_value :: "nat \<Rightarrow> nat \<Rightarrow> string \<Rightarrow> nat option" where
  "digits_value r acc [] = Some acc"
| "digits_value r acc (c # cs) =
    (case digit_value r c of None \<Rightarrow> None | Some d \<Rightarrow> digits_value r (acc * r + d) cs)"

text \<open>
  \<open>uN::from_str_radix\<close> (\<open>parse\<close> for \<open>r = 10\<close>): an optional \<open>+\<close>, at least one digit, and no
  overflow of the type, whose values are below \<open>bound\<close>.
\<close>

definition parse_uint :: "nat \<Rightarrow> nat \<Rightarrow> string \<Rightarrow> nat option" where
  "parse_uint r bound s =
    (let ds = (case s of c # cs \<Rightarrow> if c = CHR ''+'' then cs else s | [] \<Rightarrow> [])
     in if ds = [] then None
        else case digits_value r 0 ds of
          None \<Rightarrow> None | Some v \<Rightarrow> if v < bound then Some v else None)"

definition parse_u32 :: "string \<Rightarrow> u32 option" where
  "parse_u32 s = map_option of_nat (parse_uint 10 (2 ^ 32) s)"

fun show_radix :: "nat \<Rightarrow> nat \<Rightarrow> string" where
  "show_radix r n =
    (if n < r \<or> r < 2 then [digit_char n] else show_radix r (n div r) @ [digit_char (n mod r)])"

declare show_radix.simps [simp del]

definition show_u32 :: "u32 \<Rightarrow> string" where
  "show_u32 w = show_radix 10 (unat w)"

text \<open>\<open>{:0kx}\<close>.\<close>

definition show_hex_padded :: "nat \<Rightarrow> nat \<Rightarrow> string" where
  "show_hex_padded k n =
    (let s = show_radix 16 n in replicate (k - length s) (CHR ''0'') @ s)"

lemma digit_value_digit_char:
  assumes "d < r" "r \<le> 36"
  shows "digit_value r (digit_char d) = Some d"
  using assms by (simp add: digit_value_def digit_char_def Let_def)

lemma digits_value_append:
  "digits_value r acc (xs @ ys) =
    (case digits_value r acc xs of None \<Rightarrow> None | Some v \<Rightarrow> digits_value r v ys)"
  by (induction xs arbitrary: acc) (auto split: option.splits)

lemma digits_value_show:
  assumes "2 \<le> r" "r \<le> 36"
  shows "digits_value r 0 (show_radix r n) = Some n"
  using assms
proof (induction r n rule: show_radix.induct)
  case (1 r n)
  show ?case
  proof (cases "n < r")
    case True
    with 1 show ?thesis by (subst show_radix.simps) (simp add: digit_value_digit_char)
  next
    case False
    with 1 show ?thesis
      by (subst show_radix.simps) (simp add: digits_value_append digit_value_digit_char)
  qed
qed

lemma digit_char_range:
  assumes "d < 36"
  shows "48 \<le> (of_char (digit_char d) :: nat) \<and> (of_char (digit_char d) :: nat) \<le> 122 \<and>
    digit_char d \<noteq> CHR ''+'' \<and> digit_char d \<noteq> CHR '';'' \<and> digit_char d \<noteq> CHR ''=''"
proof -
  have "of_char (digit_char d) = (if d < 10 then 48 + d else 87 + d)"
    using assms by (simp add: digit_char_def)
  then show ?thesis using assms
    by (auto split: if_splits)
qed

lemma digit_set_range:
  "c \<in> digit_char ` {..<r} \<Longrightarrow> r \<le> 36 \<Longrightarrow>
    48 \<le> (of_char c :: nat) \<and> (of_char c :: nat) \<le> 122 \<and> c \<noteq> CHR '';'' \<and> c \<noteq> CHR ''=''"
  by (elim imageE, simp only:) (rule conjI; use digit_char_range in \<open>force\<close>)

lemma show_radix_not_Nil [simp]: "show_radix r n \<noteq> []"
  by (subst show_radix.simps) simp

lemma set_show_radix:
  "2 \<le> r \<Longrightarrow> r \<le> 36 \<Longrightarrow> set (show_radix r n) \<subseteq> digit_char ` {..<r}"
proof (induction r n rule: show_radix.induct)
  case (1 r n)
  then show ?case by (subst show_radix.simps) (auto simp: not_less)
qed

lemma digits_value_zeros:
  assumes "2 \<le> r" shows "digits_value r 0 (replicate k (CHR ''0'') @ s) = digits_value r 0 s"
proof -
  have "digit_value r (CHR ''0'') = Some 0" using assms by (simp add: digit_value_def)
  then show ?thesis by (induction k) auto
qed

lemma plus_not_digit: "2 \<le> r \<Longrightarrow> r \<le> 36 \<Longrightarrow> CHR ''+'' \<notin> set (show_radix r n)"
  using set_show_radix [of r n] digit_set_range [of "CHR ''+''" r] by auto

lemma parse_uint_digits:
  assumes "ds \<noteq> []" "CHR ''+'' \<notin> set ds" "digits_value r 0 ds = Some v" "v < bound"
  shows "parse_uint r bound ds = Some v"
  using assms by (cases ds) (auto simp: parse_uint_def)

lemma parse_show_u32: "parse_u32 (show_u32 w) = Some w"
proof -
  have "parse_uint 10 (2 ^ 32) (show_radix 10 (unat w)) = Some (unat w)"
    by (rule parse_uint_digits) (simp_all add: plus_not_digit digits_value_show)
  then show ?thesis by (simp add: parse_u32_def show_u32_def)
qed

lemma digit_char_zero: "digit_char 0 = CHR ''0''"
  by (rule injD [OF inj_of_char [where ?'a = nat]]) (simp add: digit_char_def)

lemma set_show_hex: "set (show_hex_padded k n) \<subseteq> digit_char ` {..<16}"
  using set_show_radix [of 16 n]
  by (auto simp: show_hex_padded_def Let_def simp flip: digit_char_zero)

lemma parse_show_hex:
  assumes "n < bound"
  shows "parse_uint 16 bound (show_hex_padded k n) = Some n"
proof (rule parse_uint_digits)
  show "show_hex_padded k n \<noteq> []" by (simp add: show_hex_padded_def Let_def)
  show "CHR ''+'' \<notin> set (show_hex_padded k n)"
    using set_show_hex [of k n] digit_set_range [of "CHR ''+''" 16] by auto
  show "digits_value 16 0 (show_hex_padded k n) = Some n"
    by (simp add: show_hex_padded_def Let_def digits_value_zeros digits_value_show)
qed (rule assms)

section \<open>UTF-8\<close>

text \<open>
  One step of Rust's \<open>Utf8Chunks\<close>: how many bytes are consumed at the head of a non-empty
  input and whether they are a well-formed code point.
\<close>

abbreviation byte_in :: "char \<Rightarrow> nat \<Rightarrow> nat \<Rightarrow> bool" where
  "byte_in c lo hi \<equiv> lo \<le> (of_char c :: nat) \<and> (of_char c :: nat) \<le> hi"

abbreviation cont_byte :: "char \<Rightarrow> bool" where
  "cont_byte c \<equiv> byte_in c 0x80 0xBF"

definition second_ok :: "char \<Rightarrow> char \<Rightarrow> bool" where
  "second_ok b c \<longleftrightarrow>
    (let n = of_char b :: nat in
     if n = 0xE0 then byte_in c 0xA0 0xBF
     else if n = 0xED then byte_in c 0x80 0x9F
     else if n = 0xF0 then byte_in c 0x90 0xBF
     else if n = 0xF4 then byte_in c 0x80 0x8F
     else cont_byte c)"

definition utf8_width :: "char \<Rightarrow> nat" where
  "utf8_width b =
    (if byte_in b 0x00 0x7F then 1
     else if byte_in b 0xC2 0xDF then 2
     else if byte_in b 0xE0 0xEF then 3
     else if byte_in b 0xF0 0xF4 then 4 else 0)"

definition utf8_head :: "string \<Rightarrow> nat \<times> bool" where
  "utf8_head s =
    (let b = byte_at s 0; w = utf8_width b in
     if w = 1 then (1, True)
     else if w = 0 then (1, False)
     else if \<not> second_ok b (byte_at s 1) then (1, False)
     else if w = 2 then (2, True)
     else if \<not> cont_byte (byte_at s 2) then (2, False)
     else if w = 3 then (3, True)
     else if \<not> cont_byte (byte_at s 3) then (3, False)
     else (4, True))"

lemma utf8_head_pos: "0 < fst (utf8_head s)"
  by (simp add: utf8_head_def Let_def)

function from_utf8_lossy :: "bytes \<Rightarrow> string" where
  "from_utf8_lossy s =
    (if s = [] then []
     else case utf8_head s of (n, ok) \<Rightarrow>
       (if ok then take n s else [CHR 0xEF, CHR 0xBF, CHR 0xBD]) @ from_utf8_lossy (drop n s))"
  by pat_completeness auto
termination
proof (relation "measure length", goal_cases)
  case (2 s n ok)
  then have "0 < fst (utf8_head s)" by (simp add: utf8_head_pos)
  with 2 show ?case by (metis diff_less fst_conv in_measure length_drop length_greater_0_conv)
qed simp

function utf8_valid :: "bytes \<Rightarrow> bool" where
  "utf8_valid s =
    (if s = [] then True
     else snd (utf8_head s) \<and> utf8_valid (drop (fst (utf8_head s)) s))"
  by pat_completeness auto
termination
proof (relation "measure length", goal_cases)
  case (2 s)
  then show ?case using utf8_head_pos [of s] by (cases s) auto
qed simp

declare from_utf8_lossy.simps [simp del] utf8_valid.simps [simp del]

lemma from_utf8_lossy_valid: "utf8_valid s \<Longrightarrow> from_utf8_lossy s = s"
proof (induction s rule: from_utf8_lossy.induct)
  case (1 s)
  show ?case
  proof (cases "s = []")
    case False
    obtain n ok where h: "utf8_head s = (n, ok)" by fastforce
    have ok: "ok" "utf8_valid (drop n s)"
      using "1.prems" False by (subst (asm) utf8_valid.simps, simp add: h)+
    with "1.IH" [OF False h [symmetric]] have "from_utf8_lossy (drop n s) = drop n s" by simp
    with False ok show ?thesis
      by (subst from_utf8_lossy.simps) (simp add: h)
  qed (simp add: from_utf8_lossy.simps)
qed

lemma utf8_valid_Nil [simp]: "utf8_valid []"
  by (simp add: utf8_valid.simps)

lemma utf8_valid_ascii_Cons:
  "(of_char b :: nat) < 0x80 \<Longrightarrow> utf8_valid (b # s) = utf8_valid s"
  by (subst utf8_valid.simps) (simp add: utf8_head_def Let_def utf8_width_def byte_at_def)

lemma utf8_valid_ascii: "\<forall>b \<in> set s. (of_char b :: nat) < 0x80 \<Longrightarrow> utf8_valid s"
  by (induction s) (simp_all add: utf8_valid_ascii_Cons)

lemma nul_no_continuation: "\<not> second_ok b NUL" "\<not> cont_byte NUL"
  by (simp_all add: second_ok_def Let_def)

lemma utf8_head_ok:
  assumes "s \<noteq> []" "snd (utf8_head s)"
  shows "fst (utf8_head s) \<le> length s \<and> utf8_head (s @ t) = utf8_head s"
proof -
  obtain b u where s: "s = b # u" using assms(1) by (cases s) auto
  consider "u = []" | c where "u = [c]" | c d where "u = [c, d]" | c d e v where "u = c # d # e # v"
    by (metis list.exhaust)
  then show ?thesis
    using assms(2) nul_no_continuation(1) [of b] unfolding s
    by cases (simp_all add: utf8_head_def Let_def split: if_split_asm)
qed

lemma utf8_valid_append: "utf8_valid a \<Longrightarrow> utf8_valid b \<Longrightarrow> utf8_valid (a @ b)"
proof (induction a rule: utf8_valid.induct)
  case (1 s)
  show ?case
  proof (cases "s = []")
    case False
    then have "snd (utf8_head s)" "utf8_valid (drop (fst (utf8_head s)) s)"
      using "1.prems"(1) by (subst (asm) utf8_valid.simps, simp)+
    with 1 False utf8_head_ok [of s b] show ?thesis
      by (subst utf8_valid.simps) simp
  qed (use 1 in simp)
qed

lemma utf8_valid_join:
  "utf8_valid sep \<Longrightarrow> \<forall>p \<in> set ps. utf8_valid p \<Longrightarrow> utf8_valid (str_join sep ps)"
  by (induction sep ps rule: str_join.induct) (simp_all add: utf8_valid_append)

text \<open>A valid string can be cut at an ASCII byte, and the lossy conversion gives a valid string.\<close>

lemma ascii_no_continuation:
  "(of_char c :: nat) < 0x80 \<Longrightarrow> \<not> second_ok b c" "(of_char c :: nat) < 0x80 \<Longrightarrow> \<not> cont_byte c"
  by (simp_all add: second_ok_def Let_def)

lemma utf8_head_ascii:
  assumes "snd (utf8_head (s @ c # t))" "s \<noteq> []" "(of_char c :: nat) < 0x80"
  shows "utf8_head (s @ c # t) = utf8_head s \<and> fst (utf8_head s) \<le> length s \<and> snd (utf8_head s)"
proof -
  obtain b u where s: "s = b # u" using assms(2) by (cases s) auto
  consider "u = []" | d where "u = [d]" | d e where "u = [d, e]" | d e f v where "u = d # e # f # v"
    by (metis list.exhaust)
  then show ?thesis
    using assms(1) nul_no_continuation(1) [of b] ascii_no_continuation [OF assms(3)] unfolding s
    by cases (simp_all add: utf8_head_def Let_def split: if_split_asm)
qed

lemma utf8_valid_split:
  assumes "utf8_valid (a @ c # b)" "(of_char c :: nat) < 0x80"
  shows "utf8_valid a \<and> utf8_valid b"
  using assms(1)
proof (induction a rule: utf8_valid.induct)
  case (1 s)
  show ?case
  proof (cases "s = []")
    case True
    with 1 assms(2) show ?thesis by (simp add: utf8_valid_ascii_Cons)
  next
    case False
    let ?n = "fst (utf8_head s)"
    have v: "snd (utf8_head (s @ c # b))" "utf8_valid (drop (fst (utf8_head (s @ c # b))) (s @ c # b))"
      using "1.prems" False by (subst (asm) utf8_valid.simps, simp)+
    have h: "utf8_head (s @ c # b) = utf8_head s \<and> ?n \<le> length s \<and> snd (utf8_head s)"
      using v(1) False assms(2) by (rule utf8_head_ascii)
    with "1.IH" v False show ?thesis by (subst utf8_valid.simps) simp
  qed
qed

lemma utf8_valid_char:
  assumes "s \<noteq> []" "snd (utf8_head s)"
  shows "utf8_valid (take (fst (utf8_head s)) s)"
proof -
  have n: "fst (utf8_head s) \<le> length s" using utf8_head_ok [OF assms] by simp
  obtain x r where s: "s = x # r" using assms(1) by (cases s) simp_all
  have "utf8_head (take (fst (utf8_head s)) s) = utf8_head s"
    using assms n utf8_head_pos [of s]
    by (auto simp: utf8_head_def Let_def byte_at_def s split: if_splits)
  then show ?thesis using assms n utf8_head_pos [of s] by (subst utf8_valid.simps) auto
qed

lemma lossy_valid: "utf8_valid (from_utf8_lossy s)"
proof (induction s rule: from_utf8_lossy.induct)
  case (1 s)
  show ?case
  proof (cases "s = []")
    case False
    obtain n ok where h: "utf8_head s = (n, ok)" by fastforce
    have r: "utf8_valid [CHR 0xEF, CHR 0xBF, CHR 0xBD]"
      by (subst utf8_valid.simps) (simp add: utf8_head_def utf8_width_def second_ok_def byte_at_def)
    have v: "utf8_valid (from_utf8_lossy (drop n s))" using 1 [OF False h [symmetric]] by simp
    show ?thesis
      using False utf8_valid_char [OF False] utf8_valid_append [OF r v] v
      by (subst from_utf8_lossy.simps) (auto simp: h intro!: utf8_valid_append)
  qed (simp add: from_utf8_lossy.simps)
qed

section \<open>Reading a file by lines\<close>

text \<open>
  \<open>BufRead::lines\<close>: split at newlines, a trailing \<open>\r\<close> dropped, no line after a final newline;
  a line that is not UTF-8 is an error (\<open>None\<close>).
\<close>

definition line_of :: "bytes \<Rightarrow> string option" where
  "line_of s =
    (let t = (case str_strip_suffix_char (CHR 0x0D) s of Some u \<Rightarrow> u | None \<Rightarrow> s)
     in if utf8_valid t then Some t else None)"

definition read_lines :: "bytes \<Rightarrow> string option list" where
  "read_lines content =
    (let ps = str_split (CHR 0x0A) content in
     if last ps = [] then map (\<lambda>s. line_of s) (butlast ps)
     else map (\<lambda>s. line_of s) (butlast ps) @ [if utf8_valid (last ps) then Some (last ps) else None])"

lemma str_split_snoc_sep:
  "str_split c (s @ [c]) = str_split c s @ [[]]"
  by (induction s) (auto split: list.splits)

lemma str_split_append_line:
  assumes "c \<notin> set l"
  shows "str_split c (s @ c # l @ [c]) = str_split c s @ [l, []]"
proof (induction s)
  case Nil
  show ?case using str_split_append [of c l "[]"] assms by simp
next
  case (Cons x s)
  then show ?case by (auto split: list.splits)
qed

text \<open>Appending one line to a file that is empty or ends in a newline adds one line.\<close>

lemma read_lines_append:
  assumes "content = [] \<or> last content = CHR 0x0A" "CHR 0x0A \<notin> set l"
  shows "read_lines (content @ l @ [CHR 0x0A]) = read_lines content @ [line_of l]"
proof (cases content rule: rev_cases)
  case Nil
  then show ?thesis
    using str_split_append [of "CHR 0x0A" l "[]"] assms(2) by (simp add: read_lines_def Let_def)
next
  case (snoc s x)
  with assms have "content = s @ [CHR 0x0A]" by simp
  with str_split_append_line [OF assms(2), of s] show ?thesis
    by (simp add: read_lines_def Let_def str_split_snoc_sep butlast_append)
qed

end
