(* ===== verification/Encoding.thy ===== *)
theory Encoding
  imports Rust_Str
begin

text \<open>
  \<open>linprov/src/encoding.rs\<close>: the display escaping of untrusted names and the two storage forms
  of an allowlist value (plain, or \<open>b64:\<close> and base64).

  The \<open>base64\<close> crate is not part of the repository: its \<open>STANDARD\<close> engine is an argument of the
  definitions (\<open>b64_engine\<close>) and the locale \<open>base64_standard\<close> states what the program relies on:
  decoding undoes encoding, and the output stays in the base64 alphabet. The locale is
  interpreted on an implementation of RFC 4648.
\<close>

section \<open>The base64 engine\<close>

record b64_engine =
  std_encode :: "bytes \<Rightarrow> string"
  std_decode :: "string \<Rightarrow> bytes option"

definition b64_alphabet :: string where
  "b64_alphabet = ''ABCDEFGHIJKLMNOPQRSTUVWXYZabcdefghijklmnopqrstuvwxyz0123456789+/''"

definition b64_symbol :: "char \<Rightarrow> bool" where
  "b64_symbol c \<longleftrightarrow> c \<in> set b64_alphabet \<or> c = CHR ''=''"

section \<open>Display\<close>

text \<open>The bytes that break a line- or tab-separated format.\<close>

definition control_byte :: "char \<Rightarrow> bool" where
  "control_byte c \<longleftrightarrow> (of_char c :: nat) < 0x20 \<or> (of_char c :: nat) = 0x7F"

text \<open>
  The loop runs over \<open>chars()\<close>; every character it rewrites is one ASCII byte and all others are
  copied, so it acts byte by byte.
\<close>

definition hex :: "nat \<Rightarrow> char" where
  "hex n = (if n < 16 then digit_char n else CHR ''0'')"

definition escape_char :: "char \<Rightarrow> string" where
  "escape_char c =
    (let n = of_char c :: nat in
     if c = CHR 0x5C then [CHR 0x5C, CHR 0x5C]
     else if c = CHR 0x0A then [CHR 0x5C, CHR ''n'']
     else if c = CHR 0x0D then [CHR 0x5C, CHR ''r'']
     else if c = CHR 0x09 then [CHR 0x5C, CHR ''t'']
     else if n < 0x20 \<or> n = 0x7F
     then [CHR 0x5C, CHR ''x'', hex ((n div 16) mod 16), hex (n mod 16)]
     else [c])"

definition escape :: "string \<Rightarrow> string" where
  "escape s = concat (map escape_char s)"

section \<open>Storage\<close>

definition b64 :: "b64_engine \<Rightarrow> string \<Rightarrow> string" where
  "b64 E s = std_encode E s"

definition unb64 :: "b64_engine \<Rightarrow> string \<Rightarrow> string option" where
  "unb64 E s = map_option from_utf8_lossy (std_decode E s)"

definition B64_PREFIX :: string where
  "B64_PREFIX = ''b64:''"

definition needs_b64 :: "string \<Rightarrow> bool" where
  "needs_b64 v \<longleftrightarrow>
    v \<noteq> str_trim v \<or> str_starts_with B64_PREFIX v \<or>
    (\<exists>b \<in> set v. control_byte b \<or> b = CHR '';'' \<or> b = CHR ''#'')"

definition encode_value :: "b64_engine \<Rightarrow> string \<Rightarrow> string" where
  "encode_value E v = (if needs_b64 v then B64_PREFIX @ b64 E v else v)"

definition decode_value :: "b64_engine \<Rightarrow> string \<Rightarrow> string" where
  "decode_value E v =
    (case str_strip_prefix B64_PREFIX v of
       Some rest \<Rightarrow> (case unb64 E rest of Some r \<Rightarrow> r | None \<Rightarrow> v)
     | None \<Rightarrow> v)"

section \<open>Escaped text\<close>

lemma escape_Nil [simp]: "escape [] = []"
  by (simp add: escape_def)

lemma escape_Cons [simp]: "escape (c # s) = escape_char c @ escape s"
  by (simp add: escape_def)

lemma hex_digit: "hex n = digit_char (if n < 16 then n else 0)"
  by (simp add: hex_def digit_char_zero)

lemma hex_range: "48 \<le> (of_char (hex n) :: nat) \<and> (of_char (hex n) :: nat) \<le> 102"
  by (simp add: hex_digit digit_char_def)

lemma hex_not_control [simp]: "\<not> control_byte (hex n)"
  using hex_range [of n] by (simp add: control_byte_def)

lemma escape_char_printable: "\<forall>b \<in> set (escape_char c). \<not> control_byte b"
  by (simp add: escape_char_def Let_def) (simp add: control_byte_def)

lemma escape_printable: "b \<in> set (escape s) \<Longrightarrow> \<not> control_byte b"
  using escape_char_printable by (auto simp: escape_def)

lemma escape_char_plain: "\<not> control_byte c \<Longrightarrow> c \<noteq> CHR 0x5C \<Longrightarrow> escape_char c = [c]"
  by (auto simp: escape_char_def control_byte_def Let_def)

lemma escape_plain: "\<forall>b \<in> set s. \<not> control_byte b \<and> b \<noteq> CHR 0x5C \<Longrightarrow> escape s = s"
  by (induction s) (simp_all add: escape_char_plain)

lemma of_char_less: "(of_char c :: nat) < 256"
  using nat_of_char_less_256 by simp

text \<open>The first character of an escaped text can be read off, so escaping loses nothing.\<close>

definition unescape_head :: "string \<Rightarrow> char" where
  "unescape_head s =
    (let e = byte_at s 1 in
     if byte_at s 0 \<noteq> CHR 0x5C then byte_at s 0
     else if e = CHR ''n'' then CHR 0x0A
     else if e = CHR ''r'' then CHR 0x0D
     else if e = CHR ''t'' then CHR 0x09
     else if e = CHR ''x''
     then char_of (16 * the (digit_value 16 (byte_at s 2)) + the (digit_value 16 (byte_at s 3)))
     else CHR 0x5C)"

lemma hex_value: "n < 16 \<Longrightarrow> digit_value 16 (hex n) = Some n"
  by (simp add: hex_def digit_value_digit_char)

lemma hex_pair: "(char_of (16 * (of_char c div 16 mod 16) + of_char c mod 16 :: nat)) = c"
proof -
  have "(of_char c :: nat) div 16 < 16"
    using of_char_less by (simp add: less_mult_imp_div_less)
  then have "16 * (of_char c div 16 mod 16) + of_char c mod 16 = (of_char c :: nat)" by simp
  then show ?thesis by (simp only: char_of_char)
qed

lemma unescape_head_escape: "unescape_head (escape_char c @ r) = c"
proof (cases "c \<in> {CHR 0x5C, CHR 0x0A, CHR 0x0D, CHR 0x09}")
  case True
  then show ?thesis by (elim insertE) (simp_all add: escape_char_def unescape_head_def byte_at_def)
next
  case False
  then show ?thesis
    by (simp add: escape_char_def unescape_head_def byte_at_def Let_def hex_value hex_pair)
qed

lemma escape_char_code: "escape_char c @ r = escape_char d @ r' \<Longrightarrow> c = d"
  by (metis unescape_head_escape)

lemma escape_char_not_Nil [simp]: "escape_char c \<noteq> []"
  by (simp add: escape_char_def Let_def)

lemma escape_inj: "escape s = escape t \<Longrightarrow> s = t"
proof (induction s arbitrary: t)
  case Nil
  then show ?case by (cases t) simp_all
next
  case (Cons c s)
  then obtain d t' where t: "t = d # t'" by (cases t) simp_all
  with Cons.prems have "c = d" using escape_char_code by simp
  with Cons.prems t Cons.IH [of t'] show ?case by simp
qed

section \<open>Values that fit on a rule line\<close>

definition line_byte :: "char \<Rightarrow> bool" where
  "line_byte b \<longleftrightarrow> \<not> control_byte b \<and> b \<noteq> CHR '';'' \<and> b \<noteq> CHR ''#''"

definition line_safe :: "string \<Rightarrow> bool" where
  "line_safe v \<longleftrightarrow> trimmed v \<and> (\<forall>b \<in> set v. line_byte b)"

lemma needs_b64_iff:
  "\<not> needs_b64 v \<longleftrightarrow> line_safe v \<and> \<not> str_starts_with B64_PREFIX v"
proof -
  have "v \<noteq> str_trim v \<longleftrightarrow> \<not> trimmed v" by (metis str_trim_id_iff)
  then show ?thesis unfolding needs_b64_def line_safe_def line_byte_def by blast
qed

lemma b64_alphabet_range:
  "\<forall>c \<in> set b64_alphabet. 0x20 < (of_char c :: nat) \<and> (of_char c :: nat) < 0x7F \<and>
    c \<noteq> CHR '';'' \<and> c \<noteq> CHR ''#'' \<and> c \<noteq> CHR ''*'' \<and> c \<noteq> CHR ''=''"
  unfolding b64_alphabet_def by simp

lemma b64_symbol_range: "b64_symbol c \<Longrightarrow> 0x20 < (of_char c :: nat) \<and> (of_char c :: nat) < 0x7F \<and>
    c \<noteq> CHR '';'' \<and> c \<noteq> CHR ''#'' \<and> c \<noteq> CHR ''*''"
  using b64_alphabet_range unfolding b64_symbol_def
  by (elim disjE) (blast, simp)

lemma b64_symbol_line_byte: "b64_symbol c \<Longrightarrow> line_byte c"
  using b64_symbol_range [of c] by (simp add: line_byte_def control_byte_def)

lemma trimmed_solid_all: "s \<noteq> [] \<Longrightarrow> solid (hd s) \<Longrightarrow> solid (last s) \<Longrightarrow> trimmed s"
proof -
  assume s: "s \<noteq> []" "solid (hd s)" "solid (last s)"
  have "take (length w) s \<noteq> w" if "w \<in> set white_space" "w \<noteq> []" for w
  proof
    assume "take (length w) s = w"
    then have "hd s = hd w" using that s by (metis hd_take length_greater_0_conv)
    with that s show False by (auto simp: solid_def)
  qed
  moreover have "take (length w) (rev s) \<noteq> rev w" if "w \<in> set white_space" "w \<noteq> []" for w
  proof
    assume "take (length w) (rev s) = rev w"
    then have "last s = last w"
      using that s by (metis hd_rev hd_take length_greater_0_conv)
    with that s show False by (auto simp: solid_def)
  qed
  ultimately show ?thesis by (auto simp: trimmed_def ws_head_None)
qed

lemma b64_form_safe:
  assumes "\<forall>c \<in> set e. b64_symbol c"
  shows "line_safe (B64_PREFIX @ e)"
proof -
  have "solid (last (B64_PREFIX @ e))"
    using assms b64_symbol_range [of "last e"] by (auto simp: B64_PREFIX_def intro!: solid_ascii)
  then have "trimmed (B64_PREFIX @ e)"
    by (intro trimmed_solid_all) (auto simp: B64_PREFIX_def intro!: solid_ascii)
  moreover have "\<forall>b \<in> set B64_PREFIX. line_byte b"
    by (simp add: B64_PREFIX_def line_byte_def control_byte_def)
  ultimately show ?thesis
    using assms b64_symbol_line_byte by (auto simp: line_safe_def)
qed

section \<open>The contract of the engine\<close>

locale base64_standard =
  fixes E :: b64_engine
  assumes decode_encode: "std_decode E (std_encode E x) = Some x"
    and encode_alphabet: "c \<in> set (std_encode E x) \<Longrightarrow> b64_symbol c"
    and decode_alphabet: "std_decode E s = Some x \<Longrightarrow> c \<in> set s \<Longrightarrow> b64_symbol c"
begin

lemma unb64_b64: "utf8_valid s \<Longrightarrow> unb64 E (b64 E s) = Some s"
  by (simp add: unb64_def b64_def decode_encode from_utf8_lossy_valid)

lemma decode_encode_value:
  assumes "utf8_valid v"
  shows "decode_value E (encode_value E v) = v"
proof (cases "needs_b64 v")
  case True
  with unb64_b64 [OF assms] show ?thesis by (simp add: decode_value_def encode_value_def)
next
  case False
  then have "str_strip_prefix B64_PREFIX v = None"
    by (simp add: needs_b64_iff str_strip_prefix_None)
  with False show ?thesis by (simp add: decode_value_def encode_value_def)
qed

lemma encode_value_safe: "line_safe (encode_value E v)"
  using b64_form_safe [of "b64 E v"] encode_alphabet
  by (auto simp: encode_value_def b64_def needs_b64_iff)

text \<open>A \<open>*\<close> is no base64 symbol: with one appended, a \<open>b64:\<close> value is read back literally.\<close>

lemma unb64_star: "unb64 E (s @ ''*'') = None"
  using decode_alphabet [of "s @ ''*''" _ "CHR ''*''"] b64_symbol_range [of "CHR ''*''"]
  by (cases "std_decode E (s @ ''*'')") (auto simp: unb64_def)

lemma decode_b64_star: "decode_value E (B64_PREFIX @ s @ ''*'') = B64_PREFIX @ s @ ''*''"
  by (simp add: decode_value_def unb64_star)

end

section \<open>An RFC 4648 engine\<close>

definition b64_char :: "nat \<Rightarrow> char" where
  "b64_char n = b64_alphabet ! n"

definition b64_value :: "char \<Rightarrow> nat option" where
  "b64_value c = find (\<lambda>n. b64_char n = c) [0..<64]"

fun rfc_encode :: "bytes \<Rightarrow> string" where
  "rfc_encode [] = []"
| "rfc_encode [a] =
    [b64_char (of_char a div 4), b64_char (of_char a mod 4 * 16), CHR ''='', CHR ''='']"
| "rfc_encode [a, b] =
    [b64_char (of_char a div 4), b64_char (of_char a mod 4 * 16 + of_char b div 16),
     b64_char (of_char b mod 16 * 4), CHR ''='']"
| "rfc_encode (a # b # c # r) =
    b64_char (of_char a div 4) # b64_char (of_char a mod 4 * 16 + of_char b div 16) #
    b64_char (of_char b mod 16 * 4 + of_char c div 64) # b64_char (of_char c mod 64) #
    rfc_encode r"

fun rfc_decode :: "string \<Rightarrow> bytes option" where
  "rfc_decode [] = Some []"
| "rfc_decode (w # x # y # z # r) =
    (case (b64_value w, b64_value x) of
       (Some p, Some q) \<Rightarrow>
         (if y = CHR ''='' then
            if z = CHR ''='' \<and> r = [] \<and> q mod 16 = 0 then Some [char_of (p * 4 + q div 16)] else None
          else case b64_value y of
            None \<Rightarrow> None
          | Some s \<Rightarrow>
             (if z = CHR ''='' then
                if r = [] \<and> s mod 4 = 0
                then Some [char_of (p * 4 + q div 16), char_of (q mod 16 * 16 + s div 4)] else None
              else case b64_value z of
                None \<Rightarrow> None
              | Some t \<Rightarrow>
                  map_option (\<lambda>bs. char_of (p * 4 + q div 16) # char_of (q mod 16 * 16 + s div 4) #
                    char_of (s mod 4 * 64 + t) # bs) (rfc_decode r)))
     | _ \<Rightarrow> None)"
| "rfc_decode _ = None"

definition rfc4648_engine :: b64_engine where
  "rfc4648_engine = \<lparr>std_encode = rfc_encode, std_decode = rfc_decode\<rparr>"

lemma length_b64_alphabet: "length b64_alphabet = 64"
  by (simp add: b64_alphabet_def)

lemma b64_char_in: "n < 64 \<Longrightarrow> b64_char n \<in> set b64_alphabet"
  by (simp add: b64_char_def length_b64_alphabet)

lemma distinct_b64_alphabet: "distinct b64_alphabet"
  by (simp add: b64_alphabet_def)

lemma b64_value_char: "n < 64 \<Longrightarrow> b64_value (b64_char n) = Some n"
  unfolding b64_value_def find_Some_iff
  using distinct_b64_alphabet
  by (intro exI [of _ n])
    (auto simp: b64_char_def length_b64_alphabet nth_eq_iff_index_eq)

lemma b64_value_SomeD: "b64_value c = Some n \<Longrightarrow> c \<in> set b64_alphabet"
  by (auto simp: b64_value_def find_Some_iff b64_char_in)

lemma b64_char_not_pad: "n < 64 \<Longrightarrow> b64_char n \<noteq> CHR ''=''"
  using b64_char_in [of n] b64_alphabet_range by blast

text \<open>The sextets of a group are below 64, and its bytes have two digits in base 16.\<close>

lemma rfc_sextets [simp]:
  "(of_char a :: nat) div 4 < 64" "(of_char a :: nat) mod 4 * 16 < 64"
  "(of_char a :: nat) mod 4 * 16 + of_char b div 16 < 64" "(of_char a :: nat) mod 16 * 4 < 64"
  "(of_char a :: nat) mod 16 * 4 + of_char b div 64 < 64"
proof -
  have "(of_char a :: nat) mod 4 < 4" "(of_char a :: nat) mod 16 < 16"
    "(of_char a :: nat) div 4 < 64" "(of_char b :: nat) div 16 < 16" "(of_char b :: nat) div 64 < 4"
    using of_char_less by (simp_all add: less_mult_imp_div_less)
  then show "(of_char a :: nat) div 4 < 64" "(of_char a :: nat) mod 4 * 16 < 64"
    "(of_char a :: nat) mod 4 * 16 + of_char b div 16 < 64" "(of_char a :: nat) mod 16 * 4 < 64"
    "(of_char a :: nat) mod 16 * 4 + of_char b div 64 < 64"
    by linarith+
qed

lemma byte_digits [simp]:
  "(of_char b :: nat) div 16 div 16 = 0" "(of_char b :: nat) div 16 mod 16 = of_char b div 16"
  "(of_char b :: nat) div 64 div 4 = 0" "(of_char b :: nat) div 64 mod 4 = of_char b div 64"
proof -
  have "(of_char b :: nat) div 16 < 16" "(of_char b :: nat) div 64 < 4"
    using of_char_less by (simp_all add: less_mult_imp_div_less)
  then show "(of_char b :: nat) div 16 div 16 = 0" "(of_char b :: nat) div 16 mod 16 = of_char b div 16"
    "(of_char b :: nat) div 64 div 4 = 0" "(of_char b :: nat) div 64 mod 4 = of_char b div 64"
    by simp_all
qed

lemma rfc_decode_encode: "rfc_decode (rfc_encode x) = Some x"
  by (induction x rule: rfc_encode.induct) (simp_all add: b64_value_char b64_char_not_pad)

lemma rfc_encode_alphabet: "c \<in> set (rfc_encode x) \<Longrightarrow> b64_symbol c"
  by (induction x rule: rfc_encode.induct) (auto simp: b64_symbol_def b64_char_in)

lemma rfc_decode_alphabet: "rfc_decode s = Some x \<Longrightarrow> c \<in> set s \<Longrightarrow> b64_symbol c"
  by (induction s arbitrary: x rule: rfc_decode.induct)
    (auto simp: b64_symbol_def split: option.splits if_splits dest: b64_value_SomeD)

interpretation rfc4648: base64_standard rfc4648_engine
  by unfold_locales
    (simp_all add: rfc4648_engine_def rfc_decode_encode rfc_encode_alphabet rfc_decode_alphabet)

section \<open>What the representations guarantee\<close>

text \<open>
  Displayed text is safe and faithful: escaping leaves no control byte, so a file name cannot
  forge a log line or break the tab- and newline-separated forms, text without control bytes
  and backslashes is shown as it is, and no two different names are shown alike.
\<close>

theorem escape_safe:
  "(\<forall>b \<in> set (escape s). \<not> control_byte b) \<and>
    ((\<forall>b \<in> set s. \<not> control_byte b \<and> b \<noteq> CHR 0x5C) \<longrightarrow> escape s = s) \<and>
    (escape s = escape t \<longrightarrow> s = t)"
proof (intro conjI ballI impI)
  show "\<not> control_byte b" if "b \<in> set (escape s)" for b by (rule escape_printable [OF that])
qed (erule escape_plain, erule escape_inj)

theorem escape_safe_witness: "escape ''a/b;c'' = ''a/b;c''"
  by (rule escape_safe [of _ "[]", THEN conjunct2, THEN conjunct1, THEN mp])
    (simp add: control_byte_def)

text \<open>
  An allowlist value survives storage: whatever text it is, its stored form decodes to it,
  and the stored form has no separator, comment or control byte and no surrounding white space.
\<close>

theorem value_roundtrip:
  assumes "base64_standard E" "utf8_valid v"
  shows "decode_value E (encode_value E v) = v \<and> line_safe (encode_value E v)"
  using base64_standard.decode_encode_value [OF assms] base64_standard.encode_value_safe [OF assms(1)]
  by simp

theorem value_roundtrip_witness:
  "decode_value rfc4648_engine (encode_value rfc4648_engine ''a;b'') = ''a;b'' \<and>
    encode_value rfc4648_engine ''a;b'' = ''b64:YTti''"
proof -
  have "utf8_valid ''a;b''" by (intro utf8_valid_ascii) simp
  with value_roundtrip [OF rfc4648.base64_standard_axioms, of "''a;b''"] show ?thesis
    by (simp add: encode_value_def needs_b64_def b64_def rfc4648_engine_def b64_char_def
      b64_alphabet_def B64_PREFIX_def)
qed

end
