(* ===== verification/Allowlist.thy ===== *)
theory Allowlist
  imports Siphash Common Encoding
begin

text \<open>
  \<open>linprov/src/allowlist.rs\<close>: allowlist dimensions, the parsed rule and its line form, the packed
  rule of the BPF map, loading the file, and soak-mode recording. Every function that turns a
  value into or out of its line form takes the base64 engine as its first argument.
\<close>

section \<open>Dimensions\<close>

datatype dim = TargetFilename | TargetFolder | LandingFilename | LandingFolder
  | CreatorProcess | CreatorComm | CreatorUid | ExecutionUid

fun as_key :: "dim \<Rightarrow> string" where
  "as_key TargetFilename = ''target_filename''"
| "as_key TargetFolder = ''target_folder''"
| "as_key LandingFilename = ''landing_filename''"
| "as_key LandingFolder = ''landing_folder''"
| "as_key CreatorProcess = ''creator_process''"
| "as_key CreatorComm = ''creator_comm''"
| "as_key CreatorUid = ''creator_uid''"
| "as_key ExecutionUid = ''execution_uid''"

definition from_key :: "string \<Rightarrow> dim option" where
  "from_key s =
    (if s = ''target_filename'' then Some TargetFilename
     else if s = ''target_folder'' then Some TargetFolder
     else if s = ''landing_filename'' then Some LandingFilename
     else if s = ''landing_folder'' then Some LandingFolder
     else if s = ''creator_process'' then Some CreatorProcess
     else if s = ''creator_comm'' then Some CreatorComm
     else if s = ''creator_uid'' then Some CreatorUid
     else if s = ''execution_uid'' then Some ExecutionUid
     else None)"

definition DIM_ORDER :: "dim list" where
  "DIM_ORDER = [TargetFilename, TargetFolder, LandingFilename, LandingFolder, CreatorProcess,
     CreatorComm, CreatorUid, ExecutionUid]"

fun dim_bit :: "dim \<Rightarrow> u32" where
  "dim_bit TargetFilename = TARGET_FILENAME"
| "dim_bit TargetFolder = TARGET_FOLDER"
| "dim_bit LandingFilename = LANDING_FILENAME"
| "dim_bit LandingFolder = LANDING_FOLDER"
| "dim_bit CreatorProcess = CREATOR_PROCESS"
| "dim_bit CreatorComm = CREATOR_COMM"
| "dim_bit CreatorUid = CREATOR_UID"
| "dim_bit ExecutionUid = EXECUTION_UID"

section \<open>Rules\<close>

record rule_spec =
  s_flags :: u32
  s_target_filename :: "string option"
  s_target_folder :: "string option"
  s_landing_filename :: "string option"
  s_landing_folder :: "string option"
  s_creator_process :: "string option"
  s_creator_comm :: "string option"
  s_creator_uid :: "u32 option"
  s_execution_uid :: "u32 option"

definition default_spec :: rule_spec where
  "default_spec = \<lparr>s_flags = 0, s_target_filename = None, s_target_folder = None,
     s_landing_filename = None, s_landing_folder = None, s_creator_process = None,
     s_creator_comm = None, s_creator_uid = None, s_execution_uid = None\<rparr>"

datatype rule_error = MissingEquals string | UnknownDim string | SpecifiedTwice dim
  | EmptyComm | CommTooLong string | NotU32 dim string | NoConditions
  | InCondition string string rule_error

definition normalize_folder :: "string \<Rightarrow> string" where
  "normalize_folder value = (if str_ends_with_char SLASH value then value else value @ ''/'')"

definition split_recursive :: "string \<Rightarrow> string \<times> bool" where
  "split_recursive value =
    (case str_strip_suffix_char (CHR ''*'') value of
       Some rest \<Rightarrow> (rest, True) | None \<Rightarrow> (value, False))"

text \<open>
  \<open>RuleSpec::set\<close> mutates the rule and may then fail: it returns the rule as it is left and the
  error, if any. The dimension's flag is set before the value is checked.
\<close>

definition rule_set :: "dim \<Rightarrow> string \<Rightarrow> rule_spec \<Rightarrow> rule_spec \<times> rule_error option" where
  "rule_set d value spec =
    (let bit = dim_bit d in
     if flag_set (s_flags spec) bit then (spec, Some (SpecifiedTwice d))
     else let spec = spec\<lparr>s_flags := s_flags spec OR bit\<rparr> in
       (case d of
          TargetFilename \<Rightarrow> (spec\<lparr>s_target_filename := Some value\<rparr>, None)
        | TargetFolder \<Rightarrow>
            (case split_recursive value of (folder, recursive) \<Rightarrow>
               let spec = spec\<lparr>s_target_folder := Some (normalize_folder folder)\<rparr>
               in (if recursive
                   then spec\<lparr>s_flags := s_flags spec OR TARGET_FOLDER_RECURSIVE\<rparr> else spec, None))
        | LandingFilename \<Rightarrow> (spec\<lparr>s_landing_filename := Some value\<rparr>, None)
        | LandingFolder \<Rightarrow>
            (case split_recursive value of (folder, recursive) \<Rightarrow>
               let spec = spec\<lparr>s_landing_folder := Some (normalize_folder folder)\<rparr>
               in (if recursive
                   then spec\<lparr>s_flags := s_flags spec OR LANDING_FOLDER_RECURSIVE\<rparr> else spec, None))
        | CreatorProcess \<Rightarrow> (spec\<lparr>s_creator_process := Some value\<rparr>, None)
        | CreatorComm \<Rightarrow>
            (if value = [] then (spec, Some EmptyComm)
             else if COMM_LEN \<le> length value then (spec, Some (CommTooLong value))
             else (spec\<lparr>s_creator_comm := Some value\<rparr>, None))
        | CreatorUid \<Rightarrow>
            (case parse_u32 value of
               None \<Rightarrow> (spec, Some (NotU32 d value))
             | Some uid \<Rightarrow> (spec\<lparr>s_creator_uid := Some uid\<rparr>, None))
        | ExecutionUid \<Rightarrow>
            (case parse_u32 value of
               None \<Rightarrow> (spec, Some (NotU32 d value))
             | Some uid \<Rightarrow> (spec\<lparr>s_execution_uid := Some uid\<rparr>, None))))"

fun parse_conds :: "b64_engine \<Rightarrow> string list \<Rightarrow> rule_spec \<Rightarrow> rule_error + rule_spec" where
  "parse_conds E [] spec = Inr spec"
| "parse_conds E (c # cs) spec =
    (let cond = str_trim c in
     if cond = [] then parse_conds E cs spec
     else case str_split_once (CHR ''='') cond of
       None \<Rightarrow> Inl (MissingEquals cond)
     | Some (k, v) \<Rightarrow>
        (let k = str_trim k; v = str_trim v; raw = decode_value E v in
         case from_key k of
           None \<Rightarrow> Inl (UnknownDim k)
         | Some d \<Rightarrow>
            (case rule_set d raw spec of (spec, err) \<Rightarrow>
               (case err of None \<Rightarrow> parse_conds E cs spec
                | Some e \<Rightarrow> Inl (InCondition k v e)))))"

definition rule_parse :: "b64_engine \<Rightarrow> string \<Rightarrow> rule_error + rule_spec" where
  "rule_parse E line =
    (case parse_conds E (str_split (CHR '';'') line) default_spec of
       Inl e \<Rightarrow> Inl e
     | Inr spec \<Rightarrow> if s_flags spec = 0 then Inl NoConditions else Inr spec)"

text \<open>The value of a present dimension in its line form.\<close>

definition folder_line :: "b64_engine \<Rightarrow> rule_spec \<Rightarrow> u32 \<Rightarrow> string \<Rightarrow> string" where
  "folder_line E spec rbit f =
    (let e = encode_value E f in if flag_set (s_flags spec) rbit then e @ ''*'' else e)"

fun dim_line :: "b64_engine \<Rightarrow> rule_spec \<Rightarrow> dim \<Rightarrow> string option" where
  "dim_line E spec TargetFilename = map_option (encode_value E) (s_target_filename spec)"
| "dim_line E spec TargetFolder =
    map_option (folder_line E spec TARGET_FOLDER_RECURSIVE) (s_target_folder spec)"
| "dim_line E spec LandingFilename = map_option (encode_value E) (s_landing_filename spec)"
| "dim_line E spec LandingFolder =
    map_option (folder_line E spec LANDING_FOLDER_RECURSIVE) (s_landing_folder spec)"
| "dim_line E spec CreatorProcess = map_option (encode_value E) (s_creator_process spec)"
| "dim_line E spec CreatorComm = map_option (encode_value E) (s_creator_comm spec)"
| "dim_line E spec CreatorUid = map_option show_u32 (s_creator_uid spec)"
| "dim_line E spec ExecutionUid = map_option show_u32 (s_execution_uid spec)"

fun line_parts :: "b64_engine \<Rightarrow> rule_spec \<Rightarrow> dim list \<Rightarrow> string list" where
  "line_parts E spec [] = []"
| "line_parts E spec (d # ds) =
    (if \<not> flag_set (s_flags spec) (dim_bit d) then line_parts E spec ds
     else case dim_line E spec d of
       Some v \<Rightarrow> (as_key d @ ''='' @ v) # line_parts E spec ds
     | None \<Rightarrow> line_parts E spec ds)"

definition to_line :: "b64_engine \<Rightarrow> rule_spec \<Rightarrow> string" where
  "to_line E spec = str_join '';'' (line_parts E spec DIM_ORDER)"

definition pad_comm :: "string \<Rightarrow> bytes" where
  "pad_comm c =
    (let n = min (length c) (COMM_LEN - 1) in take n c @ replicate (COMM_LEN - n) NUL)"

definition pack :: "u64 \<Rightarrow> u64 \<Rightarrow> rule_spec \<Rightarrow> allow_rule" where
  "pack a b spec =
    (let h = (\<lambda>v. case v of Some s \<Rightarrow> siphash a b s | None \<Rightarrow> 0) in
     \<lparr>r_flags = s_flags spec,
      r_creator_uid = (case s_creator_uid spec of Some u \<Rightarrow> u | None \<Rightarrow> 0),
      r_execution_uid = (case s_execution_uid spec of Some u \<Rightarrow> u | None \<Rightarrow> 0),
      r_pad = 0,
      r_creator_comm = (case s_creator_comm spec of Some c \<Rightarrow> pad_comm c | None \<Rightarrow> zero_comm),
      r_target_filename_hash = h (s_target_filename spec),
      r_target_folder_hash = h (s_target_folder spec),
      r_landing_filename_hash = h (s_landing_filename spec),
      r_landing_folder_hash = h (s_landing_folder spec),
      r_creator_process_hash = h (s_creator_process spec)\<rparr>)"

definition project_step :: "rule_spec \<Rightarrow> rule_spec \<Rightarrow> dim \<Rightarrow> rule_spec" where
  "project_step spec out d =
    (let bit = dim_bit d in
     if \<not> flag_set (s_flags spec) bit then out
     else let out = out\<lparr>s_flags := s_flags out OR bit\<rparr> in
       (case d of
          TargetFilename \<Rightarrow> out\<lparr>s_target_filename := s_target_filename spec\<rparr>
        | TargetFolder \<Rightarrow> out\<lparr>s_target_folder := s_target_folder spec,
            s_flags := s_flags out OR (s_flags spec AND TARGET_FOLDER_RECURSIVE)\<rparr>
        | LandingFilename \<Rightarrow> out\<lparr>s_landing_filename := s_landing_filename spec\<rparr>
        | LandingFolder \<Rightarrow> out\<lparr>s_landing_folder := s_landing_folder spec,
            s_flags := s_flags out OR (s_flags spec AND LANDING_FOLDER_RECURSIVE)\<rparr>
        | CreatorProcess \<Rightarrow> out\<lparr>s_creator_process := s_creator_process spec\<rparr>
        | CreatorComm \<Rightarrow> out\<lparr>s_creator_comm := s_creator_comm spec\<rparr>
        | CreatorUid \<Rightarrow> out\<lparr>s_creator_uid := s_creator_uid spec\<rparr>
        | ExecutionUid \<Rightarrow> out\<lparr>s_execution_uid := s_execution_uid spec\<rparr>))"

definition project :: "rule_spec \<Rightarrow> dim list \<Rightarrow> rule_spec" where
  "project spec dims = foldl (project_step spec) default_spec dims"

text \<open>The value shown beside a checkbox of the review window.\<close>

definition or_default :: "string option \<Rightarrow> string" where
  "or_default v = (case v of Some s \<Rightarrow> s | None \<Rightarrow> [])"

fun component_value :: "rule_spec \<Rightarrow> dim \<Rightarrow> string" where
  "component_value spec TargetFilename = or_default (s_target_filename spec)"
| "component_value spec TargetFolder = or_default (s_target_folder spec) @
    (if flag_set (s_flags spec) TARGET_FOLDER_RECURSIVE then ''*'' else [])"
| "component_value spec LandingFilename = or_default (s_landing_filename spec)"
| "component_value spec LandingFolder = or_default (s_landing_folder spec) @
    (if flag_set (s_flags spec) LANDING_FOLDER_RECURSIVE then ''*'' else [])"
| "component_value spec CreatorProcess = or_default (s_creator_process spec)"
| "component_value spec CreatorComm = or_default (s_creator_comm spec)"
| "component_value spec CreatorUid = or_default (map_option show_u32 (s_creator_uid spec))"
| "component_value spec ExecutionUid = or_default (map_option show_u32 (s_execution_uid spec))"

definition components :: "rule_spec \<Rightarrow> (dim \<times> string) list" where
  "components spec =
    map (\<lambda>d. (d, component_value spec d))
      (filter (\<lambda>d. flag_set (s_flags spec) (dim_bit d)) DIM_ORDER)"

section \<open>The rule file\<close>

record rules =
  rule_list :: "rule_spec list"
  seen_lines :: "string set"

definition rules_default :: rules where
  "rules_default = \<lparr>rule_list = [], seen_lines = {}\<rparr>"

definition rules_insert :: "b64_engine \<Rightarrow> rule_spec \<Rightarrow> rules \<Rightarrow> rules \<times> bool" where
  "rules_insert E spec R =
    (let line = to_line E spec in
     if line \<in> seen_lines R then (R, False)
     else (R\<lparr>seen_lines := insert line (seen_lines R), rule_list := rule_list R @ [spec]\<rparr>, True))"

text \<open>Opening a file: absent, another error, or its bytes.\<close>

datatype file_open_result = FileAbsent | FileError | FileBytes bytes

datatype load_error = OpenError | BadUtf8 nat | BadRule nat rule_error

definition strip_comment :: "string \<Rightarrow> string" where
  "strip_comment line = str_trim (hd (str_split (CHR ''#'') line))"

fun load_lines :: "b64_engine \<Rightarrow> nat \<Rightarrow> string option list \<Rightarrow> rules \<Rightarrow> load_error + rules" where
  "load_lines E i [] R = Inr R"
| "load_lines E i (None # ls) R = Inl (BadUtf8 (i + 1))"
| "load_lines E i (Some l # ls) R =
    (let t = strip_comment l in
     if t = [] then load_lines E (i + 1) ls R
     else case rule_parse E t of
       Inl e \<Rightarrow> Inl (BadRule (i + 1) e)
     | Inr spec \<Rightarrow> load_lines E (i + 1) ls (fst (rules_insert E spec R)))"

definition rules_load :: "b64_engine \<Rightarrow> file_open_result \<Rightarrow> load_error + rules" where
  "rules_load E f =
    (case f of
       FileAbsent \<Rightarrow> Inr rules_default
     | FileError \<Rightarrow> Inl OpenError
     | FileBytes content \<Rightarrow> load_lines E 0 (read_lines content) rules_default)"

section \<open>Building a rule from an event\<close>

record origin_context =
  c_target_filename :: string
  c_landing_folder :: "string option"
  c_landing_basename :: "string option"
  c_creator_path :: "string option"
  c_creator_comm :: string
  c_creator_uid :: u32
  c_execution_uid :: u32

definition ALLOW_DIMS :: "dim list" where
  "ALLOW_DIMS = [TargetFilename, CreatorProcess, CreatorComm, CreatorUid, ExecutionUid,
     LandingFolder, LandingFilename]"

definition non_empty :: "string \<Rightarrow> string option" where
  "non_empty s = (if s = [] then None else Some s)"

definition folder_of :: "string \<Rightarrow> string option" where
  "folder_of p =
    (if p = [] then None
     else case str_rsplit_once SLASH p of
       Some (parent, _) \<Rightarrow> if parent \<noteq> [] then Some (parent @ ''/'') else Some ''/''
     | None \<Rightarrow> None)"

fun context_value :: "origin_context \<Rightarrow> dim \<Rightarrow> string option" where
  "context_value ctx TargetFilename = non_empty (c_target_filename ctx)"
| "context_value ctx TargetFolder = folder_of (c_target_filename ctx)"
| "context_value ctx LandingFilename = c_landing_basename ctx"
| "context_value ctx LandingFolder = c_landing_folder ctx"
| "context_value ctx CreatorProcess = c_creator_path ctx"
| "context_value ctx CreatorComm = non_empty (c_creator_comm ctx)"
| "context_value ctx CreatorUid = Some (show_u32 (c_creator_uid ctx))"
| "context_value ctx ExecutionUid = Some (show_u32 (c_execution_uid ctx))"

definition context_step :: "origin_context \<Rightarrow> rule_spec \<Rightarrow> dim \<Rightarrow> rule_spec" where
  "context_step ctx spec d =
    (case context_value ctx d of None \<Rightarrow> spec | Some val \<Rightarrow> fst (rule_set d val spec))"

definition rule_from_context :: "origin_context \<Rightarrow> dim list \<Rightarrow> rule_spec" where
  "rule_from_context ctx dims = foldl (context_step ctx) default_spec dims"

section \<open>Soak\<close>

text \<open>The writer is the content of the file opened for append.\<close>

record soak =
  soak_dims :: "dim list"
  soak_seen :: "string set"
  soak_writer :: bytes

definition soak_open :: "file_open_result \<Rightarrow> dim list \<Rightarrow> rules \<Rightarrow> soak option" where
  "soak_open f dims preload =
    (let S = (\<lambda>content. \<lparr>soak_dims = dims, soak_seen = seen_lines preload, soak_writer = content\<rparr>)
     in case f of FileAbsent \<Rightarrow> Some (S []) | FileBytes content \<Rightarrow> Some (S content)
        | FileError \<Rightarrow> None)"

text \<open>
  \<open>write_err\<close>: \<open>None\<close> when \<open>writeln!\<close> succeeds, else how many bytes reached the file before the error.
  The result is \<open>None\<close> for the I/O error.
\<close>

definition soak_record ::
    "b64_engine \<Rightarrow> nat option \<Rightarrow> origin_context \<Rightarrow> soak \<Rightarrow> soak \<times> string option option" where
  "soak_record E write_err ctx S =
    (let spec = rule_from_context ctx (soak_dims S) in
     if s_flags spec = 0 then (S, Some None)
     else let line = to_line E spec in
       if line \<in> soak_seen S then (S, Some None)
       else if MAX_RULES \<le> card (soak_seen S) then (S, Some None)
       else let S = S\<lparr>soak_seen := insert line (soak_seen S)\<rparr> in
         case write_err of
           None \<Rightarrow> (S\<lparr>soak_writer := soak_writer S @ line @ [CHR 0x0A]\<rparr>, Some (Some line))
         | Some n \<Rightarrow> (S\<lparr>soak_writer := soak_writer S @ take n (line @ [CHR 0x0A])\<rparr>, None))"

section \<open>Flags and keys\<close>

fun dim_index :: "dim \<Rightarrow> nat" where
  "dim_index TargetFilename = 0" | "dim_index TargetFolder = 1" | "dim_index LandingFilename = 2"
| "dim_index LandingFolder = 3" | "dim_index CreatorProcess = 4" | "dim_index CreatorComm = 5"
| "dim_index CreatorUid = 6" | "dim_index ExecutionUid = 7"

lemma dim_bit_index: "dim_bit d = push_bit (dim_index d) 1"
  by (cases d) (simp_all add: dim_consts)

lemma dim_flag: "flag_set f (dim_bit d) \<longleftrightarrow> bit f (dim_index d)"
  by (simp only: dim_bit_index and_single_bit)

lemma dim_index_less: "dim_index d < 8"
  by (cases d) simp_all

lemma dim_index_eq [simp]: "dim_index d = dim_index e \<longleftrightarrow> d = e"
  by (cases d; cases e) simp_all

lemma in_DIM_ORDER [simp]: "d \<in> set DIM_ORDER"
  by (cases d) (simp_all add: DIM_ORDER_def)

lemma distinct_DIM_ORDER: "distinct DIM_ORDER"
  by (simp add: DIM_ORDER_def)

lemma rec_flags:
  "flag_set f TARGET_FOLDER_RECURSIVE \<longleftrightarrow> bit f 8"
  "flag_set f LANDING_FOLDER_RECURSIVE \<longleftrightarrow> bit f 9"
  by (simp_all only: dim_consts and_single_bit)

lemma from_as_key [simp]: "from_key (as_key d) = Some d"
  by (cases d) (simp_all add: from_key_def)

lemma from_key_SomeD: "from_key k = Some d \<Longrightarrow> k = as_key d"
  by (auto simp: from_key_def split: if_splits)

lemma as_key_bytes: "\<forall>b \<in> set (as_key d). line_byte b \<and> solid b \<and> b \<noteq> CHR ''=''"
  by (cases d) (simp_all add: line_byte_def control_byte_def solid_ascii)

lemma as_key_trimmed: "trimmed (as_key d)"
proof -
  have "as_key d \<noteq> []" by (cases d) simp_all
  with as_key_bytes [of d] show ?thesis by (intro trimmed_solid_all) auto
qed

section \<open>Well-formed rules\<close>

text \<open>
  What every successful parse establishes: a value is present exactly when its flag is set, the
  recursive modifiers come with their folder, folders end in a slash, and the command name fits.
\<close>

fun has_value :: "rule_spec \<Rightarrow> dim \<Rightarrow> bool" where
  "has_value spec TargetFilename = (s_target_filename spec \<noteq> None)"
| "has_value spec TargetFolder = (s_target_folder spec \<noteq> None)"
| "has_value spec LandingFilename = (s_landing_filename spec \<noteq> None)"
| "has_value spec LandingFolder = (s_landing_folder spec \<noteq> None)"
| "has_value spec CreatorProcess = (s_creator_process spec \<noteq> None)"
| "has_value spec CreatorComm = (s_creator_comm spec \<noteq> None)"
| "has_value spec CreatorUid = (s_creator_uid spec \<noteq> None)"
| "has_value spec ExecutionUid = (s_execution_uid spec \<noteq> None)"

definition folder_ok :: "string option \<Rightarrow> bool" where
  "folder_ok v = (case v of None \<Rightarrow> True | Some f \<Rightarrow> str_ends_with_char SLASH f)"

definition comm_ok :: "string option \<Rightarrow> bool" where
  "comm_ok v = (case v of None \<Rightarrow> True | Some c \<Rightarrow> c \<noteq> [] \<and> length c < COMM_LEN)"

definition spec_ok :: "rule_spec \<Rightarrow> bool" where
  "spec_ok spec \<longleftrightarrow>
    (\<forall>d \<in> set DIM_ORDER. flag_set (s_flags spec) (dim_bit d) = has_value spec d) \<and>
    (flag_set (s_flags spec) TARGET_FOLDER_RECURSIVE \<longrightarrow> has_value spec TargetFolder) \<and>
    (flag_set (s_flags spec) LANDING_FOLDER_RECURSIVE \<longrightarrow> has_value spec LandingFolder) \<and>
    take_bit 10 (s_flags spec) = s_flags spec \<and>
    folder_ok (s_target_folder spec) \<and> folder_ok (s_landing_folder spec) \<and>
    comm_ok (s_creator_comm spec)"

lemma spec_ok_value: "spec_ok spec \<Longrightarrow> has_value spec d \<longleftrightarrow> bit (s_flags spec) (dim_index d)"
  by (simp add: spec_ok_def flip: dim_flag)

lemma spec_ok_default: "spec_ok default_spec"
  by (simp add: spec_ok_def default_spec_def DIM_ORDER_def folder_ok_def comm_ok_def)

lemma normalize_folder_slash [simp]: "str_ends_with_char SLASH (normalize_folder f)"
  by (simp add: normalize_folder_def str_ends_with_char_def)

lemma normalize_folder_id: "str_ends_with_char SLASH f \<Longrightarrow> normalize_folder f = f"
  by (simp add: normalize_folder_def)

lemma split_recursive_star [simp]: "split_recursive (f @ ''*'') = (f, True)"
  by (simp add: split_recursive_def str_strip_suffix_char_def str_ends_with_char_def)

lemma split_recursive_slash: "str_ends_with_char SLASH f \<Longrightarrow> split_recursive f = (f, False)"
  by (auto simp: split_recursive_def str_strip_suffix_char_def str_ends_with_char_def)

lemma flags_or:
  "flag_set (f OR g :: u32) h \<longleftrightarrow> flag_set f h \<or> flag_set g h"
proof -
  have "(f OR g) AND h = (f AND h) OR (g AND h)" by (simp add: bit.conj_disj_distrib2)
  then show ?thesis by (metis or_eq_0_iff)
qed

lemma dim_bits_apart:
  "flag_set (dim_bit d) (dim_bit e) \<longleftrightarrow> d = e"
  "flag_set TARGET_FOLDER_RECURSIVE (dim_bit e) \<longleftrightarrow> False"
  "flag_set LANDING_FOLDER_RECURSIVE (dim_bit e) \<longleftrightarrow> False"
  by (cases d; cases e; simp add: dim_consts) (cases e; simp add: dim_consts)+

lemma dim_bits_small:
  "take_bit 10 (dim_bit d) = dim_bit d"
  "take_bit 10 TARGET_FOLDER_RECURSIVE = TARGET_FOLDER_RECURSIVE"
  "take_bit 10 LANDING_FOLDER_RECURSIVE = LANDING_FOLDER_RECURSIVE"
  by (cases d; simp add: dim_consts) (simp_all add: dim_consts)

end
