(* ===== verification/Rule_Lines.thy ===== *)
theory Rule_Lines
  imports Allowlist
begin

text \<open>
  The line form of a rule: every successful parse yields a well-formed rule, and \<open>to_line\<close>
  followed by \<open>parse\<close> is the identity on well-formed rules whose recursive folders need no
  base64. The proofs that depend on the base64 engine are in the context of its contract.
\<close>

section \<open>Parsing yields well-formed rules\<close>

lemma rec_bits_apart:
  "flag_set (dim_bit d) TARGET_FOLDER_RECURSIVE \<longleftrightarrow> False"
  "flag_set (dim_bit d) LANDING_FOLDER_RECURSIVE \<longleftrightarrow> False"
  "flag_set TARGET_FOLDER_RECURSIVE LANDING_FOLDER_RECURSIVE \<longleftrightarrow> False"
  "flag_set LANDING_FOLDER_RECURSIVE TARGET_FOLDER_RECURSIVE \<longleftrightarrow> False"
  "flag_set TARGET_FOLDER_RECURSIVE TARGET_FOLDER_RECURSIVE"
  "flag_set LANDING_FOLDER_RECURSIVE LANDING_FOLDER_RECURSIVE"
proof -
  show "flag_set (dim_bit d) TARGET_FOLDER_RECURSIVE \<longleftrightarrow> False"
    "flag_set (dim_bit d) LANDING_FOLDER_RECURSIVE \<longleftrightarrow> False"
    by (cases d; simp add: dim_consts)+
qed (simp_all add: dim_consts)

lemma spec_ok_iff:
  "spec_ok spec \<longleftrightarrow>
    (\<forall>d. flag_set (s_flags spec) (dim_bit d) = has_value spec d) \<and>
    (flag_set (s_flags spec) TARGET_FOLDER_RECURSIVE \<longrightarrow> has_value spec TargetFolder) \<and>
    (flag_set (s_flags spec) LANDING_FOLDER_RECURSIVE \<longrightarrow> has_value spec LandingFolder) \<and>
    take_bit 10 (s_flags spec) = s_flags spec \<and>
    folder_ok (s_target_folder spec) \<and> folder_ok (s_landing_folder spec) \<and>
    comm_ok (s_creator_comm spec)"
  unfolding spec_ok_def using in_DIM_ORDER by blast

lemma spec_ok_absent:
  assumes "spec_ok spec" "\<not> flag_set (s_flags spec) (dim_bit d)"
  shows "\<not> has_value spec d"
  using assms unfolding spec_ok_iff by blast

text \<open>What each operation does to the flags, and to which values are present.\<close>

fun rec_bit :: "dim \<Rightarrow> u32" where
  "rec_bit TargetFolder = TARGET_FOLDER_RECURSIVE"
| "rec_bit LandingFolder = LANDING_FOLDER_RECURSIVE"
| "rec_bit _ = 0"

lemma rule_set_flags:
  assumes "rule_set d v spec = (spec', None)"
  shows "s_flags spec' =
    s_flags spec OR dim_bit d OR (if snd (split_recursive v) then rec_bit d else 0)"
  using assms
  by (cases d) (auto simp: rule_set_def Let_def or.assoc split: if_splits prod.splits option.splits)

lemma rule_set_values:
  assumes "rule_set d v spec = (spec', None)"
  shows "has_value spec' e \<longleftrightarrow> has_value spec e \<or> e = d"
  using assms
  by (cases d; cases e)
    (auto simp: rule_set_def Let_def split: if_splits prod.splits option.splits)

lemma rule_set_shape:
  assumes "rule_set d v spec = (spec', None)"
    "folder_ok (s_target_folder spec)" "folder_ok (s_landing_folder spec)"
    "comm_ok (s_creator_comm spec)"
  shows "folder_ok (s_target_folder spec')" "folder_ok (s_landing_folder spec')"
    "comm_ok (s_creator_comm spec')"
  using assms
  by (cases d; auto simp: rule_set_def Let_def folder_ok_def comm_ok_def
      split: if_splits prod.splits option.splits)+

lemma rule_set_ok:
  assumes "spec_ok spec" "rule_set d v spec = (spec', None)"
  shows "spec_ok spec'"
proof -
  note ok = assms(1) [unfolded spec_ok_iff]
  have "take_bit 10 (rec_bit d) = rec_bit d" by (cases d) (simp_all add: dim_bits_small)
  then have "take_bit 10 (s_flags spec') = s_flags spec'"
    using ok by (simp add: rule_set_flags [OF assms(2)] take_bit_or dim_bits_small)
  moreover have "flag_set (s_flags spec') (dim_bit e) = has_value spec' e" for e
    using ok by (cases d) (auto simp: rule_set_flags [OF assms(2)] rule_set_values [OF assms(2)]
      flags_or dim_bits_apart simp del: dim_bit.simps)
  moreover have "flag_set (s_flags spec') TARGET_FOLDER_RECURSIVE \<longrightarrow> has_value spec' TargetFolder"
    "flag_set (s_flags spec') LANDING_FOLDER_RECURSIVE \<longrightarrow> has_value spec' LandingFolder"
    using ok by (cases d; simp add: rule_set_flags [OF assms(2)] rule_set_values [OF assms(2)]
      flags_or rec_bits_apart del: dim_bit.simps has_value.simps split: if_splits)+
  ultimately show ?thesis
    using ok rule_set_shape [OF assms(2)] unfolding spec_ok_iff by blast
qed

lemma parse_conds_ok:
  "spec_ok spec \<Longrightarrow> parse_conds E cs spec = Inr spec' \<Longrightarrow> spec_ok spec'"
  by (induction cs arbitrary: spec)
    (auto simp: Let_def split: if_splits option.splits prod.splits dest: rule_set_ok)

lemma rule_parse_ok: "rule_parse E line = Inr spec \<Longrightarrow> spec_ok spec \<and> s_flags spec \<noteq> 0"
  using parse_conds_ok [OF spec_ok_default]
  by (auto simp: rule_parse_def split: sum.splits if_splits)


section \<open>The line form\<close>

lemma and_flag: "bit f n \<Longrightarrow> (f :: u32) AND push_bit n 1 = push_bit n 1"
  by (rule bit_word_eqI) (auto simp: bit_and_iff bit_exp_iff)

lemma and_dim_bit: "flag_set f (dim_bit d) \<Longrightarrow> f AND dim_bit d = dim_bit d"
  by (metis dim_flag dim_bit_index and_flag)

lemma and_rec_bit:
  "flag_set f TARGET_FOLDER_RECURSIVE \<Longrightarrow> f AND TARGET_FOLDER_RECURSIVE = TARGET_FOLDER_RECURSIVE"
  "flag_set f LANDING_FOLDER_RECURSIVE \<Longrightarrow> f AND LANDING_FOLDER_RECURSIVE = LANDING_FOLDER_RECURSIVE"
  by (simp_all only: dim_consts and_single_bit and_flag)

lemma set_component:
  assumes "spec_ok spec" "flag_set (s_flags spec) (dim_bit d)" "\<not> flag_set (s_flags out) (dim_bit d)"
  shows "rule_set d (component_value spec d) out = (project_step spec out d, None)"
proof -
  have "has_value spec d" using assms by (simp only: spec_ok_iff)
  with assms show ?thesis
    by (cases d) (auto simp: rule_set_def project_step_def Let_def or_default_def spec_ok_iff
      folder_ok_def comm_ok_def parse_show_u32 split_recursive_slash normalize_folder_id
      and_rec_bit)
qed

lemma project_flags:
  assumes "spec_ok spec"
  shows "s_flags (project_step spec out d) =
    s_flags out OR (s_flags spec AND (dim_bit d OR rec_bit d))"
proof (cases "flag_set (s_flags spec) (dim_bit d)")
  case True
  then have "s_flags spec AND dim_bit d = dim_bit d" by (rule and_dim_bit)
  with True show ?thesis
    by (cases d) (auto simp: project_step_def Let_def bit.conj_disj_distrib or.assoc)
next
  case False
  have "flag_set (s_flags spec) (rec_bit d) \<longrightarrow> has_value spec d"
    using assms by (cases d; simp del: has_value.simps add: spec_ok_def)
  with spec_ok_absent [OF assms False] have "s_flags spec AND rec_bit d = 0" by blast
  with False show ?thesis by (simp add: project_step_def bit.conj_disj_distrib)
qed

lemma project_values:
  "s_target_filename (project_step spec out d) =
    (if d = TargetFilename \<and> flag_set (s_flags spec) (dim_bit d)
     then s_target_filename spec else s_target_filename out)"
  "s_target_folder (project_step spec out d) =
    (if d = TargetFolder \<and> flag_set (s_flags spec) (dim_bit d)
     then s_target_folder spec else s_target_folder out)"
  "s_landing_filename (project_step spec out d) =
    (if d = LandingFilename \<and> flag_set (s_flags spec) (dim_bit d)
     then s_landing_filename spec else s_landing_filename out)"
  "s_landing_folder (project_step spec out d) =
    (if d = LandingFolder \<and> flag_set (s_flags spec) (dim_bit d)
     then s_landing_folder spec else s_landing_folder out)"
  "s_creator_process (project_step spec out d) =
    (if d = CreatorProcess \<and> flag_set (s_flags spec) (dim_bit d)
     then s_creator_process spec else s_creator_process out)"
  "s_creator_comm (project_step spec out d) =
    (if d = CreatorComm \<and> flag_set (s_flags spec) (dim_bit d)
     then s_creator_comm spec else s_creator_comm out)"
  "s_creator_uid (project_step spec out d) =
    (if d = CreatorUid \<and> flag_set (s_flags spec) (dim_bit d)
     then s_creator_uid spec else s_creator_uid out)"
  "s_execution_uid (project_step spec out d) =
    (if d = ExecutionUid \<and> flag_set (s_flags spec) (dim_bit d)
     then s_execution_uid spec else s_execution_uid out)"
  by (cases d; simp add: project_step_def Let_def)+

lemma project_all_flags:
  assumes "spec_ok spec"
  shows "s_flags (project spec DIM_ORDER) = s_flags spec"
proof -
  have "s_flags (project spec DIM_ORDER) = s_flags spec AND 1023"
    by (simp add: project_def DIM_ORDER_def project_flags [OF assms] default_spec_def
      dim_consts flip: bit.conj_disj_distrib)
  also have "\<dots> = take_bit 10 (s_flags spec)"
    by (simp add: take_bit_eq_mask mask_numeral)
  finally show ?thesis using assms by (simp add: spec_ok_iff)
qed

lemma project_all:
  assumes "spec_ok spec"
  shows "project spec DIM_ORDER = spec"
proof (rule rule_spec.equality)
  note simps = project_def DIM_ORDER_def project_values default_spec_def
  note absent = spec_ok_absent [OF assms]
  show "s_flags (project spec DIM_ORDER) = s_flags spec" by (rule project_all_flags [OF assms])
  show "s_target_filename (project spec DIM_ORDER) = s_target_filename spec"
    using absent [of TargetFilename] by (auto simp: simps)
  show "s_target_folder (project spec DIM_ORDER) = s_target_folder spec"
    using absent [of TargetFolder] by (auto simp: simps)
  show "s_landing_filename (project spec DIM_ORDER) = s_landing_filename spec"
    using absent [of LandingFilename] by (auto simp: simps)
  show "s_landing_folder (project spec DIM_ORDER) = s_landing_folder spec"
    using absent [of LandingFolder] by (auto simp: simps)
  show "s_creator_process (project spec DIM_ORDER) = s_creator_process spec"
    using absent [of CreatorProcess] by (auto simp: simps)
  show "s_creator_comm (project spec DIM_ORDER) = s_creator_comm spec"
    using absent [of CreatorComm] by (auto simp: simps)
  show "s_creator_uid (project spec DIM_ORDER) = s_creator_uid spec"
    using absent [of CreatorUid] by (auto simp: simps)
  show "s_execution_uid (project spec DIM_ORDER) = s_execution_uid spec"
    using absent [of ExecutionUid] by (auto simp: simps)
qed simp

section \<open>Reading a rule line back\<close>

definition utf8_opt :: "string option \<Rightarrow> bool" where
  "utf8_opt v = (case v of None \<Rightarrow> True | Some s \<Rightarrow> utf8_valid s)"

definition spec_utf8 :: "rule_spec \<Rightarrow> bool" where
  "spec_utf8 spec \<longleftrightarrow> utf8_opt (s_target_filename spec) \<and> utf8_opt (s_target_folder spec) \<and>
    utf8_opt (s_landing_filename spec) \<and> utf8_opt (s_landing_folder spec) \<and>
    utf8_opt (s_creator_process spec) \<and> utf8_opt (s_creator_comm spec)"

text \<open>A recursive folder is stored plainly.\<close>

definition rec_plain :: "rule_spec \<Rightarrow> bool" where
  "rec_plain spec \<longleftrightarrow>
    (flag_set (s_flags spec) TARGET_FOLDER_RECURSIVE \<longrightarrow>
      \<not> needs_b64 (or_default (s_target_folder spec))) \<and>
    (flag_set (s_flags spec) LANDING_FOLDER_RECURSIVE \<longrightarrow>
      \<not> needs_b64 (or_default (s_landing_folder spec)))"

lemma show_u32_digits: "c \<in> set (show_u32 u) \<Longrightarrow> c \<in> digit_char ` {..<10}"
  using set_show_radix [of 10 "unat u"] by (auto simp: show_u32_def)

lemma digit_line_byte:
  assumes "c \<in> digit_char ` {..<r}" "r \<le> 16"
  shows "line_byte c \<and> solid c \<and> c \<noteq> CHR 0x0A"
proof -
  have rng: "48 \<le> (of_char c :: nat) \<and> (of_char c :: nat) \<le> 122" "c \<noteq> CHR '';''"
    using digit_set_range [OF assms(1)] assms(2) by simp_all
  then have "solid c" by (intro solid_ascii) simp_all
  moreover have "c \<noteq> CHR ''#''" "c \<noteq> CHR 0x0A" using rng(1) by (cases "c = CHR ''#''"; cases "c = CHR 0x0A"; simp)+
  ultimately show ?thesis using rng by (simp add: line_byte_def control_byte_def)
qed

lemma show_u32_safe: "line_safe (show_u32 u)"
proof -
  have d: "line_byte c \<and> solid c" if "c \<in> set (show_u32 u)" for c
    using digit_line_byte [OF show_u32_digits [OF that]] by simp
  have "show_u32 u \<noteq> []" by (simp add: show_u32_def)
  then have "trimmed (show_u32 u)" using d by (intro trimmed_solid_all) simp_all
  with d show ?thesis by (simp add: line_safe_def)
qed

lemma show_u32_utf8: "utf8_valid (show_u32 u)"
  using digit_set_range [OF show_u32_digits, of _ u] by (intro utf8_valid_ascii) fastforce

lemma b64_prefix_iff: "str_starts_with B64_PREFIX v \<longleftrightarrow> take 4 v = ''b64:''"
  by (simp add: str_starts_with_def B64_PREFIX_def eval_nat_numeral)

lemma show_u32_plain: "\<not> str_starts_with B64_PREFIX (show_u32 u)"
proof
  assume "str_starts_with B64_PREFIX (show_u32 u)"
  then have "take 4 (show_u32 u) = ''b64:''" by (simp only: b64_prefix_iff)
  then have "CHR '':'' \<in> set (show_u32 u)" by (metis in_set_takeD list.set_intros)
  from show_u32_digits [OF this] obtain d where "d < 10" "CHR '':'' = digit_char d" by auto
  then have "(of_char (CHR '':'') :: nat) = 48 + d" by (simp add: digit_char_def)
  with \<open>d < 10\<close> show False by simp
qed

lemma decode_plain: "\<not> str_starts_with B64_PREFIX v \<Longrightarrow> decode_value E v = v"
  by (simp add: decode_value_def str_strip_prefix_None [THEN iffD2])

lemma star_safe:
  assumes "\<not> needs_b64 f"
  shows "line_safe (f @ ''*'')" "\<not> str_starts_with B64_PREFIX (f @ ''*'')"
proof -
  have f: "line_safe f" "\<not> str_starts_with B64_PREFIX f" using assms by (simp_all add: needs_b64_iff)
  then show "line_safe (f @ ''*'')"
    using trimmed_solid_snoc [of "CHR ''*''" f]
    by (simp add: line_safe_def line_byte_def control_byte_def solid_ascii)
  show "\<not> str_starts_with B64_PREFIX (f @ ''*'')"
  proof
    assume "str_starts_with B64_PREFIX (f @ ''*'')"
    then have a: "take 4 (f @ ''*'') = ''b64:''" by (simp only: b64_prefix_iff)
    have "\<not> 4 \<le> length f" using f(2) a by (auto simp: b64_prefix_iff)
    then have "take 4 (f @ ''*'') = f @ ''*''" by simp
    with a have "last (f @ ''*'') = CHR '':''" by simp
    then show False by simp
  qed
qed

context base64_standard
begin

lemma folder_line_ok:
  assumes "utf8_valid f" "flag_set (s_flags spec) rbit \<longrightarrow> \<not> needs_b64 f"
  shows "line_safe (folder_line E spec rbit f)"
    and "decode_value E (folder_line E spec rbit f) =
      f @ (if flag_set (s_flags spec) rbit then ''*'' else [])"
  using assms star_safe [of f] encode_value_safe [of f] decode_encode_value [of f]
  by (auto simp: folder_line_def Let_def encode_value_def decode_plain)

lemma dim_line_ok:
  assumes "spec_ok spec" "spec_utf8 spec" "rec_plain spec" "flag_set (s_flags spec) (dim_bit d)"
  obtains v where "dim_line E spec d = Some v" "line_safe v"
    "decode_value E v = component_value spec d"
proof -
  have "has_value spec d" using assms(1,4) unfolding spec_ok_iff by blast
  then show ?thesis
    using assms(2,3) that folder_line_ok
    by (cases d) (auto simp: spec_utf8_def utf8_opt_def rec_plain_def or_default_def
      encode_value_safe decode_encode_value show_u32_safe show_u32_plain decode_plain)
qed

end

lemma line_parts_safe_part:
  assumes "line_safe v"
  shows "trimmed (as_key d @ ''='' @ v)" "str_trim (as_key d @ ''='' @ v) = as_key d @ ''='' @ v"
    "\<forall>b \<in> set (as_key d @ ''='' @ v). line_byte b"
proof -
  have "trimmed v" using assms by (simp add: line_safe_def)
  with as_key_trimmed [of d] trimmed_solid [of "CHR ''=''" "as_key d" v]
  show t: "trimmed (as_key d @ ''='' @ v)" by (simp add: trimmed_def solid_ascii)
  show "str_trim (as_key d @ ''='' @ v) = as_key d @ ''='' @ v" by (rule str_trim_trimmed [OF t])
  show "\<forall>b \<in> set (as_key d @ ''='' @ v). line_byte b"
    using assms as_key_bytes [of d] by (auto simp: line_safe_def line_byte_def control_byte_def)
qed

lemma parse_conds_part:
  assumes "line_safe v"
  shows "parse_conds E ((as_key d @ CHR ''='' # v) # cs) spec =
    (case rule_set d (decode_value E v) spec of (spec', err) \<Rightarrow>
       (case err of None \<Rightarrow> parse_conds E cs spec' | Some e \<Rightarrow> Inl (InCondition (as_key d) v e)))"
proof -
  have "str_split_once (CHR ''='') (as_key d @ ''='' @ v) = Some (as_key d, v)"
    using as_key_bytes [of d] str_split_once_append [of "CHR ''=''" "as_key d" v] by auto
  moreover have "str_trim v = v" "str_trim (as_key d) = as_key d"
    using assms as_key_trimmed by (simp_all add: line_safe_def str_trim_trimmed)
  ultimately show ?thesis
    using line_parts_safe_part(2) [OF assms, of d]
    by (simp add: Let_def)
qed

lemma project_keeps_unset:
  assumes "spec_ok spec" "d \<noteq> e"
  shows "flag_set (s_flags (project_step spec out d)) (dim_bit e) \<longleftrightarrow> flag_set (s_flags out) (dim_bit e)"
proof -
  have "flag_set (rec_bit d) (dim_bit e) \<longleftrightarrow> False" by (cases d) (simp_all add: dim_bits_apart)
  then have "\<not> flag_set (dim_bit d OR rec_bit d) (dim_bit e)"
    using assms(2) by (simp add: flags_or dim_bits_apart)
  then have "\<not> flag_set (s_flags spec AND (dim_bit d OR rec_bit d)) (dim_bit e)"
    by (simp add: and.assoc)
  then show ?thesis by (simp add: project_flags [OF assms(1)] flags_or)
qed

context base64_standard
begin

lemma parse_line_parts:
  assumes "spec_ok spec" "spec_utf8 spec" "rec_plain spec"
  shows "distinct ds \<Longrightarrow> \<forall>d \<in> set ds. \<not> flag_set (s_flags out) (dim_bit d) \<Longrightarrow>
    parse_conds E (line_parts E spec ds) out = Inr (foldl (project_step spec) out ds)"
proof (induction ds arbitrary: out)
  case (Cons d ds)
  show ?case
  proof (cases "flag_set (s_flags spec) (dim_bit d)")
    case True
    obtain v where v: "dim_line E spec d = Some v" "line_safe v"
      "decode_value E v = component_value spec d"
      using dim_line_ok [OF assms True] .
    have "\<not> flag_set (s_flags (project_step spec out d)) (dim_bit e)" if "e \<in> set ds" for e
    proof -
      have "d \<noteq> e" using Cons.prems that by auto
      from project_keeps_unset [OF assms(1) this] Cons.prems that show ?thesis by simp
    qed
    with Cons.IH Cons.prems v True show ?thesis
      by (simp add: parse_conds_part set_component [OF assms(1)] del: parse_conds.simps)
  next
    case False
    with Cons show ?thesis by (simp add: project_step_def)
  qed
qed simp

lemma line_parts_safe:
  assumes "spec_ok spec" "spec_utf8 spec" "rec_plain spec"
  shows "\<forall>p \<in> set (line_parts E spec ds). trimmed p \<and> p \<noteq> [] \<and> (\<forall>b \<in> set p. line_byte b)"
proof (induction ds)
  case (Cons d ds)
  show ?case
  proof (cases "flag_set (s_flags spec) (dim_bit d)")
    case True
    obtain v where "dim_line E spec d = Some v" "line_safe v"
      using dim_line_ok [OF assms True] .
    with Cons True line_parts_safe_part [of v d] show ?thesis by simp
  qed (use Cons in simp)
qed simp

lemma encode_value_utf8: "utf8_valid v \<Longrightarrow> utf8_valid (encode_value E v)"
proof -
  have "(of_char c :: nat) < 0x80" if "c \<in> set (B64_PREFIX @ b64 E v)" for c
    using that b64_symbol_range [OF encode_alphabet, of c v] by (auto simp: B64_PREFIX_def b64_def)
  then have "utf8_valid (B64_PREFIX @ b64 E v)" by (intro utf8_valid_ascii) blast
  then show "utf8_valid v \<Longrightarrow> utf8_valid (encode_value E v)" by (simp add: encode_value_def)
qed

lemma dim_line_utf8:
  assumes "spec_utf8 spec" "dim_line E spec d = Some v"
  shows "utf8_valid v"
proof -
  have "utf8_valid ''*''" by (intro utf8_valid_ascii) simp
  then show ?thesis
    using assms encode_value_utf8 show_u32_utf8
    by (cases d) (auto simp: spec_utf8_def utf8_opt_def folder_line_def Let_def utf8_valid_append)
qed

lemma line_parts_utf8:
  assumes "spec_utf8 spec"
  shows "\<forall>p \<in> set (line_parts E spec ds). utf8_valid p"
proof (induction ds)
  case (Cons d ds)
  have "utf8_valid (as_key d)" "utf8_valid ''=''"
    by (intro utf8_valid_ascii, cases d; simp)+
  with Cons dim_line_utf8 [OF assms, of d] show ?case
    by (auto simp: utf8_valid_append utf8_valid_ascii_Cons split: option.splits)
qed simp

text \<open>The line is one line of the file: valid, without a comment, and not touched by trimming.\<close>

lemma to_line_safe:
  assumes "spec_ok spec" "spec_utf8 spec" "rec_plain spec"
  shows "trimmed (to_line E spec)" "\<forall>b \<in> set (to_line E spec). \<not> control_byte b \<and> b \<noteq> CHR ''#''"
    "utf8_valid (to_line E spec)"
proof -
  note safe = line_parts_safe [OF assms, of DIM_ORDER]
  show "trimmed (to_line E spec)"
    unfolding to_line_def by (rule trimmed_join) (use safe in \<open>simp_all add: solid_ascii\<close>)
  show "\<forall>b \<in> set (to_line E spec). \<not> control_byte b \<and> b \<noteq> CHR ''#''"
  proof
    fix b assume "b \<in> set (to_line E spec)"
    then have "b = CHR '';'' \<or> (\<exists>p \<in> set (line_parts E spec DIM_ORDER). b \<in> set p)"
      using set_str_join [of "'';''" "line_parts E spec DIM_ORDER"] unfolding to_line_def by auto
    then show "\<not> control_byte b \<and> b \<noteq> CHR ''#''"
      using safe by (elim disjE bexE) (simp add: control_byte_def, simp add: line_byte_def)
  qed
  have "utf8_valid '';''" by (intro utf8_valid_ascii) simp
  then show "utf8_valid (to_line E spec)"
    unfolding to_line_def by (rule utf8_valid_join) (rule line_parts_utf8 [OF assms(2)])
qed

lemma parse_to_line:
  assumes "spec_ok spec" "spec_utf8 spec" "rec_plain spec" "s_flags spec \<noteq> 0"
  shows "rule_parse E (to_line E spec) = Inr spec"
proof -
  let ?ps = "line_parts E spec DIM_ORDER"
  have fold: "parse_conds E ?ps default_spec = Inr spec"
    using parse_line_parts [OF assms(1-3) distinct_DIM_ORDER, of default_spec] project_all [OF assms(1)]
    by (simp add: project_def default_spec_def)
  have ne: "?ps \<noteq> []"
  proof
    assume "?ps = []"
    with fold have "spec = default_spec" by simp
    with assms(4) show False by (simp add: default_spec_def)
  qed
  have "\<forall>p \<in> set ?ps. CHR '';'' \<notin> set p"
    using line_parts_safe [OF assms(1-3)] by (fastforce simp: line_byte_def)
  then have "str_split (CHR '';'') (to_line E spec) = ?ps"
    unfolding to_line_def by (rule str_split_join [OF ne])
  with fold assms(4) show ?thesis by (simp add: rule_parse_def)
qed

end

section \<open>Properties\<close>

text \<open>
  Every rule that parses is well-formed: it has a condition, a value exactly for the flags it
  sets, folders that end in a slash, a recursive modifier only with its folder, and a command
  name that fits the kernel's buffer.
\<close>

theorem parsed_rule_ok:
  assumes "rule_parse E line = Inr spec"
  shows "spec_ok spec \<and> s_flags spec \<noteq> 0"
  by (rule rule_parse_ok [OF assms])

definition uid_spec :: rule_spec where
  "uid_spec = default_spec\<lparr>s_flags := CREATOR_UID, s_creator_uid := Some 7\<rparr>"

lemma uid_spec_ok: "spec_ok uid_spec" "spec_utf8 uid_spec" "rec_plain uid_spec" "s_flags uid_spec \<noteq> 0"
  by (simp_all add: uid_spec_def default_spec_def spec_ok_def DIM_ORDER_def dim_consts folder_ok_def
    comm_ok_def spec_utf8_def utf8_opt_def rec_plain_def)

lemma uid_spec_line: "to_line E uid_spec = ''creator_uid=7''"
proof -
  have "digit_char 7 = CHR ''7''"
    by (rule injD [OF inj_of_char [where ?'a = nat]]) (simp add: digit_char_def)
  then show ?thesis
    by (simp add: to_line_def DIM_ORDER_def uid_spec_def default_spec_def dim_consts show_u32_def
      show_radix.simps)
qed

theorem parsed_rule_ok_witness: "spec_ok uid_spec \<and> s_flags uid_spec \<noteq> 0"
  using parsed_rule_ok [OF rfc4648.parse_to_line [OF uid_spec_ok]] .

text \<open>
  C17: A rule survives its line form: writing a well-formed rule and parsing the line gives the
  rule back, for every path, name and uid in it, with the folder of a recursive dimension
  restricted to text that needs no base64.
\<close>

theorem rule_line_roundtrip:
  assumes "base64_standard E" "spec_ok spec" "spec_utf8 spec" "rec_plain spec" "s_flags spec \<noteq> 0"
  shows "rule_parse E (to_line E spec) = Inr spec"
  by (rule base64_standard.parse_to_line [OF assms])

theorem rule_line_roundtrip_witness:
  "rule_parse rfc4648_engine ''creator_uid=7'' = Inr uid_spec"
  using rule_line_roundtrip [OF rfc4648.base64_standard_axioms uid_spec_ok] by (simp add: uid_spec_line)

text \<open>
  C34: A recursive folder that needs base64 does not survive: its line is read back as a rule for
  the folder literally named \<open>b64:...\<close>, because the \<open>*\<close> appended after the encoding makes the value
  undecodable.
\<close>

theorem recursive_b64_misread:
  assumes "base64_standard E" "needs_b64 f" "str_ends_with_char SLASH f"
    and "spec = default_spec\<lparr>s_flags := TARGET_FOLDER OR TARGET_FOLDER_RECURSIVE, s_target_folder := Some f\<rparr>"
  shows "rule_parse E (to_line E spec) =
    Inr (spec\<lparr>s_target_folder := Some (normalize_folder (B64_PREFIX @ b64 E f))\<rparr>)"
proof -
  let ?v = "B64_PREFIX @ b64 E f @ ''*''"
  have line: "to_line E spec = as_key TargetFolder @ CHR ''='' # ?v"
    using assms(2) by (simp add: assms(4) to_line_def DIM_ORDER_def default_spec_def dim_consts
      folder_line_def encode_value_def)
  have e: "\<forall>c \<in> set (b64 E f). b64_symbol c"
    using base64_standard.encode_alphabet [OF assms(1)] by (simp add: b64_def)
  then have safe: "line_safe ?v"
    using b64_form_safe [OF e] trimmed_solid_snoc [of "CHR ''*''" "B64_PREFIX @ b64 E f"]
    by (simp add: line_safe_def line_byte_def control_byte_def solid_ascii)
  have "\<forall>b \<in> set (as_key TargetFolder @ CHR ''='' # ?v). line_byte b"
    using line_parts_safe_part(3) [OF safe, of TargetFolder] by simp
  then have "CHR '';'' \<notin> set (to_line E spec)" unfolding line line_byte_def by blast
  then have "str_split (CHR '';'') (to_line E spec) = [as_key TargetFolder @ CHR ''='' # ?v]"
    by (simp add: str_split_none line)
  moreover have "split_recursive ?v = (B64_PREFIX @ b64 E f, True)"
    using split_recursive_star [of "B64_PREFIX @ b64 E f"] by simp
  ultimately show ?thesis
    using base64_standard.decode_b64_star [OF assms(1), of "b64 E f"] parse_conds_part [OF safe, of E TargetFolder]
    by (simp add: rule_parse_def rule_set_def Let_def default_spec_def assms(4) dim_consts del: parse_conds.simps)
      (simp)
qed

definition odd_folder_spec :: "string \<Rightarrow> rule_spec" where
  "odd_folder_spec f = default_spec\<lparr>s_flags := TARGET_FOLDER OR TARGET_FOLDER_RECURSIVE,
     s_target_folder := Some f\<rparr>"

theorem recursive_b64_misread_witness:
  "rule_parse rfc4648_engine (to_line rfc4648_engine (odd_folder_spec ''/a;/'')) =
    Inr (odd_folder_spec ''b64:L2E7Lw==/'')"
proof -
  have "needs_b64 ''/a;/''" "str_ends_with_char SLASH ''/a;/''"
    by (simp_all add: needs_b64_def str_ends_with_char_def)
  moreover have "normalize_folder (B64_PREFIX @ b64 rfc4648_engine ''/a;/'') = ''b64:L2E7Lw==/''"
    by (simp add: normalize_folder_def str_ends_with_char_def b64_def rfc4648_engine_def b64_char_def
      b64_alphabet_def B64_PREFIX_def)
  ultimately show ?thesis
    using recursive_b64_misread [OF rfc4648.base64_standard_axioms _ _ odd_folder_spec_def, of "''/a;/''"]
    by (simp add: odd_folder_spec_def)
qed

end
