(* ===== verification/Kernel_Match.thy ===== *)
theory Kernel_Match
  imports Kernel_State Rule_Lines
begin

text \<open>
  The in-kernel allowlist decision: \<open>check_allowlist\<close>, its \<open>bpf_loop\<close> callback \<open>allow_step\<close> and the
  folder comparisons. \<open>rule_permits\<close> is the reference meaning of one packed rule, \<open>spec_matches\<close>
  the meaning of a rule file line on the strings themselves; the lemmas connect the three.
\<close>

section \<open>The decision\<close>

record allow_ctx =
  a_origin :: origin_record
  a_exec_uid :: u32
  a_count :: u32
  a_found :: u32
  target_full_hash :: u64
  target_parent_hash :: u64

fun array_scan :: "u64 list \<Rightarrow> u64 \<Rightarrow> bool \<Rightarrow> bool" where
  "array_scan [] needle found = found"
| "array_scan (a # as) needle found = array_scan as needle (if a = needle then True else found)"

definition landing_folder_match :: "origin_record \<Rightarrow> u64 \<Rightarrow> bool" where
  "landing_folder_match origin needle =
    (if needle = 0 then False
     else if landing_folder_hash origin = needle then True
     else array_scan (landing_ancestor_hashes origin) needle False)"

definition target_folder_match :: "allow_ctx \<Rightarrow> u64 list \<Rightarrow> u64 \<Rightarrow> bool" where
  "target_folder_match ctx anc needle =
    (if needle = 0 then False
     else if target_parent_hash ctx = needle then True
     else array_scan anc needle False)"

fun comm_eq_from :: "nat \<Rightarrow> nat \<Rightarrow> bytes \<Rightarrow> bytes \<Rightarrow> bool \<Rightarrow> bool" where
  "comm_eq_from i 0 a b eq = eq"
| "comm_eq_from i (Suc n) a b eq =
    comm_eq_from (Suc i) n a b (if byte_at a i \<noteq> byte_at b i then False else eq)"

definition comm_eq :: "bytes \<Rightarrow> bytes \<Rightarrow> bool" where
  "comm_eq a b = comm_eq_from 0 COMM_LEN a b True"

definition allow_step :: "allow_rule list \<Rightarrow> u64 list \<Rightarrow> nat \<Rightarrow> allow_ctx \<Rightarrow> allow_ctx \<times> bool" where
  "allow_step rules anc i ctx =
    (if unat (a_count ctx) \<le> i then (ctx, True)
     else if length rules \<le> i then (ctx, True)
     else let rule = rules ! i; f = r_flags rule; origin = a_origin ctx in
     if f = 0 then (ctx, False)
     else if flag_set f CREATOR_UID \<and> r_creator_uid rule \<noteq> creator_uid origin then (ctx, False)
     else if flag_set f EXECUTION_UID \<and> r_execution_uid rule \<noteq> a_exec_uid ctx then (ctx, False)
     else if flag_set f CREATOR_COMM \<and> \<not> comm_eq (r_creator_comm rule) (comm origin)
     then (ctx, False)
     else if flag_set f CREATOR_PROCESS \<and>
       (creator_path_hash origin = 0 \<or> creator_path_hash origin \<noteq> r_creator_process_hash rule)
     then (ctx, False)
     else if flag_set f LANDING_FILENAME \<and>
       landing_basename_hash origin \<noteq> r_landing_filename_hash rule
     then (ctx, False)
     else if flag_set f LANDING_FOLDER \<and>
       \<not> (if flag_set f LANDING_FOLDER_RECURSIVE
          then landing_folder_match origin (r_landing_folder_hash rule)
          else r_landing_folder_hash rule \<noteq> 0 \<and>
            landing_folder_hash origin = r_landing_folder_hash rule)
     then (ctx, False)
     else if flag_set f TARGET_FILENAME \<and> target_full_hash ctx \<noteq> r_target_filename_hash rule
     then (ctx, False)
     else if flag_set f TARGET_FOLDER \<and>
       \<not> (if flag_set f TARGET_FOLDER_RECURSIVE
          then target_folder_match ctx anc (r_target_folder_hash rule)
          else r_target_folder_hash rule \<noteq> 0 \<and>
            target_parent_hash ctx = r_target_folder_hash rule)
     then (ctx, False)
     else (ctx\<lparr>a_found := 1\<rparr>, True))"

definition check_allowlist :: "env \<Rightarrow> kernel \<Rightarrow> bytes \<Rightarrow> origin_record \<Rightarrow> bool" where
  "check_allowlist e k filename origin =
    (let count = array_get (ALLOW_RULE_COUNT k) 0 in
     if count = 0 then False
     else let n = (if MAX_RULES < unat count then of_nat MAX_RULES else count) in
       case hash_key k of (a, b) \<Rightarrow>
       case target_hashes filename a b of (full, anc, parent) \<Rightarrow>
         let ctx = \<lparr>a_origin = origin, a_exec_uid = current_uid e, a_count = n, a_found = 0,
               target_full_hash = full, target_parent_hash = parent\<rparr>;
             ctx = bpf_loop (unat n) (allow_step (ALLOW_RULES k) anc) ctx
         in a_found ctx \<noteq> 0)"

section \<open>The meaning of one packed rule\<close>

definition dim_permits :: "u32 \<Rightarrow> u32 \<Rightarrow> bool \<Rightarrow> bool" where
  "dim_permits f d cond \<longleftrightarrow> (flag_set f d \<longrightarrow> cond)"

definition folder_permits :: "bool \<Rightarrow> u64 \<Rightarrow> u64 list \<Rightarrow> u64 \<Rightarrow> bool" where
  "folder_permits recursive parent anc needle \<longleftrightarrow>
    needle \<noteq> 0 \<and> (parent = needle \<or> (recursive \<and> needle \<in> set anc))"

definition rule_permits :: "u32 \<Rightarrow> u64 \<times> u64 list \<times> u64 \<Rightarrow> origin_record \<Rightarrow> allow_rule \<Rightarrow> bool" where
  "rule_permits uid target origin rule =
    (case target of (full, anc, parent) \<Rightarrow>
     let f = r_flags rule in
       f \<noteq> 0 \<and>
       dim_permits f CREATOR_UID (r_creator_uid rule = creator_uid origin) \<and>
       dim_permits f EXECUTION_UID (r_execution_uid rule = uid) \<and>
       dim_permits f CREATOR_COMM (comm_eq (r_creator_comm rule) (comm origin)) \<and>
       dim_permits f CREATOR_PROCESS
         (creator_path_hash origin \<noteq> 0 \<and> creator_path_hash origin = r_creator_process_hash rule) \<and>
       dim_permits f LANDING_FILENAME
         (landing_basename_hash origin = r_landing_filename_hash rule) \<and>
       dim_permits f LANDING_FOLDER
         (folder_permits (flag_set f LANDING_FOLDER_RECURSIVE) (landing_folder_hash origin)
           (landing_ancestor_hashes origin) (r_landing_folder_hash rule)) \<and>
       dim_permits f TARGET_FILENAME (full = r_target_filename_hash rule) \<and>
       dim_permits f TARGET_FOLDER
         (folder_permits (flag_set f TARGET_FOLDER_RECURSIVE) parent anc
           (r_target_folder_hash rule)))"

lemma array_scan_iff: "array_scan as n found \<longleftrightarrow> found \<or> n \<in> set as"
  by (induction as n found rule: array_scan.induct) auto

lemma landing_folder_match_iff:
  "landing_folder_match origin n \<longleftrightarrow>
    folder_permits True (landing_folder_hash origin) (landing_ancestor_hashes origin) n"
  by (simp add: landing_folder_match_def folder_permits_def array_scan_iff)

lemma target_folder_match_iff:
  "target_folder_match ctx anc n \<longleftrightarrow> folder_permits True (target_parent_hash ctx) anc n"
  by (simp add: target_folder_match_def folder_permits_def array_scan_iff)

lemma folder_permits_exact: "folder_permits False p anc n \<longleftrightarrow> n \<noteq> 0 \<and> p = n"
  by (simp add: folder_permits_def)

lemma comm_eq_from_iff:
  "comm_eq_from i n a b eq \<longleftrightarrow> eq \<and> (\<forall>j. i \<le> j \<and> j < i + n \<longrightarrow> byte_at a j = byte_at b j)"
proof (induction i n a b eq rule: comm_eq_from.induct)
  case (2 i n a b eq)
  have "(\<forall>j. i \<le> j \<and> j < i + Suc n \<longrightarrow> byte_at a j = byte_at b j) \<longleftrightarrow>
    byte_at a i = byte_at b i \<and> (\<forall>j. Suc i \<le> j \<and> j < Suc i + n \<longrightarrow> byte_at a j = byte_at b j)"
    by (metis Suc_leI add_Suc_right add_Suc le_neq_implies_less less_add_Suc1 order_refl le_Suc_eq
      Suc_le_eq less_or_eq_imp_le)
  with 2 show ?case by simp
qed auto

lemma comm_eq_iff:
  assumes "length a = COMM_LEN" "length b = COMM_LEN"
  shows "comm_eq a b \<longleftrightarrow> a = b"
  using assms by (auto simp: comm_eq_def comm_eq_from_iff byte_at_def intro: nth_equalityI)

lemma folder_select:
  "(if b then folder_permits True p anc n else n \<noteq> 0 \<and> p = n) \<longleftrightarrow> folder_permits b p anc n"
  by (simp add: folder_permits_exact)

lemma if_merge: "(if P then x else if Q then x else y) = (if P \<or> Q then x else y)"
  by simp

text \<open>One iteration: break with \<open>found\<close> on a matching rule, continue otherwise.\<close>

lemma allow_step_eq:
  assumes "i < unat (a_count ctx)" "i < length rules"
  shows "allow_step rules anc i ctx =
    (if rule_permits (a_exec_uid ctx) (target_full_hash ctx, anc, target_parent_hash ctx)
          (a_origin ctx) (rules ! i)
     then (ctx\<lparr>a_found := 1\<rparr>, True) else (ctx, False))"
proof -
  let ?ok = "rule_permits (a_exec_uid ctx) (target_full_hash ctx, anc, target_parent_hash ctx)
    (a_origin ctx) (rules ! i)"
  have "\<not> unat (a_count ctx) \<le> i" "\<not> length rules \<le> i" using assms by simp_all
  then have "allow_step rules anc i ctx = (if \<not> ?ok then (ctx, False) else (ctx\<lparr>a_found := 1\<rparr>, True))"
    unfolding allow_step_def Let_def if_merge landing_folder_match_iff target_folder_match_iff
      rule_permits_def prod.case dim_permits_def folder_select
    by (simp only: if_False simp_thms) (rule if_cong; blast)
  then show ?thesis by simp
qed

section \<open>The loop over the rules\<close>

definition active_rules :: "kernel \<Rightarrow> allow_rule list" where
  "active_rules k =
    take (min (unat (array_get (ALLOW_RULE_COUNT k) 0)) MAX_RULES) (ALLOW_RULES k)"

lemma allow_loop:
  assumes "a_found ctx = 0" "unat (a_count ctx) = n"
  shows "a_found (bpf_loop_from i n (allow_step rules anc) ctx) \<noteq> 0 \<longleftrightarrow>
    (\<exists>rule \<in> set (drop i (take n rules)).
      rule_permits (a_exec_uid ctx) (target_full_hash ctx, anc, target_parent_hash ctx)
        (a_origin ctx) rule)"
proof (induction "n - i" arbitrary: i)
  case 0
  then show ?case using assms by (subst bpf_loop_from.simps) simp
next
  case (Suc m)
  then have i: "i < n" and m: "m = n - Suc i" by auto
  show ?case
  proof (cases "i < length rules")
    case True
    with i have "drop i (take n rules) = rules ! i # drop (Suc i) (take n rules)"
      by (simp add: Cons_nth_drop_Suc [symmetric])
    with Suc.hyps(1) [OF m] allow_step_eq [of i ctx rules anc] True i assms show ?thesis
      by (subst bpf_loop_from.simps) simp
  next
    case False
    with i assms show ?thesis by (subst bpf_loop_from.simps) (simp add: allow_step_def)
  qed
qed

lemma check_allowlist_iff:
  "check_allowlist e k filename origin \<longleftrightarrow>
    (\<exists>rule \<in> set (active_rules k).
      rule_permits (current_uid e) (case hash_key k of (a, b) \<Rightarrow> target_hashes filename a b)
        origin rule)"
proof -
  let ?count = "array_get (ALLOW_RULE_COUNT k) 0"
  obtain a b where key: "hash_key k = (a, b)" by fastforce
  obtain full anc parent where t: "target_hashes filename a b = (full, anc, parent)"
    using prod_cases3 by blast
  let ?n = "if MAX_RULES < unat ?count then of_nat MAX_RULES else ?count"
  have n: "unat ?n = min (unat ?count) MAX_RULES"
    by (simp add: size_consts unat_of_nat_u32 min_def)
  show ?thesis
  proof (cases "?count = 0")
    case True
    then show ?thesis by (simp add: check_allowlist_def active_rules_def)
  next
    case False
    let ?ctx = "\<lparr>a_origin = origin, a_exec_uid = current_uid e, a_count = ?n, a_found = 0,
      target_full_hash = full, target_parent_hash = parent\<rparr>"
    have "check_allowlist e k filename origin \<longleftrightarrow>
        a_found (bpf_loop_from 0 (unat ?n) (allow_step (ALLOW_RULES k) anc) ?ctx) \<noteq> 0"
      using False by (simp add: check_allowlist_def key t Let_def bpf_loop_def)
    also have "\<dots> \<longleftrightarrow> (\<exists>rule \<in> set (drop 0 (take (unat ?n) (ALLOW_RULES k))).
        rule_permits (a_exec_uid ?ctx) (target_full_hash ?ctx, anc, target_parent_hash ?ctx)
          (a_origin ?ctx) rule)"
      by (rule allow_loop) simp_all
    finally show ?thesis by (simp add: active_rules_def n key t)
  qed
qed

section \<open>The meaning of a rule line\<close>

text \<open>The strings a decision is about.\<close>

record exec_facts =
  x_target :: bytes
  x_landing :: bytes
  x_creator :: "string option"
  x_comm :: bytes
  x_creator_uid :: u32
  x_exec_uid :: u32

text \<open>The record that \<open>file_open\<close> and the back-fill leave for those facts.\<close>

definition describes :: "u64 \<Rightarrow> u64 \<Rightarrow> origin_record \<Rightarrow> exec_facts \<Rightarrow> bool" where
  "describes a b r x \<longleftrightarrow>
    comm r = x_comm x \<and> creator_uid r = x_creator_uid x \<and>
    creator_path_hash r = (case x_creator x of Some c \<Rightarrow> siphash a b c | None \<Rightarrow> 0) \<and>
    landing_folder_hash r = parent_hash a b (x_landing x) \<and>
    landing_ancestor_hashes r = ancestor_hashes a b (x_landing x) \<and>
    landing_basename_hash r = siphash a b (base_part (x_landing x))"

definition when_set :: "'a option \<Rightarrow> ('a \<Rightarrow> bool) \<Rightarrow> bool" where
  "when_set v P = (case v of None \<Rightarrow> True | Some y \<Rightarrow> P y)"

text \<open>The folder of a path, or with \<open>*\<close> one of its 32 deepest ancestors.\<close>

definition in_folder :: "bool \<Rightarrow> bytes \<Rightarrow> string \<Rightarrow> bool" where
  "in_folder recursive p f \<longleftrightarrow>
    (SLASH \<in> set p \<and> f = dir_part p) \<or>
    (recursive \<and> f \<in> set (drop (length (slash_prefixes p) - 32) (slash_prefixes p)))"

definition spec_matches :: "rule_spec \<Rightarrow> exec_facts \<Rightarrow> bool" where
  "spec_matches spec x \<longleftrightarrow>
    when_set (s_creator_uid spec) (\<lambda>u. u = x_creator_uid x) \<and>
    when_set (s_execution_uid spec) (\<lambda>u. u = x_exec_uid x) \<and>
    when_set (s_creator_comm spec) (\<lambda>c. pad_comm c = x_comm x) \<and>
    when_set (s_creator_process spec) (\<lambda>p. x_creator x = Some p) \<and>
    when_set (s_landing_filename spec) (\<lambda>n. n = base_part (x_landing x)) \<and>
    when_set (s_landing_folder spec)
      (in_folder (flag_set (s_flags spec) LANDING_FOLDER_RECURSIVE) (x_landing x)) \<and>
    when_set (s_target_filename spec) (\<lambda>p. p = x_target x) \<and>
    when_set (s_target_folder spec)
      (in_folder (flag_set (s_flags spec) TARGET_FOLDER_RECURSIVE) (x_target x))"

text \<open>No two of the strings in play share a hash, and none hashes to the reserved zero.\<close>

definition opt_strings :: "string option \<Rightarrow> string list" where
  "opt_strings v = (case v of None \<Rightarrow> [] | Some s \<Rightarrow> [s])"

definition strings_in_play :: "rule_spec \<Rightarrow> exec_facts \<Rightarrow> string list" where
  "strings_in_play spec x =
    [x_target x, base_part (x_landing x)] @ slash_prefixes (x_target x) @
    slash_prefixes (x_landing x) @ opt_strings (x_creator x) @
    opt_strings (s_target_filename spec) @ opt_strings (s_target_folder spec) @
    opt_strings (s_landing_filename spec) @ opt_strings (s_landing_folder spec) @
    opt_strings (s_creator_process spec)"

definition no_collision :: "u64 \<Rightarrow> u64 \<Rightarrow> string list \<Rightarrow> bool" where
  "no_collision a b ss \<longleftrightarrow>
    (\<forall>s \<in> set ss. siphash a b s \<noteq> 0 \<and> (\<forall>t \<in> set ss. siphash a b s = siphash a b t \<longrightarrow> s = t))"

lemma no_collisionD:
  "no_collision a b ss \<Longrightarrow> s \<in> set ss \<Longrightarrow> siphash a b s \<noteq> 0"
  "no_collision a b ss \<Longrightarrow> s \<in> set ss \<Longrightarrow> t \<in> set ss \<Longrightarrow>
    siphash a b s = siphash a b t \<longleftrightarrow> s = t"
  by (auto simp: no_collision_def)

lemma folder_permits_hashes:
  assumes "no_collision a b ss" "f \<in> set ss" "set (slash_prefixes p) \<subseteq> set ss"
  shows "folder_permits r (parent_hash a b p) (ancestor_hashes a b p) (siphash a b f) \<longleftrightarrow>
    in_folder r p f"
proof -
  let ?q = "slash_prefixes p" let ?d = "length ?q - 32"
  have nz: "siphash a b f \<noteq> 0" using no_collisionD(1) assms by blast
  have "dir_part p \<in> set ss" if "SLASH \<in> set p"
    using that assms(3) last_slash_prefix [of p] slash_prefixes_empty_iff [of p]
    by (metis last_in_set subsetD)
  then have parent: "parent_hash a b p = siphash a b f \<longleftrightarrow> SLASH \<in> set p \<and> f = dir_part p"
    using no_collisionD [OF assms(1)] assms(2) nz by (auto simp: parent_hash_def)
  have "siphash a b f \<in> set (ancestor_hashes a b p) \<longleftrightarrow>
      siphash a b f \<in> siphash a b ` set (drop ?d ?q)"
    using in_ancestor_array [OF nz, of "map (siphash a b) ?q"]
    by (simp add: ancestor_hashes_def drop_map)
  also have "\<dots> \<longleftrightarrow> f \<in> set (drop ?d ?q)"
    using no_collisionD(2) [OF assms(1,2)] assms(3) set_drop_subset [of ?d ?q] by blast
  finally show ?thesis using nz parent by (simp add: folder_permits_def in_folder_def)
qed

lemma length_pad_comm: "length (pad_comm c) = COMM_LEN"
  by (simp add: pad_comm_def Let_def size_consts)

lemma dim_permits_value:
  assumes "spec_ok spec"
  shows "dim_permits (s_flags spec) (dim_bit d) C \<longleftrightarrow> (has_value spec d \<longrightarrow> C)"
  using assms unfolding spec_ok_iff dim_permits_def by blast

text \<open>A packed value compared by hash is the string compared, dimension by dimension.\<close>

abbreviation opt_hash :: "u64 \<Rightarrow> u64 \<Rightarrow> string option \<Rightarrow> u64" where
  "opt_hash a b v \<equiv> (case v of Some s \<Rightarrow> siphash a b s | None \<Rightarrow> 0)"

lemma hash_when:
  assumes "no_collision a b ss" "set (opt_strings v) \<subseteq> set ss" "s \<in> set ss"
  shows "(v \<noteq> None \<longrightarrow> siphash a b s = opt_hash a b v) \<longleftrightarrow> when_set v (\<lambda>n. n = s)"
  using assms no_collisionD(2) [OF assms(1,3)]
  by (auto simp: when_set_def opt_strings_def split: option.splits)

lemma opt_hash_when:
  assumes "no_collision a b ss" "set (opt_strings v) \<subseteq> set ss" "set (opt_strings c) \<subseteq> set ss"
  shows "(v \<noteq> None \<longrightarrow> opt_hash a b c \<noteq> 0 \<and> opt_hash a b c = opt_hash a b v) \<longleftrightarrow>
    when_set v (\<lambda>p. c = Some p)"
  using assms no_collisionD [OF assms(1)]
  by (cases v; cases c) (auto simp: when_set_def opt_strings_def)

lemma folder_when:
  assumes "no_collision a b ss" "set (opt_strings v) \<subseteq> set ss" "set (slash_prefixes p) \<subseteq> set ss"
  shows "(v \<noteq> None \<longrightarrow> folder_permits r (parent_hash a b p) (ancestor_hashes a b p) (opt_hash a b v))
    \<longleftrightarrow> when_set v (in_folder r p)"
  using folder_permits_hashes [OF assms(1) _ assms(3)] assms(2)
  by (cases v) (simp_all add: when_set_def opt_strings_def)

lemma in_play:
  "x_target x \<in> set (strings_in_play spec x)" "base_part (x_landing x) \<in> set (strings_in_play spec x)"
  "set (slash_prefixes (x_target x)) \<subseteq> set (strings_in_play spec x)"
  "set (slash_prefixes (x_landing x)) \<subseteq> set (strings_in_play spec x)"
  "set (opt_strings (x_creator x)) \<subseteq> set (strings_in_play spec x)"
  "set (opt_strings (s_target_filename spec)) \<subseteq> set (strings_in_play spec x)"
  "set (opt_strings (s_target_folder spec)) \<subseteq> set (strings_in_play spec x)"
  "set (opt_strings (s_landing_filename spec)) \<subseteq> set (strings_in_play spec x)"
  "set (opt_strings (s_landing_folder spec)) \<subseteq> set (strings_in_play spec x)"
  "set (opt_strings (s_creator_process spec)) \<subseteq> set (strings_in_play spec x)"
  by (auto simp: strings_in_play_def)

lemma pack_simps:
  "r_flags (pack a b spec) = s_flags spec"
  "r_target_filename_hash (pack a b spec) = opt_hash a b (s_target_filename spec)"
  "r_target_folder_hash (pack a b spec) = opt_hash a b (s_target_folder spec)"
  "r_landing_filename_hash (pack a b spec) = opt_hash a b (s_landing_filename spec)"
  "r_landing_folder_hash (pack a b spec) = opt_hash a b (s_landing_folder spec)"
  "r_creator_process_hash (pack a b spec) = opt_hash a b (s_creator_process spec)"
  by (simp_all add: pack_def Let_def)

lemma describesD:
  assumes "describes a b r x"
  shows "comm r = x_comm x" "creator_uid r = x_creator_uid x"
    "creator_path_hash r = opt_hash a b (x_creator x)"
    "landing_folder_hash r = parent_hash a b (x_landing x)"
    "landing_ancestor_hashes r = ancestor_hashes a b (x_landing x)"
    "landing_basename_hash r = siphash a b (base_part (x_landing x))"
  using assms by (simp_all add: describes_def)

lemma scalar_when:
  assumes "length c = COMM_LEN"
  shows "(s_creator_uid spec \<noteq> None \<longrightarrow> r_creator_uid (pack a b spec) = u) \<longleftrightarrow>
      when_set (s_creator_uid spec) (\<lambda>w. w = u)"
    and "(s_execution_uid spec \<noteq> None \<longrightarrow> r_execution_uid (pack a b spec) = u) \<longleftrightarrow>
      when_set (s_execution_uid spec) (\<lambda>w. w = u)"
    and "(s_creator_comm spec \<noteq> None \<longrightarrow> comm_eq (r_creator_comm (pack a b spec)) c) \<longleftrightarrow>
      when_set (s_creator_comm spec) (\<lambda>s. pad_comm s = c)"
  using assms
  by (auto simp: pack_def Let_def when_set_def comm_eq_iff length_pad_comm split: option.splits)

lemma rule_permits_pack:
  assumes ok: "spec_ok spec" "s_flags spec \<noteq> 0"
    and nc: "no_collision a b (strings_in_play spec x)"
    and r: "describes a b r x" and len: "length (x_comm x) = COMM_LEN"
  shows "rule_permits (x_exec_uid x) (siphash a b (x_target x), ancestor_hashes a b (x_target x),
      parent_hash a b (x_target x)) r (pack a b spec) \<longleftrightarrow> spec_matches spec x"
proof -
  note dp = dim_permits_value [OF ok(1), of CreatorUid] dim_permits_value [OF ok(1), of ExecutionUid]
    dim_permits_value [OF ok(1), of CreatorComm] dim_permits_value [OF ok(1), of CreatorProcess]
    dim_permits_value [OF ok(1), of LandingFilename] dim_permits_value [OF ok(1), of LandingFolder]
    dim_permits_value [OF ok(1), of TargetFilename] dim_permits_value [OF ok(1), of TargetFolder]
  show ?thesis
    unfolding rule_permits_def spec_matches_def Let_def prod.case describesD [OF r] pack_simps
      dp [unfolded dim_bit.simps has_value.simps] scalar_when [OF len]
      opt_hash_when [OF nc in_play(10) in_play(5)] hash_when [OF nc in_play(8) in_play(2)]
      hash_when [OF nc in_play(6) in_play(1)] folder_when [OF nc in_play(9) in_play(4)]
      folder_when [OF nc in_play(7) in_play(3)]
    by (simp only: ok(2) simp_thms)
qed

lemma check_allowlist_strings_aux:
  assumes "active_rules k = map (pack a b) specs" "hash_key k = (a, b)"
    and "\<forall>spec \<in> set specs. spec_ok spec \<and> s_flags spec \<noteq> 0 \<and> no_collision a b (strings_in_play spec x)"
    and "describes a b r x" "length (x_comm x) = COMM_LEN"
    and "walked filename = x_target x" "current_uid e = x_exec_uid x"
  shows "check_allowlist e k filename r \<longleftrightarrow> (\<exists>spec \<in> set specs. spec_matches spec x)"
  using assms rule_permits_pack [OF _ _ _ assms(4,5)]
  by (auto simp: check_allowlist_iff target_hashes_eq)

section \<open>Properties\<close>

text \<open>
  The scan decides by rules: a file is permitted exactly when one of the first
  \<open>min(count, MAX_RULES)\<close> rules of the map has all its set dimensions met, whatever the order of
  the rules, and an empty map permits nothing.
\<close>

theorem allowlist_is_any_rule:
  "check_allowlist e k filename origin \<longleftrightarrow>
    (\<exists>rule \<in> set (active_rules k).
      rule_permits (current_uid e) (case hash_key k of (a, b) \<Rightarrow> target_hashes filename a b)
        origin rule)"
  by (rule check_allowlist_iff)

text \<open>
  C1: The hashed decision is the decision on the strings. For rules packed under the seeded key,
  a record that describes where the file landed and who created it, and no hash collision among
  the strings in play, the kernel permits a target exactly when some rule line matches its
  path, its landing folder and name, its creator and the two user ids, where an exact folder is
  the immediate parent and a recursive one any of the 32 deepest ancestors.
\<close>

theorem allowlist_decides_on_strings:
  assumes "active_rules k = map (pack a b) specs" "hash_key k = (a, b)"
    and "\<forall>spec \<in> set specs. spec_ok spec \<and> s_flags spec \<noteq> 0 \<and>
      no_collision a b (strings_in_play spec x)"
    and "describes a b r x" "length (x_comm x) = COMM_LEN"
    and "walked filename = x_target x" "current_uid e = x_exec_uid x"
  shows "check_allowlist e k filename r \<longleftrightarrow> (\<exists>spec \<in> set specs. spec_matches spec x)"
  by (rule check_allowlist_strings_aux [OF assms])

definition uid7_facts :: exec_facts where
  "uid7_facts = \<lparr>x_target = ''x'', x_landing = ''x'', x_creator = None,
     x_comm = replicate 16 NUL, x_creator_uid = 7, x_exec_uid = 9\<rparr>"

definition uid7_record :: origin_record where
  "uid7_record = zero_record\<lparr>creator_uid := 7, landing_basename_hash := siphash 1 2 ''x''\<rparr>"

definition uid7_kernel :: kernel where
  "uid7_kernel = \<lparr>NET_PIDS = (\<lambda>p. None), PROP_PIDS = (\<lambda>p. None), INTERPRETERS = (\<lambda>h. None),
     APPROVED_INTERP = (\<lambda>p. None), INODE_MARKS = (\<lambda>i. None), INTERP_INODE = (\<lambda>i. None),
     INTERP_COPY_PIDS = (\<lambda>p. None), INTERP_PIDS = (\<lambda>p. None), EVENTS = [], PATH_SCRATCH = [],
     CONFIG = [MODE_ENFORCE, 0, 1], KEY = [1, 2], ALLOW_RULES = [pack 1 2 uid_spec],
     ALLOW_RULE_COUNT = [1]\<rparr>"

definition uid7_env :: env where
  "uid7_env = \<lparr>pid_tgid = 0, uid_gid = 9, get_comm = None, boot_ns = 0, d_path = (\<lambda>b. b),
     dynptr_ok = False, xattr_read = (\<lambda>b. None), reserve_ok = True, ins_ok = (\<lambda>m. True)\<rparr>"

theorem allowlist_decides_on_strings_witness:
  "check_allowlist uid7_env uid7_kernel ''x'' uid7_record"
proof -
  have a: "active_rules uid7_kernel = map (pack 1 2) [uid_spec]"
    by (simp add: active_rules_def uid7_kernel_def array_get_def size_consts)
  have h: "hash_key uid7_kernel = (1, 2)"
    by (simp add: hash_key_def uid7_kernel_def array_get_def)
  have p: "strings_in_play uid_spec uid7_facts = [''x'', ''x'']"
    by (simp add: strings_in_play_def uid7_facts_def uid_spec_def default_spec_def opt_strings_def
      slash_prefixes_def base_part_def)
  have n: "\<forall>spec \<in> set [uid_spec]. spec_ok spec \<and> s_flags spec \<noteq> 0 \<and>
      no_collision 1 2 (strings_in_play spec uid7_facts)"
    using uid_spec_ok siphash_x_nonzero by (simp add: p no_collision_def)
  have d: "describes 1 2 uid7_record uid7_facts"
    by (simp add: describes_def uid7_record_def uid7_facts_def zero_record_def zero_comm_def
      parent_hash_def ancestor_hashes_def ancestor_array_def slash_prefixes_def base_part_def size_consts)
  have w: "walked ''x'' = x_target uid7_facts" "current_uid uid7_env = x_exec_uid uid7_facts"
    "length (x_comm uid7_facts) = COMM_LEN"
    by (simp_all add: walked_def uid7_facts_def size_consts current_uid_def uid7_env_def)
  show ?thesis
    using allowlist_decides_on_strings [OF a h n d w(3,1,2)]
    by (simp add: spec_matches_def uid_spec_def default_spec_def uid7_facts_def when_set_def)
qed

text \<open>
  The comm hash of the kernel is the hash userspace seeded: for every name of the kernel's
  buffer, the walk up to the first NUL gives the hash of the name as a string.
\<close>

theorem interpreter_name_hash_agrees:
  "fnv_comm c = fnv_hash (c_str c)"
  by (rule fnv_comm_eq)

end
