(* ===== verification/Kernel_Hooks.thy ===== *)
theory Kernel_Hooks
  imports Kernel_Match
begin

text \<open>
  The hooks of \<open>linprov-ebpf/src/main.rs\<close>: \<open>socket_connect\<close>, \<open>file_open\<close>,
  \<open>bprm_check_security\<close>, \<open>bprm_committed_creds\<close> and \<open>sched_process_exit\<close>. Each takes what the kernel
  answers during the invocation (\<open>env\<close>), the hook's arguments and the map state, and returns
  the new map state and the hook's return value. The two halves of \<open>file_open\<close>, which the source
  separates by the test on \<open>FMODE_WRITE\<close>, are two definitions.
\<close>

section \<open>Connecting\<close>

record sockaddr =
  sa_family :: "16 word"
  sin_addr :: u32
  sin6_addr_probe :: "bytes option"

definition is_v4_loopback :: "sockaddr \<Rightarrow> bool" where
  "is_v4_loopback addr \<longleftrightarrow> sin_addr addr AND 0xff = 127"

definition is_v6_loopback :: "sockaddr \<Rightarrow> bool" where
  "is_v6_loopback addr =
    (case sin6_addr_probe addr of
       None \<Rightarrow> False
     | Some bs \<Rightarrow> byte_at bs 15 = CHR 0x01 \<and> (\<forall>b \<in> set (take 15 bs). b = NUL))"

definition socket_connect :: "env \<Rightarrow> i32 \<Rightarrow> sockaddr option \<Rightarrow> kernel \<Rightarrow> kernel \<times> i32" where
  "socket_connect e retval addr_ptr k =
    (if retval \<noteq> 0 then (k, retval)
     else case addr_ptr of
       None \<Rightarrow> (k, 0)
     | Some addr \<Rightarrow>
        (let family = ucast (sa_family addr) :: u32;
             mark_localhost = (array_get (CONFIG k) CONFIG_MARK_LOCALHOST \<noteq> 0)
         in if family \<noteq> AF_INET \<and> family \<noteq> AF_INET6 then (k, 0)
            else let is_loopback =
              (if family = AF_INET then is_v4_loopback addr else is_v6_loopback addr)
            in if is_loopback \<and> \<not> mark_localhost then (k, 0)
               else (k\<lparr>NET_PIDS :=
                 map_insert (ins_ok e M_NET) (current_pid e) (CHR 0x01) (NET_PIDS k)\<rparr>, 0)))"

section \<open>Events\<close>

definition emit_event :: "env \<Rightarrow> u32 \<Rightarrow> u32 \<Rightarrow> origin_record \<Rightarrow> i32 \<Rightarrow> kernel \<Rightarrow> kernel" where
  "emit_event e kind pd origin status k =
    (if \<not> reserve_ok e then k
     else k\<lparr>EVENTS := EVENTS k @
       [\<lparr>e_kind = kind, e_pid = pd, e_tgid = current_tid e, e_status = status,
         e_comm = current_comm e, e_origin = origin, e_filename = d_path e []\<rparr>]\<rparr>)"

section \<open>Opening a file\<close>

text \<open>The record of the opened inode: inode storage, else a current xattr, which is promoted.\<close>

definition load_mark :: "env \<Rightarrow> inode \<Rightarrow> kernel \<Rightarrow> (origin_record \<times> kernel) option" where
  "load_mark e ino k =
    (case INODE_MARKS k ino of
       Some stored \<Rightarrow> Some (stored, k)
     | None \<Rightarrow>
        (case read_origin_xattr e zero_record of
           None \<Rightarrow> None
         | Some rec \<Rightarrow>
            if version rec \<noteq> ORIGIN_VERSION then None
            else Some (rec, k\<lparr>INODE_MARKS :=
              map_get_or_insert (ins_ok e M_MARKS) ino rec (INODE_MARKS k)\<rparr>)))"

text \<open>The allowlist check on the path of the script, against the per-CPU path buffer.\<close>

definition script_permit :: "env \<Rightarrow> origin_record \<Rightarrow> kernel \<Rightarrow> bool \<times> kernel" where
  "script_permit e rec k =
    (if array_get (CONFIG k) CONFIG_MODE = MODE_ENFORCE then
       let k = k\<lparr>PATH_SCRATCH := d_path e (PATH_SCRATCH k)\<rparr>
       in (check_allowlist e k (PATH_SCRATCH k) rec, k)
     else (True, k))"

definition taint :: "env \<Rightarrow> u32 \<Rightarrow> origin_record \<Rightarrow> kernel \<Rightarrow> kernel" where
  "taint e pd rec k = k\<lparr>PROP_PIDS := map_insert (ins_ok e M_PROP) pd rec (PROP_PIDS k)\<rparr>"

text \<open>A non-exec read of an interpreter binary is a copy in the making.\<close>

definition note_copy :: "env \<Rightarrow> kernel_file \<Rightarrow> inode \<Rightarrow> kernel \<Rightarrow> kernel" where
  "note_copy e file ino k =
    (if f_mode file AND FMODE_EXEC = 0 \<and> INTERP_INODE k ino \<noteq> None
     then k\<lparr>INTERP_COPY_PIDS :=
       map_insert (ins_ok e M_COPY) (current_pid e) (CHR 0x01) (INTERP_COPY_PIDS k)\<rparr>
     else k)"

text \<open>The reader of a marked file: gated if it is an unapproved interpreter, else tainted.\<close>

definition gate_read :: "env \<Rightarrow> origin_record \<Rightarrow> kernel \<Rightarrow> kernel \<times> i32" where
  "gate_read e rec k =
    (let pd = current_pid e in
     if INTERP_PIDS k pd \<noteq> None \<and> APPROVED_INTERP k pd = None then
       (case script_permit e rec k of (permit, k) \<Rightarrow>
         let decision = (if \<not> permit then -1 else 0);
             k = emit_event e EVENT_KIND_SCRIPT_EXEC pd rec decision k
         in if decision \<noteq> 0 then (k, decision)
            else (taint e pd rec (k\<lparr>APPROVED_INTERP :=
              map_insert (ins_ok e M_APPROVED) pd (CHR 0x01) (APPROVED_INTERP k)\<rparr>), 0))
     else (taint e pd rec k, 0))"

definition file_open_read :: "env \<Rightarrow> kernel_file \<Rightarrow> kernel \<Rightarrow> kernel \<times> i32" where
  "file_open_read e file k =
    (let self_pid = array_get (CONFIG k) CONFIG_SELF_PID in
     case f_inode file of
       None \<Rightarrow> (k, 0)
     | Some ino \<Rightarrow>
        if current_pid e = self_pid then (k, 0)
        else let k = note_copy e file ino k in
          (case load_mark e ino k of
             None \<Rightarrow> (k, 0)
           | Some (rec, k) \<Rightarrow> gate_read e rec k))"

text \<open>A writer that read interpreter bytes flags what it writes as an interpreter.\<close>

definition flag_copy :: "env \<Rightarrow> kernel_file \<Rightarrow> kernel \<Rightarrow> kernel" where
  "flag_copy e file k =
    (case f_inode file of
       None \<Rightarrow> k
     | Some ino \<Rightarrow>
        if INTERP_COPY_PIDS k (current_pid e) = None then k
        else let k = k\<lparr>PATH_SCRATCH := d_path e (PATH_SCRATCH k)\<rparr> in
          if is_pseudo_fs (PATH_SCRATCH k) then k
          else k\<lparr>INTERP_INODE :=
            map_get_or_insert (ins_ok e M_INTERP_INODE) ino (CHR 0x01) (INTERP_INODE k)\<rparr>)"

text \<open>The two mark sources, in priority order; the landing fields are filled afterwards.\<close>

definition mark_source :: "env \<Rightarrow> kernel \<Rightarrow> (u32 \<times> origin_record) option" where
  "mark_source e k =
    (let pd = current_pid e in
     if NET_PIDS k pd \<noteq> None then
       Some (EVENT_KIND_NETWORK_FILE_OPEN,
         zero_record\<lparr>version := ORIGIN_VERSION, pid := pd, ts_boot_ns := boot_ns e,
           comm := current_comm e, creator_uid := current_uid e\<rparr>)
     else case PROP_PIDS k pd of
       Some src_rec \<Rightarrow> Some (EVENT_KIND_DERIVED_FILE_OPEN, src_rec)
     | None \<Rightarrow> None)"

definition file_open_write :: "env \<Rightarrow> kernel_file \<Rightarrow> kernel \<Rightarrow> kernel \<times> i32" where
  "file_open_write e file k =
    (let k = flag_copy e file k in
     case mark_source e k of
       None \<Rightarrow> (k, 0)
     | Some (kind, rec) \<Rightarrow>
        let k = k\<lparr>PATH_SCRATCH := d_path e (PATH_SCRATCH k)\<rparr>; buf = PATH_SCRATCH k in
        if is_pseudo_fs buf then (k, 0)
        else (case hash_key k of (a, b) \<Rightarrow>
          case landing_hashes buf a b of (fh, anc, bh) \<Rightarrow>
            let rec = rec\<lparr>landing_folder_hash := fh, landing_ancestor_hashes := anc,
                  landing_basename_hash := bh\<rparr>;
                k = (case f_inode file of
                       None \<Rightarrow> k
                     | Some ino \<Rightarrow> k\<lparr>INODE_MARKS :=
                         map_get_or_insert (ins_ok e M_MARKS) ino rec (INODE_MARKS k)\<rparr>)
            in (emit_event e kind (current_pid e) rec 0 k, 0)))"

definition file_open :: "env \<Rightarrow> kernel_file option \<Rightarrow> kernel \<Rightarrow> kernel \<times> i32" where
  "file_open e file_ptr k =
    (case file_ptr of
       None \<Rightarrow> (k, 0)
     | Some file \<Rightarrow>
        if f_mode file AND FMODE_WRITE = 0 then file_open_read e file k
        else file_open_write e file k)"

section \<open>Executing\<close>

text \<open>\<open>bprm\<close>: null, or its \<open>file\<close> pointer.\<close>

type_synonym binprm = "kernel_file option"

text \<open>
  The record to decide on: inode storage, completed or replaced by the xattr when storage is
  absent or not yet augmented, and storage again when the xattr turns out to be of another
  schema. \<open>None\<close> is "unmarked".
\<close>

definition exec_mark :: "env \<Rightarrow> kernel_file \<Rightarrow> kernel \<Rightarrow> origin_record option" where
  "exec_mark e file k =
    (let stored = (case f_inode file of None \<Rightarrow> None | Some ino \<Rightarrow> INODE_MARKS k ino);
         have_storage = (stored \<noteq> None);
         buf = (case stored of Some r \<Rightarrow> r | None \<Rightarrow> zero_record);
         need_xattr = (\<not> have_storage \<or> creator_path_hash buf = 0);
         xattr = (if need_xattr then read_origin_xattr e buf else None);
         have_xattr = (xattr \<noteq> None);
         buf = (case xattr of Some r \<Rightarrow> r | None \<Rightarrow> buf)
     in if \<not> have_xattr \<and> \<not> have_storage then None
        else if version buf \<noteq> ORIGIN_VERSION then
          (let buf = (case stored of Some r \<Rightarrow> r | None \<Rightarrow> buf)
           in if version buf \<noteq> ORIGIN_VERSION then None else Some buf)
        else Some buf)"

definition bprm_check_security :: "env \<Rightarrow> i32 \<Rightarrow> binprm option \<Rightarrow> kernel \<Rightarrow> kernel \<times> i32" where
  "bprm_check_security e retval bprm_ptr k =
    (if retval \<noteq> 0 then (k, retval)
     else case bprm_ptr of
       None \<Rightarrow> (k, 0)
     | Some None \<Rightarrow> (k, 0)
     | Some (Some file) \<Rightarrow>
        (case exec_mark e file k of
           None \<Rightarrow> (k, 0)
         | Some rec \<Rightarrow>
            if \<not> reserve_ok e then (k, 0)
            else let filename = d_path e [];
                     mode = array_get (CONFIG k) CONFIG_MODE;
                     permit = (if mode = MODE_ENFORCE then check_allowlist e k filename rec
                               else True);
                     decision = (if \<not> permit then -1 else 0)
                 in (k\<lparr>EVENTS := EVENTS k @
                   [\<lparr>e_kind = EVENT_KIND_EXECVE, e_pid = current_pid e, e_tgid = current_tid e,
                     e_status = decision, e_comm = current_comm e, e_origin = rec,
                     e_filename = filename\<rparr>]\<rparr>, decision)))"

definition bprm_committed_creds :: "env \<Rightarrow> binprm option \<Rightarrow> kernel \<Rightarrow> kernel \<times> i32" where
  "bprm_committed_creds e bprm_ptr k =
    (case bprm_ptr of
       None \<Rightarrow> (k, 0)
     | Some file_ptr \<Rightarrow>
        (let by_inode =
              (case file_ptr of None \<Rightarrow> False
               | Some file \<Rightarrow> (case f_inode file of None \<Rightarrow> False
                   | Some ino \<Rightarrow> INTERP_INODE k ino \<noteq> None));
             is_interp = (by_inode \<or> INTERPRETERS k (fnv_comm (current_comm e)) \<noteq> None);
             pd = current_pid e
         in (if is_interp
             then k\<lparr>INTERP_PIDS := map_insert (ins_ok e M_INTERP) pd (CHR 0x01) (INTERP_PIDS k)\<rparr>
             else k\<lparr>INTERP_PIDS := (INTERP_PIDS k)(pd := None)\<rparr>, 0)))"

section \<open>Exiting\<close>

definition sched_process_exit :: "env \<Rightarrow> kernel \<Rightarrow> kernel \<times> u32" where
  "sched_process_exit e k =
    (let tid = current_tid e; tgid = current_pid e in
     if tid \<noteq> tgid then (k, 0)
     else (k\<lparr>NET_PIDS := (NET_PIDS k)(tgid := None), PROP_PIDS := (PROP_PIDS k)(tgid := None),
       APPROVED_INTERP := (APPROVED_INTERP k)(tgid := None),
       INTERP_COPY_PIDS := (INTERP_COPY_PIDS k)(tgid := None),
       INTERP_PIDS := (INTERP_PIDS k)(tgid := None)\<rparr>, 0))"

end
