(* ===== verification/Kernel_Frame.thy ===== *)
theory Kernel_Frame
  imports Kernel_Hooks
begin

text \<open>
  What the hooks leave alone: no hook writes the maps that userspace owns (\<open>policy\<close>), and each
  step of a hook touches only its own maps. With it, when an open is denied and what that
  implies, and that a stored mark survives every hook.
\<close>

section \<open>What the hooks leave alone\<close>

text \<open>The maps only userspace writes, and the fields each step of a hook keeps.\<close>

definition policy ::
    "kernel \<Rightarrow> u32 list \<times> u64 list \<times> allow_rule list \<times> u32 list \<times> (u64 \<rightharpoonup> u8)" where
  "policy k = (CONFIG k, KEY k, ALLOW_RULES k, ALLOW_RULE_COUNT k, INTERPRETERS k)"

lemma policyD:
  assumes "policy k' = policy k"
  shows "CONFIG k' = CONFIG k" "KEY k' = KEY k" "ALLOW_RULES k' = ALLOW_RULES k"
    "ALLOW_RULE_COUNT k' = ALLOW_RULE_COUNT k" "INTERPRETERS k' = INTERPRETERS k"
  using assms by (simp_all add: policy_def)

lemma check_allowlist_policy:
  assumes "policy k' = policy k"
  shows "check_allowlist e k' f r = check_allowlist e k f r"
  by (simp only: check_allowlist_def hash_key_def policyD [OF assms])

lemma emit_event_frame [simp]:
  "NET_PIDS (emit_event e kd p r s k) = NET_PIDS k"
  "PROP_PIDS (emit_event e kd p r s k) = PROP_PIDS k"
  "APPROVED_INTERP (emit_event e kd p r s k) = APPROVED_INTERP k"
  "INODE_MARKS (emit_event e kd p r s k) = INODE_MARKS k"
  "INTERP_INODE (emit_event e kd p r s k) = INTERP_INODE k"
  "INTERP_COPY_PIDS (emit_event e kd p r s k) = INTERP_COPY_PIDS k"
  "INTERP_PIDS (emit_event e kd p r s k) = INTERP_PIDS k"
  "PATH_SCRATCH (emit_event e kd p r s k) = PATH_SCRATCH k"
  "policy (emit_event e kd p r s k) = policy k"
  by (simp_all add: emit_event_def policy_def)

lemma note_copy_frame [simp]:
  "NET_PIDS (note_copy e file ino k) = NET_PIDS k"
  "PROP_PIDS (note_copy e file ino k) = PROP_PIDS k"
  "APPROVED_INTERP (note_copy e file ino k) = APPROVED_INTERP k"
  "INODE_MARKS (note_copy e file ino k) = INODE_MARKS k"
  "INTERP_INODE (note_copy e file ino k) = INTERP_INODE k"
  "INTERP_PIDS (note_copy e file ino k) = INTERP_PIDS k"
  "PATH_SCRATCH (note_copy e file ino k) = PATH_SCRATCH k"
  "EVENTS (note_copy e file ino k) = EVENTS k"
  "policy (note_copy e file ino k) = policy k"
  by (simp_all add: note_copy_def policy_def)

lemma load_mark_frame:
  assumes "load_mark e ino k = Some (rec, k')"
  shows "k' = k \<or> k' = k\<lparr>INODE_MARKS := (INODE_MARKS k)(ino \<mapsto> rec)\<rparr>"
  using assms by (auto simp: load_mark_def map_get_or_insert_def split: option.splits if_splits)

lemma load_mark_same:
  assumes "load_mark e ino k = Some (rec, k')"
  shows "NET_PIDS k' = NET_PIDS k" "PROP_PIDS k' = PROP_PIDS k"
    "APPROVED_INTERP k' = APPROVED_INTERP k" "INTERP_INODE k' = INTERP_INODE k"
    "INTERP_COPY_PIDS k' = INTERP_COPY_PIDS k" "INTERP_PIDS k' = INTERP_PIDS k"
    "PATH_SCRATCH k' = PATH_SCRATCH k" "EVENTS k' = EVENTS k" "policy k' = policy k"
  using load_mark_frame [OF assms] by (auto simp: policy_def)

lemma flag_copy_frame [simp]:
  "NET_PIDS (flag_copy e file k) = NET_PIDS k"
  "PROP_PIDS (flag_copy e file k) = PROP_PIDS k"
  "APPROVED_INTERP (flag_copy e file k) = APPROVED_INTERP k"
  "INODE_MARKS (flag_copy e file k) = INODE_MARKS k"
  "INTERP_COPY_PIDS (flag_copy e file k) = INTERP_COPY_PIDS k"
  "INTERP_PIDS (flag_copy e file k) = INTERP_PIDS k"
  "EVENTS (flag_copy e file k) = EVENTS k"
  "policy (flag_copy e file k) = policy k"
  by (simp_all add: flag_copy_def policy_def Let_def split: option.split)

lemma taint_frame [simp]:
  "NET_PIDS (taint e p r k) = NET_PIDS k" "APPROVED_INTERP (taint e p r k) = APPROVED_INTERP k"
  "INODE_MARKS (taint e p r k) = INODE_MARKS k" "INTERP_INODE (taint e p r k) = INTERP_INODE k"
  "INTERP_COPY_PIDS (taint e p r k) = INTERP_COPY_PIDS k" "EVENTS (taint e p r k) = EVENTS k"
  "INTERP_PIDS (taint e p r k) = INTERP_PIDS k" "policy (taint e p r k) = policy k"
  "PATH_SCRATCH (taint e p r k) = PATH_SCRATCH k"
  by (simp_all add: taint_def policy_def)

lemma script_permit_frame:
  assumes "script_permit e rec k = (permit, k')"
  shows "k' = k \<or> k' = k\<lparr>PATH_SCRATCH := d_path e (PATH_SCRATCH k)\<rparr>"
  using assms by (auto simp: script_permit_def Let_def split: if_splits)

lemma script_permit_same:
  assumes "script_permit e rec k = (permit, k')"
  shows "NET_PIDS k' = NET_PIDS k" "PROP_PIDS k' = PROP_PIDS k"
    "APPROVED_INTERP k' = APPROVED_INTERP k" "INTERP_INODE k' = INTERP_INODE k"
    "INTERP_COPY_PIDS k' = INTERP_COPY_PIDS k" "INTERP_PIDS k' = INTERP_PIDS k"
    "INODE_MARKS k' = INODE_MARKS k" "EVENTS k' = EVENTS k" "policy k' = policy k"
  using script_permit_frame [OF assms] by (auto simp: policy_def)

lemma policy_update [simp]:
  "policy (k\<lparr>NET_PIDS := n\<rparr>) = policy k" "policy (k\<lparr>PROP_PIDS := p\<rparr>) = policy k"
  "policy (k\<lparr>APPROVED_INTERP := a\<rparr>) = policy k" "policy (k\<lparr>INODE_MARKS := m\<rparr>) = policy k"
  "policy (k\<lparr>INTERP_INODE := i\<rparr>) = policy k" "policy (k\<lparr>INTERP_COPY_PIDS := c\<rparr>) = policy k"
  "policy (k\<lparr>INTERP_PIDS := q\<rparr>) = policy k" "policy (k\<lparr>EVENTS := es\<rparr>) = policy k"
  "policy (k\<lparr>PATH_SCRATCH := b\<rparr>) = policy k"
  by (simp_all add: policy_def)

lemma gate_read_policy: "gate_read e rec k = (k', v) \<Longrightarrow> policy k' = policy k"
  by (auto simp: gate_read_def Let_def split: if_splits prod.splits dest: script_permit_same(9))

lemma file_open_read_policy: "file_open_read e file k = (k', v) \<Longrightarrow> policy k' = policy k"
  by (auto simp: file_open_read_def Let_def split: if_splits option.splits
    dest!: gate_read_policy dest: load_mark_same(9))

lemma file_open_write_policy: "file_open_write e file k = (k', v) \<Longrightarrow> policy k' = policy k"
  by (auto simp: file_open_write_def Let_def split: if_splits option.splits prod.splits)

section \<open>Verdicts\<close>

lemma file_open_write_permits: "snd (file_open_write e file k) = 0"
  by (simp add: file_open_write_def Let_def split: option.splits prod.splits)

lemma denied_status: "(-1 :: i32) \<noteq> 0 \<longleftrightarrow> True"
  by simp

lemma gate_read_denied:
  assumes "gate_read e rec k = (k', v)" "v \<noteq> 0"
  shows "v = -1 \<and> array_get (CONFIG k) CONFIG_MODE = MODE_ENFORCE \<and>
    INTERP_PIDS k (current_pid e) \<noteq> None \<and> APPROVED_INTERP k (current_pid e) = None \<and>
    PROP_PIDS k' = PROP_PIDS k \<and> APPROVED_INTERP k' = APPROVED_INTERP k \<and>
    \<not> check_allowlist e k (d_path e (PATH_SCRATCH k)) rec"
proof -
  let ?c = "INTERP_PIDS k (current_pid e) \<noteq> None \<and> APPROVED_INTERP k (current_pid e) = None"
  obtain permit k1 where s: "script_permit e rec k = (permit, k1)" by fastforce
  have c: ?c
  proof (rule ccontr)
    assume "\<not> ?c"
    then have "gate_read e rec k = (taint e (current_pid e) rec k, 0)"
      unfolding gate_read_def Let_def by (rule if_not_P)
    with assms show False by simp
  qed
  have "\<not> permit"
  proof
    assume permit
    with c have "snd (gate_read e rec k) = 0"
      unfolding gate_read_def Let_def s by simp
    with assms show False by simp
  qed
  then have "gate_read e rec k =
      (emit_event e EVENT_KIND_SCRIPT_EXEC (current_pid e) rec (-1) k1, -1)"
    unfolding gate_read_def Let_def s by (simp only: c if_True prod.case simp_thms denied_status)
  then have v: "v = -1" and k': "k' = emit_event e EVENT_KIND_SCRIPT_EXEC (current_pid e) rec (-1) k1"
    using assms(1) by simp_all
  from \<open>\<not> permit\<close> have "array_get (CONFIG k) CONFIG_MODE = MODE_ENFORCE \<and>
      \<not> check_allowlist e (k\<lparr>PATH_SCRATCH := d_path e (PATH_SCRATCH k)\<rparr>) (d_path e (PATH_SCRATCH k)) rec"
    using s by (auto simp: script_permit_def Let_def split: if_splits)
  with check_allowlist_policy [OF policy_update(9) [of "d_path e (PATH_SCRATCH k)" k]]
  show ?thesis using c v script_permit_same [OF s] by (simp add: k')
qed

lemma file_open_denied:
  assumes "file_open e (Some file) k = (k', v)" "v \<noteq> 0"
  shows "v = -1 \<and> f_mode file AND FMODE_WRITE = 0 \<and>
    array_get (CONFIG k) CONFIG_MODE = MODE_ENFORCE \<and>
    INTERP_PIDS k (current_pid e) \<noteq> None \<and> APPROVED_INTERP k (current_pid e) = None \<and>
    PROP_PIDS k' = PROP_PIDS k \<and> APPROVED_INTERP k' = APPROVED_INTERP k \<and>
    (\<exists>ino rec k1. f_inode file = Some ino \<and> load_mark e ino (note_copy e file ino k) = Some (rec, k1) \<and>
      \<not> check_allowlist e k (d_path e (PATH_SCRATCH k)) rec)"
proof -
  have rd: "f_mode file AND FMODE_WRITE = 0" and r: "file_open_read e file k = (k', v)"
    using assms file_open_write_permits [of e "file" k] by (auto simp: file_open_def split: if_splits)
  then obtain ino rec k1 where ino: "f_inode file = Some ino"
    and m: "load_mark e ino (note_copy e file ino k) = Some (rec, k1)"
    and g: "gate_read e rec k1 = (k', v)"
    using assms(2) by (auto simp: file_open_read_def Let_def split: option.splits if_splits prod.splits)
  have p: "policy k1 = policy k" using load_mark_same(9) [OF m] by simp
  from gate_read_denied [OF g assms(2)] load_mark_same [OF m] rd ino m show ?thesis
    by (auto simp: check_allowlist_policy [OF p] policyD(1) [OF p])
qed

section \<open>Marks persist\<close>

lemma load_mark_keeps:
  assumes "load_mark e ino k = Some (rec, k')" "INODE_MARKS k i = Some r"
  shows "INODE_MARKS k' i = Some r"
  using assms by (auto simp: load_mark_def map_get_or_insert_keeps split: option.splits if_splits)

lemma gate_read_marks: "gate_read e rec k = (k', v) \<Longrightarrow> INODE_MARKS k' = INODE_MARKS k"
  by (auto simp: gate_read_def Let_def split: if_splits prod.splits dest: script_permit_same(7))

lemma file_open_keeps_marks:
  assumes "file_open e f k = (k', v)" "INODE_MARKS k i = Some r"
  shows "INODE_MARKS k' i = Some r"
proof (cases f)
  case None
  with assms show ?thesis by (simp add: file_open_def)
next
  case (Some fl)
  show ?thesis
  proof (cases "f_mode fl AND FMODE_WRITE = 0")
    case True
    with assms Some show ?thesis
      by (auto simp: file_open_def file_open_read_def Let_def split: if_splits option.splits prod.splits
        dest!: gate_read_marks dest: load_mark_keeps)
  next
    case False
    with assms Some show ?thesis
      by (auto simp: file_open_def file_open_write_def Let_def map_get_or_insert_keeps
        split: if_splits option.splits prod.splits)
  qed
qed

lemma bprm_check_frame:
  "bprm_check_security e rv b k = (k', v) \<Longrightarrow> k' = k\<lparr>EVENTS := EVENTS k'\<rparr>"
  by (auto simp: bprm_check_security_def Let_def split: if_splits option.splits)

lemma committed_frame:
  "bprm_committed_creds e b k = (k', v) \<Longrightarrow> k' = k\<lparr>INTERP_PIDS := INTERP_PIDS k'\<rparr>"
  by (auto simp: bprm_committed_creds_def Let_def split: option.splits)

lemma connect_frame:
  "socket_connect e rv a k = (k', v) \<Longrightarrow> k' = k\<lparr>NET_PIDS := NET_PIDS k'\<rparr>"
  by (auto simp: socket_connect_def Let_def split: if_splits option.splits)

lemma exit_frame:
  "sched_process_exit e k = (k', v) \<Longrightarrow> INODE_MARKS k' = INODE_MARKS k \<and>
    INTERP_INODE k' = INTERP_INODE k \<and> policy k' = policy k \<and> EVENTS k' = EVENTS k"
  by (auto simp: sched_process_exit_def Let_def policy_def split: if_splits)

lemma file_open_policy: "file_open e f k = (k', v) \<Longrightarrow> policy k' = policy k"
  by (auto simp: file_open_def split: option.splits if_splits
    dest: file_open_read_policy file_open_write_policy)

end
