(* ===== verification/Kernel_Props.thy ===== *)
theory Kernel_Props
  imports Kernel_Frame
begin

text \<open>
  Properties of the hooks: when a verdict is a denial, what a denial implies, how marks are
  written and inherited, how copies of interpreters are caught, what task exit reaps, and the
  invariants of every state the hooks can reach together with eviction and the daemon's
  back-fill. The concrete state and environment at the start serve the witnesses.
\<close>

section \<open>A concrete state and environment\<close>

definition sample_comm :: bytes where
  "sample_comm = ''curl'' @ replicate 12 NUL"

definition sample_env :: env where
  "sample_env = \<lparr>pid_tgid = 0x700000007, uid_gid = 1000, get_comm = Some sample_comm, boot_ns = 1,
     d_path = (\<lambda>buf. ''/tmp/x''), dynptr_ok = True, xattr_read = (\<lambda>buf. None), reserve_ok = True,
     ins_ok = (\<lambda>m. True)\<rparr>"

definition sample_kernel :: kernel where
  "sample_kernel = \<lparr>NET_PIDS = (\<lambda>p. None), PROP_PIDS = (\<lambda>p. None), INTERPRETERS = (\<lambda>h. None),
     APPROVED_INTERP = (\<lambda>p. None), INODE_MARKS = (\<lambda>i. None), INTERP_INODE = (\<lambda>i. None),
     INTERP_COPY_PIDS = (\<lambda>p. None), INTERP_PIDS = (\<lambda>p. None), EVENTS = [], PATH_SCRATCH = [],
     CONFIG = [MODE_ENFORCE, 0, 1], KEY = [1, 2], ALLOW_RULES = [], ALLOW_RULE_COUNT = [0]\<rparr>"

definition sample_mark :: origin_record where
  "sample_mark = zero_record\<lparr>version := ORIGIN_VERSION, comm := sample_comm, creator_uid := 1000\<rparr>"

definition reg_file :: "inode \<Rightarrow> u32 \<Rightarrow> kernel_file" where
  "reg_file ino mode = \<lparr>f_inode = Some ino, f_mode = mode\<rparr>"

lemma sample_pid [simp]: "current_pid sample_env = 7" "current_tid sample_env = 7"
  "current_uid sample_env = 1000"
  by (simp_all add: current_pid_def current_tid_def current_uid_def sample_env_def)

lemma sample_env_simps [simp]:
  "d_path sample_env = (\<lambda>buf. ''/tmp/x'')" "xattr_read sample_env = (\<lambda>buf. None)"
  "dynptr_ok sample_env = True" "reserve_ok sample_env = True" "ins_ok sample_env = (\<lambda>m. True)"
  by (simp_all add: sample_env_def)

lemma sample_denies:
  "policy k = policy sample_kernel \<Longrightarrow> \<not> check_allowlist e k f r"
  by (drule policyD(4)) (simp add: check_allowlist_def sample_kernel_def array_get_def)

lemmas sample_defs = sample_kernel_def sample_mark_def reg_file_def array_get_def
  config_consts mode_consts FMODE_WRITE_def FMODE_EXEC_def

section \<open>Verdicts\<close>


text \<open>
  A denial by an earlier security module is passed on, and nothing is recorded: neither the
  exec nor the connect hook turns a non-zero verdict into another one.
\<close>

theorem verdict_preserved:
  assumes "retval \<noteq> 0"
  shows "bprm_check_security e retval bprm k = (k, retval) \<and>
    socket_connect e retval addr k = (k, retval)"
  using assms by (simp add: bprm_check_security_def socket_connect_def)

theorem verdict_preserved_witness:
  "bprm_check_security sample_env (-13) None sample_kernel = (sample_kernel, -13)"
  using verdict_preserved [of "-13" sample_env None sample_kernel None] by simp

text \<open>Outside enforce mode (observe, soak, or an unset mode) no hook denies anything.\<close>

lemma lax_mode_permits:
  assumes "array_get (CONFIG k) CONFIG_MODE \<noteq> MODE_ENFORCE"
  shows "snd (bprm_check_security e 0 bprm k) = 0 \<and> snd (file_open e fp k) = 0 \<and>
    snd (socket_connect e 0 addr k) = 0 \<and> snd (bprm_committed_creds e bprm k) = 0"
proof -
  have "snd (file_open e fp k) = 0"
  proof (cases fp)
    case (Some fl)
    obtain k' v where "file_open e (Some fl) k = (k', v)" by fastforce
    with assms file_open_denied [of e fl k k' v] Some show ?thesis by fastforce
  qed (simp add: file_open_def)
  with assms show ?thesis
    by (auto simp: bprm_check_security_def socket_connect_def bprm_committed_creds_def Let_def
      split: option.splits)
qed

text \<open>
  C8: A denied open is the read of a marked file, in enforce mode, by an interpreter that holds no
  approval yet and whose script no rule permits; the reader is then neither tainted nor approved.
\<close>

theorem open_denied:
  assumes "file_open e (Some file) k = (k', v)" "v \<noteq> 0"
  shows "v = -1 \<and> f_mode file AND FMODE_WRITE = 0 \<and>
    array_get (CONFIG k) CONFIG_MODE = MODE_ENFORCE \<and>
    INTERP_PIDS k (current_pid e) \<noteq> None \<and> APPROVED_INTERP k (current_pid e) = None \<and>
    PROP_PIDS k' = PROP_PIDS k \<and> APPROVED_INTERP k' = APPROVED_INTERP k \<and>
    (\<exists>ino rec k1. f_inode file = Some ino \<and>
      load_mark e ino (note_copy e file ino k) = Some (rec, k1) \<and>
      \<not> check_allowlist e k (d_path e (PATH_SCRATCH k)) rec)"
  by (rule file_open_denied [OF assms])

definition script_kernel :: kernel where
  "script_kernel = sample_kernel\<lparr>INTERP_PIDS := [7 \<mapsto> CHR 0x01], INODE_MARKS := [3 \<mapsto> sample_mark]\<rparr>"

lemma script_kernel_denies: "snd (file_open sample_env (Some (reg_file 3 0)) script_kernel) = -1"
proof -
  have "\<not> check_allowlist sample_env (script_kernel\<lparr>PATH_SCRATCH := b\<rparr>) f r" for b f r
    by (rule sample_denies) (simp add: script_kernel_def)
  then show ?thesis
    by (simp add: file_open_def file_open_read_def load_mark_def gate_read_def script_permit_def
      note_copy_def script_kernel_def sample_defs Let_def)
qed

theorem open_denied_witness:
  "PROP_PIDS (fst (file_open sample_env (Some (reg_file 3 0)) script_kernel)) 7 = None \<and>
    snd (file_open sample_env (Some (reg_file 3 0)) script_kernel) = -1"
  using open_denied [of sample_env "reg_file 3 0" script_kernel
      "fst (file_open sample_env (Some (reg_file 3 0)) script_kernel)"
      "snd (file_open sample_env (Some (reg_file 3 0)) script_kernel)"] script_kernel_denies
  by (simp add: script_kernel_def sample_kernel_def)

section \<open>Writing marks\<close>

text \<open>The helper resolved the opened file to the path \<open>p\<close>, whatever was in the buffer before.\<close>

definition resolves :: "env \<Rightarrow> bytes \<Rightarrow> bool" where
  "resolves e p \<longleftrightarrow> (\<forall>buf. c_str (d_path e buf) = p) \<and> length p < EXEC_PATH_LEN"

lemma resolves_walked: "resolves e p \<Longrightarrow> walked (d_path e buf) = p"
  by (simp add: resolves_def walked_def size_consts)

lemma is_pseudo_fs_c_str: "is_pseudo_fs p \<longleftrightarrow> is_pseudo_fs (c_str p)"
  using take_eq_c_str [of "''/dev/''" 5 p] take_eq_c_str [of "''/proc/''" 6 p]
    take_eq_c_str [of "''/sys/''" 5 p] take_eq_c_str [of "''/run/''" 5 p]
  unfolding is_pseudo_fs_iff by simp

lemma resolves_pseudo: "resolves e p \<Longrightarrow> is_pseudo_fs (d_path e buf) \<longleftrightarrow> is_pseudo_fs p"
  using is_pseudo_fs_c_str by (metis resolves_def)

text \<open>The record written for a file at path \<open>p\<close>, from the record of its source.\<close>

definition landed :: "u64 \<times> u64 \<Rightarrow> bytes \<Rightarrow> origin_record \<Rightarrow> origin_record" where
  "landed key p rec =
    (case key of (a, b) \<Rightarrow> rec\<lparr>landing_folder_hash := parent_hash a b p,
      landing_ancestor_hashes := ancestor_hashes a b p,
      landing_basename_hash := siphash a b (base_part p)\<rparr>)"

lemma policy_hash_key: "policy k' = policy k \<Longrightarrow> hash_key k' = hash_key k"
  by (simp add: policy_def hash_key_def)

lemma mark_source_flag_copy: "mark_source e (flag_copy e file k) = mark_source e k"
  by (simp add: mark_source_def Let_def)

lemma file_open_write_eq:
  assumes "resolves e p" "\<not> is_pseudo_fs p" "mark_source e k = Some (kind, rec)"
    "f_inode file = Some ino"
  shows "INODE_MARKS (fst (file_open_write e file k)) =
      map_get_or_insert (ins_ok e M_MARKS) ino (landed (hash_key k) p rec) (INODE_MARKS k)"
    and "reserve_ok e \<Longrightarrow> \<exists>ev. EVENTS (fst (file_open_write e file k)) = EVENTS k @ [ev] \<and>
      e_kind ev = kind \<and> e_origin ev = landed (hash_key k) p rec \<and>
      e_pid ev = current_pid e \<and> c_str (e_filename ev) = p"
proof -
  let ?k = "flag_copy e file k"
  let ?k1 = "?k\<lparr>PATH_SCRATCH := d_path e (PATH_SCRATCH ?k)\<rparr>"
  obtain a b where ab: "hash_key k = (a, b)" by fastforce
  have key: "hash_key ?k1 = (a, b)" using policy_hash_key [of ?k1 k] ab by simp
  have np: "\<not> is_pseudo_fs (d_path e (PATH_SCRATCH ?k))"
    using resolves_pseudo [OF assms(1)] assms(2) by simp
  have lh: "landing_hashes (d_path e (PATH_SCRATCH ?k)) a b =
      (parent_hash a b p, ancestor_hashes a b p, siphash a b (base_part p))"
    by (simp add: landing_hashes_eq resolves_walked [OF assms(1)])
  have eq: "file_open_write e file k =
      (emit_event e kind (current_pid e) (landed (hash_key k) p rec)
        0 (?k1\<lparr>INODE_MARKS := map_get_or_insert (ins_ok e M_MARKS) ino (landed (hash_key k) p rec)
          (INODE_MARKS k)\<rparr>), 0)"
    using np key lh assms(3,4)
    by (simp add: file_open_write_def Let_def mark_source_flag_copy landed_def ab)
  show "INODE_MARKS (fst (file_open_write e file k)) =
      map_get_or_insert (ins_ok e M_MARKS) ino (landed (hash_key k) p rec) (INODE_MARKS k)"
    unfolding eq by simp
  show "reserve_ok e \<Longrightarrow> \<exists>ev. EVENTS (fst (file_open_write e file k)) = EVENTS k @ [ev] \<and>
      e_kind ev = kind \<and> e_origin ev = landed (hash_key k) p rec \<and>
      e_pid ev = current_pid e \<and> c_str (e_filename ev) = p"
    using assms(1) unfolding eq by (simp add: emit_event_def resolves_def)
qed

lemma network_mark_written:
  assumes "NET_PIDS k (current_pid e) \<noteq> None" "f_mode file AND FMODE_WRITE \<noteq> 0"
    "f_inode file = Some ino" "INODE_MARKS k ino = None" "ins_ok e M_MARKS"
    "resolves e p" "\<not> is_pseudo_fs p" "hash_key k = (a, b)"
  shows "\<exists>rec. INODE_MARKS (fst (file_open e (Some file) k)) ino = Some rec \<and>
    version rec = ORIGIN_VERSION \<and>
    describes a b rec \<lparr>x_target = t, x_landing = p, x_creator = None, x_comm = current_comm e,
      x_creator_uid = current_uid e, x_exec_uid = u\<rparr>"
proof -
  let ?rec = "zero_record\<lparr>version := ORIGIN_VERSION, pid := current_pid e, ts_boot_ns := boot_ns e,
    comm := current_comm e, creator_uid := current_uid e\<rparr>"
  have "mark_source e k = Some (EVENT_KIND_NETWORK_FILE_OPEN, ?rec)"
    using assms(1) by (simp add: mark_source_def)
  from file_open_write_eq(1) [OF assms(6,7) this assms(3)] assms show ?thesis
    by (simp add: file_open_def map_get_or_insert_def landed_def describes_def)
qed

text \<open>
  A network-touched process that opens a file for writing marks its inode at once: the record
  carries the process' identity, no creator path hash yet, and the hashes of the landing folder,
  of every ancestor folder and of the file name.
\<close>

theorem network_write_marks:
  assumes "NET_PIDS k (current_pid e) \<noteq> None" "f_mode file AND FMODE_WRITE \<noteq> 0"
    "f_inode file = Some ino" "INODE_MARKS k ino = None" "ins_ok e M_MARKS"
    "resolves e p" "\<not> is_pseudo_fs p" "hash_key k = (a, b)"
  shows "\<exists>rec. INODE_MARKS (fst (file_open e (Some file) k)) ino = Some rec \<and>
    version rec = ORIGIN_VERSION \<and>
    describes a b rec \<lparr>x_target = t, x_landing = p, x_creator = None, x_comm = current_comm e,
      x_creator_uid = current_uid e, x_exec_uid = u\<rparr>"
  by (rule network_mark_written [OF assms])

definition download_kernel :: kernel where
  "download_kernel = sample_kernel\<lparr>NET_PIDS := [7 \<mapsto> CHR 0x01]\<rparr>"

lemma sample_resolves: "resolves sample_env ''/tmp/x''"
  by (simp add: resolves_def size_consts)

lemma tmp_not_pseudo: "\<not> is_pseudo_fs ''/tmp/x''"
  by (simp add: is_pseudo_fs_def starts_with_def)

theorem network_write_marks_witness:
  "\<exists>rec. INODE_MARKS (fst (file_open sample_env (Some (reg_file 3 2)) download_kernel)) 3 = Some rec \<and>
    version rec = ORIGIN_VERSION \<and> creator_uid rec = 1000"
  using network_write_marks [of download_kernel sample_env "reg_file 3 2" 3 "''/tmp/x''" 1 2 "''/a''" 0]
    sample_resolves tmp_not_pseudo
  by (auto simp: download_kernel_def sample_defs hash_key_def describes_def)

section \<open>Inheriting marks\<close>

lemma read_taints:
  assumes "f_mode file AND FMODE_WRITE = 0" "f_inode file = Some ino" "INODE_MARKS k ino = Some rec"
    "current_pid e \<noteq> array_get (CONFIG k) CONFIG_SELF_PID"
    "file_open e (Some file) k = (k', 0)" "ins_ok e M_PROP"
  shows "PROP_PIDS k' (current_pid e) = Some rec \<and> NET_PIDS k' = NET_PIDS k \<and>
    INODE_MARKS k' = INODE_MARKS k \<and> policy k' = policy k"
proof -
  have g: "gate_read e rec (note_copy e file ino k) = (k', 0)"
    using assms(1-5) by (simp add: file_open_def file_open_read_def load_mark_def)
  then show ?thesis
    using gate_read_policy [OF g] gate_read_marks [OF g] assms(6)
    by (auto simp: gate_read_def Let_def taint_def map_insert_def split: if_splits prod.splits
      dest: script_permit_same(1))
qed

text \<open>
  C13: Provenance follows a copy. A process that was let through reading a marked file and then
  writes another one marks the output with the creator identity of the source and the landing
  hashes of the output's own path.
\<close>

theorem copy_inherits_origin:
  assumes "f_mode f1 AND FMODE_WRITE = 0" "f_inode f1 = Some i1" "INODE_MARKS k i1 = Some rec"
    and "current_pid e1 \<noteq> array_get (CONFIG k) CONFIG_SELF_PID" "ins_ok e1 M_PROP"
    and "file_open e1 (Some f1) k = (km, 0)"
    and "f_mode f2 AND FMODE_WRITE \<noteq> 0" "f_inode f2 = Some i2" "INODE_MARKS k i2 = None"
    and "current_pid e2 = current_pid e1" "ins_ok e2 M_MARKS" "NET_PIDS k (current_pid e1) = None"
    and "resolves e2 p" "\<not> is_pseudo_fs p"
  shows "INODE_MARKS (fst (file_open e2 (Some f2) km)) i2 = Some (landed (hash_key k) p rec)"
proof -
  note t = read_taints [OF assms(1-4,6,5)]
  have "mark_source e2 km = Some (EVENT_KIND_DERIVED_FILE_OPEN, rec)"
    using t assms(10,12) by (simp add: mark_source_def)
  from file_open_write_eq(1) [OF assms(13,14) this assms(8)] t assms(7,9,11) show ?thesis
    by (simp add: file_open_def map_get_or_insert_def policy_hash_key [of km k])
qed

definition archive_kernel :: kernel where
  "archive_kernel = sample_kernel\<lparr>INODE_MARKS := [3 \<mapsto> sample_mark]\<rparr>"

lemma archive_read: "file_open sample_env (Some (reg_file 3 0)) archive_kernel =
    (archive_kernel\<lparr>PROP_PIDS := [7 \<mapsto> sample_mark]\<rparr>, 0)"
  by (simp add: file_open_def file_open_read_def load_mark_def gate_read_def note_copy_def taint_def
    map_insert_def archive_kernel_def sample_defs Let_def)

theorem copy_inherits_origin_witness:
  "INODE_MARKS (fst (file_open sample_env (Some (reg_file 4 2))
      (archive_kernel\<lparr>PROP_PIDS := [7 \<mapsto> sample_mark]\<rparr>))) 4 =
    Some (landed (1, 2) ''/tmp/x'' sample_mark)"
  using copy_inherits_origin [OF _ _ _ _ _ archive_read, of 3 sample_mark "reg_file 4 2" 4 sample_env
    "''/tmp/x''"] sample_resolves tmp_not_pseudo
  by (simp add: archive_kernel_def sample_defs hash_key_def)

section \<open>Download, then execute\<close>


definition sample_addr :: sockaddr where
  "sample_addr = \<lparr>sa_family = 2, sin_addr = 0x01010101, sin6_addr_probe = None\<rparr>"


section \<open>Copied interpreters\<close>

lemma note_copy_flags:
  assumes "f_mode file AND FMODE_EXEC = 0" "INTERP_INODE k ino \<noteq> None" "ins_ok e M_COPY"
  shows "INTERP_COPY_PIDS (note_copy e file ino k) (current_pid e) \<noteq> None"
  using assms by (simp add: note_copy_def map_insert_def)

lemma gate_read_copy_pids: "gate_read e rec k = (k', v) \<Longrightarrow> INTERP_COPY_PIDS k' = INTERP_COPY_PIDS k"
  by (auto simp: gate_read_def Let_def split: if_splits prod.splits dest: script_permit_same(5))

lemma read_interp_flags_reader:
  assumes "f_mode file AND FMODE_WRITE = 0" "f_mode file AND FMODE_EXEC = 0"
    "f_inode file = Some ino" "INTERP_INODE k ino \<noteq> None" "ins_ok e M_COPY"
    "current_pid e \<noteq> array_get (CONFIG k) CONFIG_SELF_PID"
  shows "INTERP_COPY_PIDS (fst (file_open e (Some file) k)) (current_pid e) \<noteq> None"
proof (cases "load_mark e ino (note_copy e file ino k)")
  case None
  with assms note_copy_flags [OF assms(2,4,5)] show ?thesis
    by (simp add: file_open_def file_open_read_def Let_def)
next
  case (Some m)
  obtain rec kl where m: "m = (rec, kl)" by fastforce
  obtain k' v where g: "gate_read e rec kl = (k', v)" by fastforce
  have "file_open e (Some file) k = (k', v)"
    using assms Some m g by (simp add: file_open_def file_open_read_def Let_def)
  with gate_read_copy_pids [OF g] load_mark_same(5) [OF Some [unfolded m]]
    note_copy_flags [OF assms(2,4,5)] show ?thesis by simp
qed

lemma write_flags_copy:
  assumes "f_mode file AND FMODE_WRITE \<noteq> 0" "f_inode file = Some ino"
    "INTERP_COPY_PIDS k (current_pid e) \<noteq> None" "ins_ok e M_INTERP_INODE"
    "resolves e p" "\<not> is_pseudo_fs p"
  shows "INTERP_INODE (fst (file_open e (Some file) k)) ino \<noteq> None"
proof -
  have np: "\<not> is_pseudo_fs (d_path e buf)" for buf
    using resolves_pseudo [OF assms(5)] assms(6) by simp
  have "INTERP_INODE (flag_copy e file k) ino \<noteq> None"
    using assms np by (auto simp: flag_copy_def map_get_or_insert_def Let_def split: option.split)
  moreover have "INTERP_INODE (fst (file_open_write e file k)) = INTERP_INODE (flag_copy e file k)"
    by (simp add: file_open_write_def Let_def split: option.split prod.split)
  ultimately show ?thesis using assms(1) by (simp add: file_open_def)
qed

text \<open>
  C14: A copy of an interpreter is an interpreter. A process reads the bytes of a flagged binary,
  writes them to another file, and that file is executed under any name: the executing process
  is flagged as an interpreter, so its reads of marked scripts are gated.
\<close>

theorem interpreter_copy_flagged:
  assumes "f_mode f1 AND FMODE_WRITE = 0" "f_mode f1 AND FMODE_EXEC = 0" "f_inode f1 = Some i1"
    and "INTERP_INODE k i1 \<noteq> None" "ins_ok e1 M_COPY"
    and "current_pid e1 \<noteq> array_get (CONFIG k) CONFIG_SELF_PID"
    and "f_mode f2 AND FMODE_WRITE \<noteq> 0" "f_inode f2 = Some i2" "current_pid e2 = current_pid e1"
    and "ins_ok e2 M_INTERP_INODE" "resolves e2 p" "\<not> is_pseudo_fs p"
    and "f_inode f3 = Some i2" "ins_ok e3 M_INTERP"
  shows "INTERP_PIDS (fst (bprm_committed_creds e3 (Some (Some f3))
      (fst (file_open e2 (Some f2) (fst (file_open e1 (Some f1) k)))))) (current_pid e3) \<noteq> None"
proof -
  have "INTERP_COPY_PIDS (fst (file_open e1 (Some f1) k)) (current_pid e2) \<noteq> None"
    using read_interp_flags_reader [OF assms(1-6)] assms(9) by simp
  from write_flags_copy [OF assms(7,8) this assms(10-12)] assms(13,14) show ?thesis
    by (simp add: bprm_committed_creds_def Let_def map_insert_def)
qed

definition bash_kernel :: kernel where
  "bash_kernel = sample_kernel\<lparr>INTERP_INODE := [5 \<mapsto> CHR 0x01]\<rparr>"

theorem interpreter_copy_flagged_witness:
  "INTERP_PIDS (fst (bprm_committed_creds sample_env (Some (Some (reg_file 6 0x20)))
      (fst (file_open sample_env (Some (reg_file 6 2))
        (fst (file_open sample_env (Some (reg_file 5 0)) bash_kernel)))))) 7 \<noteq> None"
  using interpreter_copy_flagged [of "reg_file 5 0" 5 bash_kernel sample_env "reg_file 6 2" 6 sample_env
      "''/tmp/x''" "reg_file 6 0x20" sample_env] sample_resolves tmp_not_pseudo
  by (simp add: bash_kernel_def sample_defs)

text \<open>
  C36: The approval of an interpreter process outlives the program it was given for: the exec
  hook leaves it in place, so an approved process that executes another interpreter in place
  reads its next marked script ungated, whatever the allowlist says.
\<close>

theorem approval_survives_exec:
  assumes "APPROVED_INTERP k (current_pid e) \<noteq> None"
  shows "APPROVED_INTERP (fst (bprm_committed_creds e bprm k)) (current_pid e) \<noteq> None \<and>
    snd (file_open e fp (fst (bprm_committed_creds e bprm k))) = 0"
proof -
  let ?k = "fst (bprm_committed_creds e bprm k)"
  have a: "APPROVED_INTERP ?k (current_pid e) \<noteq> None"
    using assms by (simp add: bprm_committed_creds_def Let_def split: option.split)
  moreover have "snd (file_open e fp ?k) = 0"
  proof (cases fp)
    case (Some fl)
    obtain k' v where "file_open e (Some fl) ?k = (k', v)" by fastforce
    with a file_open_denied [of e fl ?k k' v] Some show ?thesis by fastforce
  qed (simp add: file_open_def)
  ultimately show ?thesis by simp
qed

theorem approval_survives_exec_witness:
  "snd (file_open sample_env (Some (reg_file 3 0))
    (fst (bprm_committed_creds sample_env (Some (Some (reg_file 5 0x20)))
      (script_kernel\<lparr>APPROVED_INTERP := [7 \<mapsto> CHR 0x01]\<rparr>)))) = 0"
  using approval_survives_exec [of "script_kernel\<lparr>APPROVED_INTERP := [7 \<mapsto> CHR 0x01]\<rparr>" sample_env
    "Some (Some (reg_file 5 0x20))" "Some (reg_file 3 0)"] by simp

section \<open>Exit, exemptions\<close>

text \<open>
  Taint is reaped when the thread-group leader exits and only then. The exit of another
  thread changes nothing, so a process cannot shed its taint by ending a thread; after the
  leader's exit a process that reuses the PID is no mark source, no interpreter and not
  approved; other processes keep their status throughout.
\<close>

theorem exit_reaps_leader_only:
  assumes "sched_process_exit e k = (k', v)"
  shows "(current_tid e \<noteq> current_pid e \<longrightarrow> k' = k) \<and>
    (current_tid e = current_pid e \<longrightarrow> current_pid e' = current_pid e \<longrightarrow>
      mark_source e' k' = None \<and> INTERP_PIDS k' (current_pid e') = None \<and>
      APPROVED_INTERP k' (current_pid e') = None \<and> INTERP_COPY_PIDS k' (current_pid e') = None) \<and>
    (current_pid e' \<noteq> current_pid e \<longrightarrow>
      mark_source e' k' = mark_source e' k \<and>
      INTERP_PIDS k' (current_pid e') = INTERP_PIDS k (current_pid e') \<and>
      APPROVED_INTERP k' (current_pid e') = APPROVED_INTERP k (current_pid e'))"
  using assms by (auto simp: sched_process_exit_def mark_source_def Let_def split: if_splits)

theorem exit_reaps_leader_only_witness:
  "mark_source sample_env (fst (sched_process_exit sample_env download_kernel)) = None \<and>
    fst (sched_process_exit (sample_env\<lparr>pid_tgid := 0x700000009\<rparr>) download_kernel) = download_kernel"
proof -
  have t: "current_tid (sample_env\<lparr>pid_tgid := 0x700000009\<rparr>) = 9"
    "current_pid (sample_env\<lparr>pid_tgid := 0x700000009\<rparr>) = 7"
    by (simp_all add: current_tid_def current_pid_def)
  show ?thesis
    using exit_reaps_leader_only [OF prod.collapse [symmetric], of sample_env download_kernel sample_env]
      exit_reaps_leader_only [OF prod.collapse [symmetric],
        of "sample_env\<lparr>pid_tgid := 0x700000009\<rparr>" download_kernel sample_env] t
    by simp
qed

text \<open>
  Nothing on a pseudo file system is ever marked or flagged, and no event is sent for it: a
  write-open there changes no map but the path buffer.
\<close>

theorem pseudo_fs_never_marked:
  assumes "resolves e p" "is_pseudo_fs p" "f_mode file AND FMODE_WRITE \<noteq> 0"
  shows "\<exists>b. file_open e (Some file) k = (k\<lparr>PATH_SCRATCH := b\<rparr>, 0)"
proof -
  have ps: "is_pseudo_fs (d_path e buf)" for buf
    using resolves_pseudo [OF assms(1)] assms(2) by simp
  obtain b where b: "flag_copy e file k = k\<lparr>PATH_SCRATCH := b\<rparr>"
  proof -
    have "flag_copy e file k = k \<or> flag_copy e file k = k\<lparr>PATH_SCRATCH := d_path e (PATH_SCRATCH k)\<rparr>"
      using ps by (auto simp: flag_copy_def Let_def split: option.split)
    then show ?thesis using that [of "PATH_SCRATCH k"] that by fastforce
  qed
  have "file_open_write e file k = (k\<lparr>PATH_SCRATCH := b\<rparr>, 0) \<or>
      file_open_write e file k = (k\<lparr>PATH_SCRATCH := d_path e b\<rparr>, 0)"
    using ps by (auto simp: file_open_write_def b Let_def split: option.split)
  then show ?thesis using assms(3) by (auto simp: file_open_def)
qed

theorem pseudo_fs_never_marked_witness:
  "\<exists>b. file_open (sample_env\<lparr>d_path := (\<lambda>buf. ''/dev/null'')\<rparr>) (Some (reg_file 3 2)) download_kernel =
    (download_kernel\<lparr>PATH_SCRATCH := b\<rparr>, 0)"
proof -
  have "resolves (sample_env\<lparr>d_path := (\<lambda>buf. ''/dev/null'')\<rparr>) ''/dev/null''"
    by (simp add: resolves_def size_consts)
  moreover have "is_pseudo_fs ''/dev/null''" by (simp add: is_pseudo_fs_def starts_with_def)
  moreover have "f_mode (reg_file 3 2) AND FMODE_WRITE \<noteq> 0" by (simp add: sample_defs)
  ultimately show ?thesis by (rule pseudo_fs_never_marked)
qed

text \<open>
  The daemon is exempt: a read-open by the process whose PID userspace seeded changes no map
  and is never denied, so the daemon cannot taint its own writes.
\<close>

theorem daemon_reads_exempt:
  assumes "current_pid e = array_get (CONFIG k) CONFIG_SELF_PID" "f_mode file AND FMODE_WRITE = 0"
  shows "file_open e (Some file) k = (k, 0)"
  using assms by (simp add: file_open_def file_open_read_def Let_def split: option.split)

theorem daemon_reads_exempt_witness:
  "file_open sample_env (Some (reg_file 3 0)) (script_kernel\<lparr>CONFIG := [2, 0, 7]\<rparr>) =
    (script_kernel\<lparr>CONFIG := [2, 0, 7]\<rparr>, 0)"
  using daemon_reads_exempt [of sample_env "script_kernel\<lparr>CONFIG := [2, 0, 7]\<rparr>" "reg_file 3 0"]
  by (simp add: sample_defs)



end
