(* ===== verification/Kernel_Steps.thy ===== *)
theory Kernel_Steps
  imports Kernel_Props
begin

text \<open>
  The kernel side as a transition system: any interleaving of hook invocations with the things
  that happen to the maps from outside, namely LRU and inode eviction, the daemon's back-fill of
  an augmented record, and userspace reseeding the policy maps. The invariant shows that every
  record the hooks decide on or send out is a complete record of the current schema, and that
  only enforcing kinds of events carry a denial; the run lemma shows that a mark stays until its
  inode is evicted or the daemon replaces it.
\<close>

section \<open>Steps\<close>

datatype klabel = Hook | EvictMark inode | EvictInterp inode | EvictPid u32 | Backfill inode | Seed

text \<open>What the kernel guarantees of its helpers: 16-byte names, record-sized reads.\<close>

definition env_ok :: "env \<Rightarrow> bool" where
  "env_ok e \<longleftrightarrow>
    (case get_comm e of None \<Rightarrow> True | Some c \<Rightarrow> length c = COMM_LEN) \<and>
    (\<forall>buf r. record_shape buf \<longrightarrow> xattr_read e buf = Some r \<longrightarrow> record_shape r)"

inductive kstep :: "klabel \<Rightarrow> kernel \<Rightarrow> kernel \<Rightarrow> bool" where
  connect: "env_ok e \<Longrightarrow> socket_connect e rv a k = (k', v) \<Longrightarrow> kstep Hook k k'"
| opened: "env_ok e \<Longrightarrow> file_open e fp k = (k', v) \<Longrightarrow> kstep Hook k k'"
| check: "env_ok e \<Longrightarrow> bprm_check_security e rv b k = (k', v) \<Longrightarrow> kstep Hook k k'"
| committed: "env_ok e \<Longrightarrow> bprm_committed_creds e b k = (k', v) \<Longrightarrow> kstep Hook k k'"
| exited: "sched_process_exit e k = (k', v) \<Longrightarrow> kstep Hook k k'"
| evict_mark: "kstep (EvictMark i) k (k\<lparr>INODE_MARKS := (INODE_MARKS k)(i := None)\<rparr>)"
| evict_interp: "kstep (EvictInterp i) k (k\<lparr>INTERP_INODE := (INTERP_INODE k)(i := None)\<rparr>)"
| evict_net: "kstep (EvictPid p) k (k\<lparr>NET_PIDS := (NET_PIDS k)(p := None)\<rparr>)"
| evict_prop: "kstep (EvictPid p) k (k\<lparr>PROP_PIDS := (PROP_PIDS k)(p := None)\<rparr>)"
| evict_approved: "kstep (EvictPid p) k (k\<lparr>APPROVED_INTERP := (APPROVED_INTERP k)(p := None)\<rparr>)"
| evict_copy: "kstep (EvictPid p) k (k\<lparr>INTERP_COPY_PIDS := (INTERP_COPY_PIDS k)(p := None)\<rparr>)"
| evict_interp_pid: "kstep (EvictPid p) k (k\<lparr>INTERP_PIDS := (INTERP_PIDS k)(p := None)\<rparr>)"
| backfill: "version r = ORIGIN_VERSION \<Longrightarrow> record_shape r \<Longrightarrow>
    kstep (Backfill i) k (k\<lparr>INODE_MARKS := (INODE_MARKS k)(i \<mapsto> r)\<rparr>)"
| seed: "kstep Seed k (k\<lparr>CONFIG := c, KEY := y, ALLOW_RULES := ars, ALLOW_RULE_COUNT := n,
    INTERPRETERS := ip, INTERP_INODE := ii\<rparr>)"

inductive kruns :: "klabel list \<Rightarrow> kernel \<Rightarrow> kernel \<Rightarrow> bool" where
  kruns_nil: "kruns [] k k"
| kruns_step: "kstep l k k' \<Longrightarrow> kruns ls k' k'' \<Longrightarrow> kruns (l # ls) k k''"

inductive_cases kstep_hookE: "kstep Hook k k'"
inductive_cases kruns_ConsE: "kruns (l # ls) k k'"
inductive_simps kruns_Nil_iff: "kruns [] k k'"

section \<open>The invariant\<close>

definition record_ok :: "origin_record \<Rightarrow> bool" where
  "record_ok r \<longleftrightarrow> version r = ORIGIN_VERSION \<and> record_shape r"

definition event_ok :: "event \<Rightarrow> bool" where
  "event_ok ev \<longleftrightarrow> record_ok (e_origin ev) \<and> length (e_comm ev) = COMM_LEN \<and>
    e_kind ev \<in> {EVENT_KIND_NETWORK_FILE_OPEN, EVENT_KIND_EXECVE, EVENT_KIND_DERIVED_FILE_OPEN,
      EVENT_KIND_SCRIPT_EXEC} \<and>
    (e_status ev = 0 \<or>
      e_status ev = -1 \<and> e_kind ev \<in> {EVENT_KIND_EXECVE, EVENT_KIND_SCRIPT_EXEC})"

definition kernel_inv :: "kernel \<Rightarrow> bool" where
  "kernel_inv k \<longleftrightarrow>
    (\<forall>r \<in> ran (INODE_MARKS k). record_ok r) \<and> (\<forall>r \<in> ran (PROP_PIDS k). record_ok r) \<and>
    (\<forall>ev \<in> set (EVENTS k). event_ok ev)"

lemma kernel_invD:
  assumes "kernel_inv k"
  shows "INODE_MARKS k i = Some r \<Longrightarrow> record_ok r" "PROP_PIDS k p = Some r \<Longrightarrow> record_ok r"
    "ev \<in> set (EVENTS k) \<Longrightarrow> event_ok ev"
  using assms by (auto simp: kernel_inv_def ran_def)

lemma ran_map_insert: "ran (map_insert ok key v m) \<subseteq> insert v (ran m)"
  by (auto simp: map_insert_def ran_def)

lemma ran_map_get_or_insert: "ran (map_get_or_insert ok key v m) \<subseteq> insert v (ran m)"
  by (auto simp: map_get_or_insert_def ran_def split: option.splits)

lemma ran_delete: "ran (m(key := None)) \<subseteq> ran m"
  by (auto simp: ran_def)

lemma ran_update: "ran (m(key \<mapsto> v)) \<subseteq> insert v (ran m)"
  by (auto simp: ran_def)

lemma xattr_shape: "env_ok e \<Longrightarrow> record_shape buf \<Longrightarrow> read_origin_xattr e buf = Some r \<Longrightarrow> record_shape r"
  by (auto simp: env_ok_def read_origin_xattr_def split: if_splits)

lemma current_comm_length: "env_ok e \<Longrightarrow> length (current_comm e) = COMM_LEN"
  by (simp add: env_ok_def current_comm_def zero_comm_def split: option.splits)

lemma load_mark_ok:
  assumes "env_ok e" "kernel_inv k" "load_mark e ino k = Some (rec, k')"
  shows "record_ok rec \<and> kernel_inv k'"
proof -
  have "record_ok rec"
    using assms kernel_invD(1) [OF assms(2)] xattr_shape [OF assms(1) zero_record_shape]
    by (auto simp: load_mark_def record_ok_def split: option.splits if_splits)
  moreover from this have "kernel_inv k'"
    using load_mark_frame [OF assms(3)] assms(2) ran_update [of "INODE_MARKS k" ino rec]
    by (auto simp: kernel_inv_def)
  ultimately show ?thesis by simp
qed

lemma emit_event_inv:
  assumes "env_ok e" "kernel_inv k" "record_ok rec"
    "kd \<in> {EVENT_KIND_NETWORK_FILE_OPEN, EVENT_KIND_DERIVED_FILE_OPEN, EVENT_KIND_SCRIPT_EXEC}"
    "st = 0 \<or> st = -1 \<and> kd = EVENT_KIND_SCRIPT_EXEC"
  shows "kernel_inv (emit_event e kd p rec st k)"
  using assms current_comm_length [OF assms(1)] by (auto simp: emit_event_def kernel_inv_def event_ok_def)

lemma exec_mark_ok:
  assumes "env_ok e" "kernel_inv k" "exec_mark e file k = Some rec"
  shows "record_ok rec"
proof -
  let ?stored = "case f_inode file of None \<Rightarrow> None | Some ino \<Rightarrow> INODE_MARKS k ino"
  have st: "record_ok r" if "?stored = Some r" for r
    using that kernel_invD(1) [OF assms(2)] by (auto split: option.splits)
  have "record_shape r" if "?stored = Some r" for r using st [OF that] by (simp add: record_ok_def)
  then have "record_shape rec"
    using assms(3) xattr_shape [OF assms(1)] xattr_shape [OF assms(1) zero_record_shape]
    by (auto simp: exec_mark_def Let_def split: if_splits option.splits)
  moreover have "version rec = ORIGIN_VERSION"
    using assms(3) by (auto simp: exec_mark_def Let_def split: if_splits option.splits)
  ultimately show ?thesis by (simp add: record_ok_def)
qed

lemma gate_read_inv:
  assumes "env_ok e" "kernel_inv k" "record_ok rec" "gate_read e rec k = (k', v)"
  shows "kernel_inv k'"
proof -
  have taint: "kernel_inv (taint e p rec h)" if "kernel_inv h" for p h
    using that assms(3) ran_map_insert [of "ins_ok e M_PROP" p rec "PROP_PIDS h"]
    by (auto simp: taint_def kernel_inv_def)
  obtain permit ks where s: "script_permit e rec k = (permit, ks)" by fastforce
  have "kernel_inv ks" using script_permit_frame [OF s] assms(2) by (auto simp: kernel_inv_def)
  then have em: "kernel_inv (emit_event e EVENT_KIND_SCRIPT_EXEC p rec st ks)"
    if "st = 0 \<or> st = -1" for p st
    using emit_event_inv [OF assms(1) _ assms(3)] that by simp
  have upd: "kernel_inv (h\<lparr>APPROVED_INTERP := m\<rparr>)" if "kernel_inv h" for h m
    using that by (simp add: kernel_inv_def)
  show ?thesis
    using assms(2,4) s em upd taint
    by (auto simp: gate_read_def Let_def split: if_splits)
qed

lemma mark_source_ok:
  assumes "env_ok e" "kernel_inv k" "mark_source e k = Some (kind, rec)"
  shows "record_ok rec \<and> kind \<in> {EVENT_KIND_NETWORK_FILE_OPEN, EVENT_KIND_DERIVED_FILE_OPEN}"
proof -
  have "record_shape (zero_record\<lparr>version := n, pid := p, ts_boot_ns := t, comm := current_comm e,
      creator_uid := u\<rparr>)" for n p t u
    using current_comm_length [OF assms(1)] zero_record_shape by (simp add: record_shape_def)
  with assms(3) kernel_invD(2) [OF assms(2)] show ?thesis
    by (auto simp: mark_source_def Let_def record_ok_def split: if_splits option.splits)
qed

lemma landing_ok: "record_ok rec \<Longrightarrow> record_ok (rec\<lparr>landing_folder_hash := h,
    landing_ancestor_hashes := ancestor_hashes a b p, landing_basename_hash := g\<rparr>)"
  by (simp add: record_ok_def record_shape_def ancestor_hashes_def size_consts)

lemma file_open_write_inv:
  assumes "env_ok e" "kernel_inv k"
  shows "kernel_inv (fst (file_open_write e file k))"
proof (cases "mark_source e k")
  case None
  then show ?thesis
    using assms(2) by (simp add: file_open_write_def Let_def mark_source_flag_copy kernel_inv_def)
next
  case (Some kr)
  obtain kind rec where kr: "kr = (kind, rec)" by fastforce
  note ok = mark_source_ok [OF assms Some [unfolded kr]]
  let ?k = "(flag_copy e file k)\<lparr>PATH_SCRATCH := d_path e (PATH_SCRATCH (flag_copy e file k))\<rparr>"
  have inv: "kernel_inv ?k" using assms(2) by (simp add: kernel_inv_def)
  obtain a b where ab: "hash_key ?k = (a, b)" by fastforce
  define new where "new = rec\<lparr>landing_folder_hash := fst (landing_hashes (PATH_SCRATCH ?k) a b),
    landing_ancestor_hashes := fst (snd (landing_hashes (PATH_SCRATCH ?k) a b)),
    landing_basename_hash := snd (snd (landing_hashes (PATH_SCRATCH ?k) a b))\<rparr>"
  have new: "record_ok new" using ok landing_ok by (simp add: new_def landing_hashes_eq)
  have put: "kernel_inv (?k\<lparr>INODE_MARKS := map_get_or_insert b i new (INODE_MARKS k)\<rparr>)" for b i
    using assms(2) new ran_map_get_or_insert [of b i new "INODE_MARKS k"]
    by (auto simp: kernel_inv_def)
  have em: "kernel_inv (emit_event e kind p new 0 h)" if "kernel_inv h" for p h
    using emit_event_inv [OF assms(1) that new] ok by auto
  show ?thesis
    using em [OF inv] em [OF put] inv Some ab
    by (simp add: file_open_write_def Let_def mark_source_flag_copy kr new_def split_beta
      split: option.split)
qed

lemma file_open_inv:
  assumes "env_ok e" "kernel_inv k"
  shows "kernel_inv (fst (file_open e fp k))"
proof -
  have n: "kernel_inv (note_copy e fl ino k)" for fl ino
    using assms(2) by (simp add: kernel_inv_def)
  have "kernel_inv (fst (file_open_read e fl k))" for fl
    using assms(2) n load_mark_ok [OF assms(1) n] gate_read_inv [OF assms(1)]
    by (auto simp: file_open_read_def Let_def split: option.split) (metis prod.collapse)
  with file_open_write_inv [OF assms] assms(2) show ?thesis
    by (simp add: file_open_def split: option.split)
qed

lemma bprm_check_inv:
  assumes "env_ok e" "kernel_inv k"
  shows "kernel_inv (fst (bprm_check_security e rv b k))"
  using assms exec_mark_ok [OF assms] current_comm_length [OF assms(1)]
  by (auto simp: bprm_check_security_def Let_def kernel_inv_def event_ok_def split: option.split)

lemma kstep_inv: "kstep l k k' \<Longrightarrow> kernel_inv k \<Longrightarrow> kernel_inv k'"
proof (induction rule: kstep.induct)
  case (connect e rv a k k' v)
  have "k' = k\<lparr>NET_PIDS := NET_PIDS k'\<rparr>" using connect connect_frame by blast
  moreover have "kernel_inv (k\<lparr>NET_PIDS := m\<rparr>)" for m using connect by (simp add: kernel_inv_def)
  ultimately show ?case by metis
next
  case (opened e fp k k' v)
  then show ?case using file_open_inv [of e k fp] by simp
next
  case (check e rv b k k' v)
  then show ?case using bprm_check_inv [of e k rv b] by simp
next
  case (committed e b k k' v)
  have "k' = k\<lparr>INTERP_PIDS := INTERP_PIDS k'\<rparr>" using committed committed_frame by blast
  moreover have "kernel_inv (k\<lparr>INTERP_PIDS := m\<rparr>)" for m using committed by (simp add: kernel_inv_def)
  ultimately show ?case by metis
next
  case (exited e k k' v)
  have "ran (PROP_PIDS k') \<subseteq> ran (PROP_PIDS k)"
    using exited(1) ran_delete [of "PROP_PIDS k" "current_pid e"]
    by (auto simp: sched_process_exit_def Let_def split: if_splits)
  with exit_frame [OF exited(1)] exited(2) show ?case by (auto simp: kernel_inv_def)
next
  case (evict_mark i k)
  then show ?case using ran_delete [of "INODE_MARKS k" i] by (auto simp: kernel_inv_def)
next
  case (evict_prop p k)
  then show ?case using ran_delete [of "PROP_PIDS k" p] by (auto simp: kernel_inv_def)
next
  case (backfill r i k)
  then show ?case using ran_update [of "INODE_MARKS k" i r]
    by (auto simp: kernel_inv_def record_ok_def)
qed (simp_all add: kernel_inv_def)

lemma kruns_inv: "kruns ls k k' \<Longrightarrow> kernel_inv k \<Longrightarrow> kernel_inv k'"
  by (induction rule: kruns.induct) (auto dest: kstep_inv)

section \<open>Runs\<close>

lemma kstep_keeps_mark:
  "kstep l k k' \<Longrightarrow> INODE_MARKS k i = Some r \<Longrightarrow> l \<noteq> EvictMark i \<Longrightarrow> l \<noteq> Backfill i \<Longrightarrow>
    INODE_MARKS k' i = Some r"
proof (induction rule: kstep.induct)
  case (connect e rv a k k' v)
  then show ?case using connect_frame [OF connect(2)] by (metis kernel.ext_inject kernel.surjective
    kernel.update_convs(1) kernel.select_convs(5))
next
  case (opened e fp k k' v)
  then show ?case using file_open_keeps_marks by blast
next
  case (check e rv b k k' v)
  then show ?case using bprm_check_frame [OF check(2)] by (metis kernel.surjective
    kernel.update_convs(9) kernel.select_convs(5))
next
  case (committed e b k k' v)
  then show ?case using committed_frame [OF committed(2)] by (metis kernel.surjective
    kernel.update_convs(8) kernel.select_convs(5))
next
  case (exited e k k' v)
  then show ?case using exit_frame by metis
qed auto

lemma kruns_keep_mark:
  "kruns ls k k' \<Longrightarrow> INODE_MARKS k i = Some r \<Longrightarrow> EvictMark i \<notin> set ls \<Longrightarrow> Backfill i \<notin> set ls \<Longrightarrow>
    INODE_MARKS k' i = Some r"
  by (induction rule: kruns.induct) (auto dest: kstep_keeps_mark)

text \<open>
  In every state reachable by any interleaving of hooks, evictions, back-fills and reseeding,
  every stored or inherited record and every record sent in an event is a complete record of the
  current schema, every event has a name of 16 bytes and one of the four kinds, and only exec and script events carry
  a denial.
\<close>

theorem reachable_invariant:
  assumes "kruns ls k0' k" "ran (INODE_MARKS k0') = {}" "ran (PROP_PIDS k0') = {}" "EVENTS k0' = []"
  shows "kernel_inv k"
  by (rule kruns_inv [OF assms(1)]) (simp add: kernel_inv_def assms)

lemma sample_env_ok: "env_ok sample_env"
  by (simp add: env_ok_def sample_env_def sample_comm_def size_consts)

lemma hook_steps:
  "kstep Hook k (fst (socket_connect sample_env rv a k))"
  "kstep Hook k (fst (file_open sample_env fp k))" "kstep Hook k (fst (sched_process_exit e k))"
  using connect [OF sample_env_ok prod.collapse [symmetric]]
    opened [OF sample_env_ok prod.collapse [symmetric]] exited [OF prod.collapse [symmetric]]
  by simp_all

text \<open>
  C12: A mark sticks. Once an inode is marked, every interleaving of hooks by any processes, of
  evictions of other inodes and of processes, and of reseeding keeps its record, and an exec of
  the file in enforce mode is decided on a current record, until that inode is evicted or the
  daemon back-fills it.
\<close>

theorem mark_sticks:
  assumes "kruns ls k k'" "INODE_MARKS k i = Some r" "version r = ORIGIN_VERSION"
    and "EvictMark i \<notin> set ls" "Backfill i \<notin> set ls" "f_inode file = Some i"
  shows "INODE_MARKS k' i = Some r \<and>
    (\<exists>rec. exec_mark e file k' = Some rec \<and> version rec = ORIGIN_VERSION)"
proof -
  have m: "INODE_MARKS k' i = Some r" using kruns_keep_mark [OF assms(1,2,4,5)] .
  then show ?thesis
    using assms(3,6) by (cases "read_origin_xattr e r") (auto simp: exec_mark_def Let_def)
qed

theorem mark_sticks_witness:
  "INODE_MARKS (fst (sched_process_exit sample_env script_kernel)) 3 = Some sample_mark"
proof -
  have "kruns [Hook] script_kernel (fst (sched_process_exit sample_env script_kernel))"
    by (rule kruns_step [OF hook_steps(3) kruns_nil])
  from mark_sticks [OF this, of 3 sample_mark "reg_file 3 0"] show ?thesis
    by (simp add: script_kernel_def sample_mark_def reg_file_def)
qed

end
