(* ===== verification/Rule_Store.thy ===== *)
theory Rule_Store
  imports Rule_Lines
begin

text \<open>
  The allowlist file as a store: loading keeps one rule per canonical line, soak mode appends a
  rule at most once and never past the capacity of the BPF map, and what soak appended is what
  the next load reads.
\<close>

section \<open>Loading\<close>

definition rules_inv :: "b64_engine \<Rightarrow> rules \<Rightarrow> bool" where
  "rules_inv E R \<longleftrightarrow>
    seen_lines R = set (map (to_line E) (rule_list R)) \<and>
    distinct (map (to_line E) (rule_list R)) \<and>
    (\<forall>spec \<in> set (rule_list R). spec_ok spec \<and> s_flags spec \<noteq> 0)"

lemma rules_inv_default: "rules_inv E rules_default"
  by (simp add: rules_inv_def rules_default_def)

lemma rules_inv_insert:
  assumes "rules_inv E R" "spec_ok spec" "s_flags spec \<noteq> 0"
  shows "rules_inv E (fst (rules_insert E spec R))"
  using assms by (auto simp: rules_inv_def rules_insert_def Let_def)

lemma rules_inv_load_lines:
  "rules_inv E R \<Longrightarrow> load_lines E i ls R = Inr R' \<Longrightarrow> rules_inv E R'"
proof (induction E i ls R rule: load_lines.induct)
  case (3 E i l ls R)
  then show ?case
    using rule_parse_ok rules_inv_insert
    by (auto simp: Let_def split: if_splits sum.splits)
qed simp_all

lemma rules_inv_load: "rules_load E f = Inr R \<Longrightarrow> rules_inv E R"
  using rules_inv_load_lines [OF rules_inv_default]
  by (auto simp: rules_load_def rules_inv_default split: file_open_result.splits)

lemma load_lines_snoc:
  "load_lines E i (ls @ [l]) R =
    (case load_lines E i ls R of Inl e \<Rightarrow> Inl e | Inr R' \<Rightarrow> load_lines E (i + length ls) [l] R')"
proof (induction E i ls R rule: load_lines.induct)
  case (3 E i l' ls R)
  then show ?case by (auto simp: Let_def split: sum.splits)
qed simp_all

lemma newline_control: "control_byte (CHR 0x0D)" "control_byte (CHR 0x0A)"
  by (simp_all add: control_byte_def)

lemma str_split_hd: "c \<notin> set s \<Longrightarrow> hd (str_split c s) = s"
  by (simp add: str_split_none)

context base64_standard
begin

text \<open>Reading one line that \<open>to_line\<close> wrote.\<close>

lemma load_written_line:
  assumes "spec_ok spec" "spec_utf8 spec" "rec_plain spec" "s_flags spec \<noteq> 0"
  shows "line_of (to_line E spec) = Some (to_line E spec)"
    and "load_lines E i [Some (to_line E spec)] R = Inr (fst (rules_insert E spec R))"
proof -
  note safe = to_line_safe [OF assms(1-3)]
  have cr: "CHR 0x0D \<notin> set (to_line E spec)" "CHR ''#'' \<notin> set (to_line E spec)"
    using safe(2) newline_control by blast+
  then have "\<not> str_ends_with_char (CHR 0x0D) (to_line E spec)"
    by (metis last_in_set str_ends_with_char_def)
  with safe(3) show "line_of (to_line E spec) = Some (to_line E spec)"
    by (simp add: line_of_def str_strip_suffix_char_def)
  have "strip_comment (to_line E spec) = to_line E spec"
    using cr safe(1) by (simp add: strip_comment_def str_split_hd str_trim_trimmed)
  moreover have "to_line E spec \<noteq> []"
    using parse_to_line [OF assms] by (auto simp: rule_parse_def default_spec_def str_trim_trimmed)
  ultimately show "load_lines E i [Some (to_line E spec)] R = Inr (fst (rules_insert E spec R))"
    using parse_to_line [OF assms] by (simp add: Let_def)
qed

lemma load_appended_line:
  assumes "spec_ok spec" "spec_utf8 spec" "rec_plain spec" "s_flags spec \<noteq> 0"
    and "content = [] \<or> last content = CHR 0x0A"
    and "rules_load E (FileBytes content) = Inr R"
  shows "rules_load E (FileBytes (content @ to_line E spec @ [CHR 0x0A])) =
    Inr (fst (rules_insert E spec R))"
proof -
  have "CHR 0x0A \<notin> set (to_line E spec)"
    using to_line_safe(2) [OF assms(1-3)] newline_control by blast
  from read_lines_append [OF assms(5) this] load_written_line [OF assms(1-4)] assms(6)
  show ?thesis by (simp add: rules_load_def load_lines_snoc del: load_lines.simps)
qed

end

section \<open>Rules from events\<close>

text \<open>The values an event context has when the names in it are proper.\<close>

definition ctx_ok :: "origin_context \<Rightarrow> bool" where
  "ctx_ok ctx \<longleftrightarrow>
    length (c_creator_comm ctx) < COMM_LEN \<and> utf8_valid (c_creator_comm ctx) \<and>
    utf8_valid (c_target_filename ctx) \<and> utf8_opt (c_landing_folder ctx) \<and>
    folder_ok (c_landing_folder ctx) \<and> utf8_opt (c_landing_basename ctx) \<and>
    utf8_opt (c_creator_path ctx)"

lemma context_step_ok:
  assumes "length (c_creator_comm ctx) < COMM_LEN" "spec_ok spec"
  shows "spec_ok (context_step ctx spec d)"
proof (cases "context_value ctx d")
  case (Some v)
  obtain spec' err where s: "rule_set d v spec = (spec', err)" by fastforce
  have "err = None \<or> spec' = spec"
    using s Some assms(1)
    by (cases d) (auto simp: rule_set_def Let_def non_empty_def parse_show_u32
      split: if_splits prod.splits)
  with rule_set_ok [OF assms(2)] s Some assms(2) show ?thesis
    by (auto simp: context_step_def)
qed (use assms in \<open>simp add: context_step_def\<close>)

lemma rule_from_context_ok:
  assumes "length (c_creator_comm ctx) < COMM_LEN"
  shows "spec_ok (rule_from_context ctx dims)"
proof -
  have "spec_ok spec \<Longrightarrow> spec_ok (foldl (context_step ctx) spec dims)" for spec
    by (induction dims arbitrary: spec) (simp_all add: context_step_ok [OF assms])
  then show ?thesis by (simp add: rule_from_context_def spec_ok_default)
qed

lemma folder_of_ok:
  assumes "folder_of p = Some f"
  shows "str_ends_with_char SLASH f" "utf8_valid p \<Longrightarrow> utf8_valid f"
proof -
  obtain a b where ab: "str_split_once SLASH (rev p) = Some (a, b)"
    using assms by (auto simp: folder_of_def str_rsplit_once_def split: if_splits option.splits)
  then have p: "p = rev b @ SLASH # rev a"
    using str_split_once_SomeD [OF ab] by (metis append.assoc append_Cons append_Nil rev.simps(2)
      rev_append rev_rev_ident)
  have f: "f = rev b @ ''/''"
    using assms ab by (auto simp: folder_of_def str_rsplit_once_def split: if_splits)
  then show "str_ends_with_char SLASH f" by (simp add: str_ends_with_char_def)
  have "utf8_valid ''/''" by (intro utf8_valid_ascii) simp
  with f p show "utf8_valid p \<Longrightarrow> utf8_valid f"
    using utf8_valid_split [of "rev b" SLASH "rev a"] by (simp add: utf8_valid_append)
qed

text \<open>Context values are valid text, and no folder of a context carries the \<open>*\<close> modifier.\<close>

lemma context_value_ok:
  assumes "ctx_ok ctx" "context_value ctx d = Some v"
  shows "utf8_valid v" "d = TargetFolder \<or> d = LandingFolder \<Longrightarrow> str_ends_with_char SLASH v"
  using assms folder_of_ok
  by (cases d; auto simp: ctx_ok_def non_empty_def utf8_opt_def folder_ok_def show_u32_utf8
    split: if_splits)+

lemma normalize_utf8: "str_ends_with_char SLASH v \<Longrightarrow> utf8_valid v \<Longrightarrow> utf8_valid (normalize_folder v)"
  by (simp add: normalize_folder_def)

lemma rule_set_plain:
  assumes "utf8_valid v" "d = TargetFolder \<or> d = LandingFolder \<Longrightarrow> str_ends_with_char SLASH v"
    and "spec_utf8 spec" "\<not> bit (s_flags spec) 8" "\<not> bit (s_flags spec) 9"
  shows "spec_utf8 (fst (rule_set d v spec)) \<and> \<not> bit (s_flags (fst (rule_set d v spec))) 8 \<and>
    \<not> bit (s_flags (fst (rule_set d v spec))) 9"
proof -
  have "\<not> bit (dim_bit d) 8" "\<not> bit (dim_bit d) 9" by (cases d; simp add: dim_consts)+
  with assms show ?thesis
    by (cases d) (auto simp: rule_set_def Let_def spec_utf8_def utf8_opt_def bit_or_iff
      split_recursive_slash normalize_folder_id split: option.splits)
qed

lemma rule_from_context_plain:
  assumes "ctx_ok ctx"
  shows "spec_utf8 (rule_from_context ctx dims) \<and> rec_plain (rule_from_context ctx dims)"
proof -
  let ?P = "\<lambda>spec. spec_utf8 spec \<and> \<not> bit (s_flags spec) 8 \<and> \<not> bit (s_flags spec) 9"
  have step: "?P (context_step ctx spec d)" if "?P spec" for spec d
  proof (cases "context_value ctx d")
    case (Some v)
    with rule_set_plain [OF context_value_ok [OF assms Some]] that show ?thesis
      by (simp add: context_step_def)
  qed (use that in \<open>simp add: context_step_def\<close>)
  have "?P spec \<Longrightarrow> ?P (foldl (context_step ctx) spec dims)" for spec
  proof (induction dims arbitrary: spec)
    case (Cons d dims)
    from Cons.IH [OF step [OF Cons.prems, of d]] show ?case by simp
  qed simp
  moreover have "?P default_spec" by (simp add: default_spec_def spec_utf8_def utf8_opt_def)
  ultimately have "?P (rule_from_context ctx dims)" unfolding rule_from_context_def by blast
  then show ?thesis by (simp add: rec_plain_def rec_flags)
qed

section \<open>Soak\<close>

text \<open>The append handle and the duplicate set agree with what a load of the file would give.\<close>

definition soak_sync :: "b64_engine \<Rightarrow> soak \<Rightarrow> rules \<Rightarrow> bool" where
  "soak_sync E S R \<longleftrightarrow>
    rules_load E (FileBytes (soak_writer S)) = Inr R \<and> soak_seen S = seen_lines R \<and>
    (soak_writer S = [] \<or> last (soak_writer S) = CHR 0x0A)"

lemma soak_record_bounded:
  assumes "finite (soak_seen S)" "soak_record E w ctx S = (S', res)"
  shows "card (soak_seen S') \<le> max (card (soak_seen S)) MAX_RULES"
  using assms by (auto simp: soak_record_def Let_def card_insert_if split: if_splits option.splits)

context base64_standard
begin

lemma soak_record_sync:
  assumes "ctx_ok ctx" "soak_sync E S R" "soak_record E None ctx S = (S', res)"
  shows "soak_sync E S' (case res of Some (Some line) \<Rightarrow>
      fst (rules_insert E (rule_from_context ctx (soak_dims S)) R) | _ \<Rightarrow> R)"
proof -
  let ?spec = "rule_from_context ctx (soak_dims S)"
  show ?thesis
  proof (cases "res = Some None")
    case True
    with assms(2,3) show ?thesis
      by (auto simp: soak_record_def Let_def split: if_splits)
  next
    case False
    with assms(3) have f: "s_flags ?spec \<noteq> 0" "to_line E ?spec \<notin> soak_seen S"
      and S': "S' = S\<lparr>soak_seen := insert (to_line E ?spec) (soak_seen S),
        soak_writer := soak_writer S @ to_line E ?spec @ [CHR 0x0A]\<rparr>"
      and res: "res = Some (Some (to_line E ?spec))"
      by (auto simp: soak_record_def Let_def split: if_splits)
    have ok: "spec_ok ?spec" "spec_utf8 ?spec" "rec_plain ?spec"
      using assms(1) rule_from_context_ok rule_from_context_plain by (auto simp: ctx_ok_def)
    from load_appended_line [OF ok f(1)] assms(2) f(2) show ?thesis
      by (simp add: S' res soak_sync_def rules_insert_def Let_def)
  qed
qed

end

section \<open>Properties\<close>

text \<open>
  Loading keeps one rule per canonical line: whatever the file holds, the loaded rules are
  well-formed, their lines are pairwise different, and the set used to spot duplicates is
  exactly the set of those lines.
\<close>

theorem load_keeps_distinct_rules:
  assumes "rules_load E f = Inr R"
  shows "rules_inv E R"
  using assms by (rule rules_inv_load)

theorem load_keeps_distinct_rules_witness:
  "rules_inv rfc4648_engine (fst (rules_insert rfc4648_engine uid_spec rules_default))"
  by (rule load_keeps_distinct_rules [of rfc4648_engine,
      OF rfc4648.load_appended_line [OF uid_spec_ok, of "[]" rules_default]])
    (simp_all add: rules_load_def read_lines_def)


text \<open>
  C19: What soak appends is what the next start loads. While the file and the known lines agree,
  recording a new rule appends one line, and loading the file then gives the earlier rules
  followed by exactly the recorded rule.
\<close>

theorem soak_reload:
  assumes "base64_standard E" "ctx_ok ctx" "soak_sync E S R"
    and "soak_record E None ctx S = (S', Some (Some line))"
  shows "\<exists>R'. rules_load E (FileBytes (soak_writer S')) = Inr R' \<and>
    rule_list R' = rule_list R @ [rule_from_context ctx (soak_dims S)] \<and>
    line = to_line E (rule_from_context ctx (soak_dims S)) \<and> soak_sync E S' R'"
proof -
  let ?spec = "rule_from_context ctx (soak_dims S)"
  have l: "line = to_line E ?spec" "line \<notin> soak_seen S"
    using assms(4) by (auto simp: soak_record_def Let_def split: if_splits)
  have "soak_sync E S' (fst (rules_insert E ?spec R))"
    using base64_standard.soak_record_sync [OF assms] by simp
  moreover have "rule_list (fst (rules_insert E ?spec R)) = rule_list R @ [?spec]"
    using l assms(3) by (simp add: rules_insert_def soak_sync_def Let_def)
  ultimately show ?thesis using l(1) by (auto simp: soak_sync_def)
qed

definition sample_ctx :: origin_context where
  "sample_ctx = \<lparr>c_target_filename = ''/tmp/x'', c_landing_folder = None, c_landing_basename = None,
     c_creator_path = None, c_creator_comm = ''curl'', c_creator_uid = 7, c_execution_uid = 7\<rparr>"

definition sample_soak :: soak where
  "sample_soak = \<lparr>soak_dims = [CreatorUid], soak_seen = {}, soak_writer = []\<rparr>"

lemma sample_ctx_ok: "ctx_ok sample_ctx"
  by (simp add: ctx_ok_def sample_ctx_def utf8_opt_def folder_ok_def size_consts utf8_valid_ascii)

lemma sample_rule: "rule_from_context sample_ctx [CreatorUid] = uid_spec"
  by (simp add: rule_from_context_def context_step_def sample_ctx_def rule_set_def default_spec_def
    parse_show_u32 uid_spec_def dim_consts Let_def)

lemma sample_record: "soak_record rfc4648_engine None sample_ctx sample_soak =
    (\<lparr>soak_dims = [CreatorUid], soak_seen = {''creator_uid=7''},
      soak_writer = ''creator_uid=7'' @ [CHR 0x0A]\<rparr>, Some (Some ''creator_uid=7''))"
  using uid_spec_ok(4) by (simp add: soak_record_def sample_rule uid_spec_line sample_soak_def size_consts Let_def)


theorem soak_reload_witness:
  "\<exists>R'. rules_load rfc4648_engine (FileBytes (''creator_uid=7'' @ [CHR 0x0A])) = Inr R' \<and>
    rule_list R' = [uid_spec]"
proof -
  have "soak_sync rfc4648_engine sample_soak rules_default"
    by (simp add: soak_sync_def sample_soak_def rules_load_def read_lines_def rules_default_def)
  from soak_reload [OF rfc4648.base64_standard_axioms sample_ctx_ok this sample_record] sample_rule
  show ?thesis by (auto simp: sample_soak_def rules_default_def)
qed



end
