(* ===== verification/Control.thy ===== *)
theory Control
  imports Rule_Store
begin

text \<open>
  \<open>linprov/src/control.rs\<close>: the table of pending blocks with its tokens, the wire form of control
  events, and the application of an \<open>allow\<close> to the allowlist file or to the in-memory rules.

  The file system is a function from paths to what opening them gives; an operation that writes
  returns the changed function. Whether the file can be opened for appending, and after how many
  bytes a write fails if it does, are arguments.
\<close>

section \<open>Events on the control channel\<close>

definition MAX_BLOCKS :: nat where "MAX_BLOCKS = 512"

definition TAB :: char where "TAB = CHR 0x09"

record block_event =
  be_kind :: string
  be_token :: string
  be_target :: string
  be_creator :: string

definition block_to_wire :: "block_event \<Rightarrow> string" where
  "block_to_wire b =
    ''BLOCK'' @ [TAB] @ be_token b @ [TAB] @ be_kind b @ [TAB] @ escape (be_target b) @ [TAB] @
    escape (be_creator b)"

datatype control_event = Block block_event | Resolved string

fun event_to_wire :: "control_event \<Rightarrow> string" where
  "event_to_wire (Block b) = block_to_wire b"
| "event_to_wire (Resolved token) = ''RESOLVED'' @ [TAB] @ token"

section \<open>Pending blocks\<close>

record block_record =
  b_token :: string
  b_kind :: string
  b_rule_line :: string
  b_target :: string
  b_creator :: string
  b_dev :: u64
  b_ino :: u64

record blocks_table =
  bt_map :: "string \<rightharpoonup> block_record"
  bt_order :: "string list"
  bt_k0 :: u64
  bt_k1 :: u64

definition blocks_new :: "u64 \<Rightarrow> u64 \<Rightarrow> blocks_table" where
  "blocks_new a b = \<lparr>bt_map = (\<lambda>t. None), bt_order = [], bt_k0 = a, bt_k1 = b\<rparr>"

text \<open>\<open>format!("{:08x}", siphash(..) as u32)\<close>.\<close>

definition block_token :: "blocks_table \<Rightarrow> string \<Rightarrow> string" where
  "block_token T rule_line =
    show_hex_padded 8 (unat (ucast (siphash (bt_k0 T) (bt_k1 T) rule_line) :: u32))"

definition blocks_record ::
    "string \<Rightarrow> string \<Rightarrow> string \<Rightarrow> string \<Rightarrow> u64 \<Rightarrow> u64 \<Rightarrow> blocks_table \<Rightarrow> blocks_table \<times> string" where
  "blocks_record kind rule_line target creator dev ino T =
    (let token = block_token T rule_line in
     case bt_map T token of
       Some rec \<Rightarrow>
         (T\<lparr>bt_map := (bt_map T)(token \<mapsto>
            rec\<lparr>b_target := target, b_creator := creator, b_dev := dev, b_ino := ino\<rparr>)\<rparr>, token)
     | None \<Rightarrow>
        (let T = (if MAX_BLOCKS \<le> length (bt_order T) then
                   (case bt_order T of
                      [] \<Rightarrow> T
                    | old # rest \<Rightarrow>
                        T\<lparr>bt_order := rest, bt_map := (bt_map T)(old := None)\<rparr>)
                  else T)
         in (T\<lparr>bt_order := bt_order T @ [token],
               bt_map := (bt_map T)(token \<mapsto>
                 \<lparr>b_token = token, b_kind = kind, b_rule_line = rule_line, b_target = target,
                  b_creator = creator, b_dev = dev, b_ino = ino\<rparr>)\<rparr>, token)))"

definition rule_for :: "blocks_table \<Rightarrow> string \<Rightarrow> string option" where
  "rule_for T token = map_option b_rule_line (bt_map T token)"

definition record_for :: "blocks_table \<Rightarrow> string \<Rightarrow> block_record option" where
  "record_for T token = bt_map T token"

definition blocks_list :: "blocks_table \<Rightarrow> block_record list" where
  "blocks_list T = List.map_filter (\<lambda>t. bt_map T t) (bt_order T)"

definition blocks_remove :: "string \<Rightarrow> blocks_table \<Rightarrow> blocks_table \<times> bool" where
  "blocks_remove token T =
    (case bt_map T token of
       Some _ \<Rightarrow> (T\<lparr>bt_map := (bt_map T)(token := None),
                   bt_order := filter (\<lambda>t. t \<noteq> token) (bt_order T)\<rparr>, True)
     | None \<Rightarrow> (T, False))"

section \<open>Applying a decision\<close>

type_synonym file_system = "string \<Rightarrow> file_open_result"

record control =
  allowlist_path :: "string option"
  transient :: "rule_spec list"
  blocks :: blocks_table

definition control_new :: "string option \<Rightarrow> u64 \<Rightarrow> u64 \<Rightarrow> control" where
  "control_new p a b = \<lparr>allowlist_path = p, transient = [], blocks = blocks_new a b\<rparr>"

datatype control_error = UnknownToken string | BadCandidate rule_error | NoSelectedDims
  | BadProjection rule_error | LoadFailed load_error | AtCapacity | NoAllowlistFile
  | AppendOpenFailed | AppendFailed

definition combined :: "b64_engine \<Rightarrow> file_system \<Rightarrow> control \<Rightarrow> load_error + rule_spec list" where
  "combined E fs C =
    (case allowlist_path C of
       None \<Rightarrow> Inr ([] @ transient C)
     | Some p \<Rightarrow>
        (case rules_load E (fs p) of
           Inl e \<Rightarrow> Inl e
         | Inr R \<Rightarrow> Inr (rule_list R @ transient C)))"

definition file_content :: "file_open_result \<Rightarrow> bytes" where
  "file_content f = (case f of FileBytes c \<Rightarrow> c | _ \<Rightarrow> [])"

definition append_persistent ::
    "b64_engine \<Rightarrow> bool \<Rightarrow> nat option \<Rightarrow> string \<Rightarrow> file_system \<Rightarrow> control \<Rightarrow>
      file_system \<times> control_error option" where
  "append_persistent E open_ok write_err line fs C =
    (case allowlist_path C of
       None \<Rightarrow> (fs, Some NoAllowlistFile)
     | Some p \<Rightarrow>
        (case rules_load E (fs p) of
           Inl e \<Rightarrow> (fs, Some (LoadFailed e))
         | Inr R \<Rightarrow>
            if \<exists>r \<in> set (rule_list R). to_line E r = line then (fs, None)
            else if \<not> open_ok then (fs, Some AppendOpenFailed)
            else (case write_err of
                    Some n \<Rightarrow>
                      (fs(p := FileBytes (file_content (fs p) @ take n (line @ [CHR 0x0A]))),
                       Some AppendFailed)
                  | None \<Rightarrow>
                      (fs(p := FileBytes (file_content (fs p) @ line @ [CHR 0x0A])), None))))"

definition candidate_line ::
    "b64_engine \<Rightarrow> dim list option \<Rightarrow> string \<Rightarrow> control_error + string" where
  "candidate_line E dims candidate =
    (case rule_parse E candidate of
       Inl e \<Rightarrow> Inl (BadCandidate e)
     | Inr spec \<Rightarrow>
        (case dims of
           Some ds \<Rightarrow>
             (let projected = project spec ds in
              if s_flags projected = 0 then Inl NoSelectedDims else Inr (to_line E projected))
         | None \<Rightarrow> Inr (to_line E spec)))"

definition apply_with_dims ::
    "b64_engine \<Rightarrow> bool \<Rightarrow> nat option \<Rightarrow> string \<Rightarrow> bool \<Rightarrow> dim list option \<Rightarrow> file_system \<Rightarrow> control \<Rightarrow>
      file_system \<times> control \<times> (control_error + string)" where
  "apply_with_dims E open_ok write_err token once dims fs C =
    (case rule_for (blocks C) token of
       None \<Rightarrow> (fs, C, Inl (UnknownToken token))
     | Some candidate \<Rightarrow>
        (case candidate_line E dims candidate of
           Inl e \<Rightarrow> (fs, C, Inl e)
         | Inr line \<Rightarrow>
            (case rule_parse E line of
               Inl e \<Rightarrow> (fs, C, Inl (BadProjection e))
             | Inr parsed \<Rightarrow>
                if once then
                  if \<exists>r \<in> set (transient C). to_line E r = line then (fs, C, Inr line)
                  else (case combined E fs C of
                          Inl e \<Rightarrow> (fs, C, Inl (LoadFailed e))
                        | Inr rs \<Rightarrow>
                            if MAX_RULES \<le> length rs then (fs, C, Inl AtCapacity)
                            else (fs, C\<lparr>transient := transient C @ [parsed]\<rparr>, Inr line))
                else (case append_persistent E open_ok write_err line fs C of (fs, err) \<Rightarrow>
                        (case err of None \<Rightarrow> (fs, C, Inr line) | Some e \<Rightarrow> (fs, C, Inl e))))))"

section \<open>The table as an interface\<close>

text \<open>
  What the daemon relies on: a recorded block can be looked up under the token that was returned,
  a removed one cannot, and both keep the table consistent.
\<close>

locale pending_table =
  fixes inv :: "'t \<Rightarrow> bool"
    and look :: "'t \<Rightarrow> 'k \<Rightarrow> 'v option"
    and rec :: "'a \<Rightarrow> 't \<Rightarrow> 't \<times> 'k"
    and rem :: "'k \<Rightarrow> 't \<Rightarrow> 't \<times> bool"
    and size_of :: "'t \<Rightarrow> nat"
    and cap :: nat
  assumes rec_inv: "inv T \<Longrightarrow> inv (fst (rec a T))"
    and rem_inv: "inv T \<Longrightarrow> inv (fst (rem key T))"
    and look_rec: "inv T \<Longrightarrow> look (fst (rec a T)) (snd (rec a T)) \<noteq> None"
    and look_rem: "look (fst (rem key T)) key = None"
    and look_rem_other: "key' \<noteq> key \<Longrightarrow> look (fst (rem key T)) key' = look T key'"
    and size_cap: "inv T \<Longrightarrow> size_of T \<le> cap"
begin

text \<open>Any sequence of recordings and removals.\<close>

fun run :: "('a + 'k) list \<Rightarrow> 't \<Rightarrow> 't" where
  "run [] T = T"
| "run (Inl a # ops) T = run ops (fst (rec a T))"
| "run (Inr key # ops) T = run ops (fst (rem key T))"

lemma run_inv: "inv T \<Longrightarrow> inv (run ops T)"
  by (induction ops T rule: run.induct) (simp_all add: rec_inv rem_inv)

lemma run_bounded: "inv T \<Longrightarrow> size_of (run ops T) \<le> cap"
  using run_inv size_cap by blast

lemma decided_until_recurs: "look (fst (rem (snd (rec a T)) (fst (rec a T)))) (snd (rec a T)) = None"
  by (rule look_rem)

end

definition blocks_inv :: "blocks_table \<Rightarrow> bool" where
  "blocks_inv T \<longleftrightarrow>
    distinct (bt_order T) \<and> dom (bt_map T) = set (bt_order T) \<and> length (bt_order T) \<le> MAX_BLOCKS \<and>
    (\<forall>t r. bt_map T t = Some r \<longrightarrow> b_token r = t)"

lemma blocks_inv_new: "blocks_inv (blocks_new a b)"
  by (simp add: blocks_inv_def blocks_new_def)

lemma blocks_inv_record:
  assumes "blocks_inv T"
  shows "blocks_inv (fst (blocks_record kind line target creator dev ino T))"
proof (cases "bt_map T (block_token T line)")
  case (Some r)
  with assms show ?thesis
    by (auto simp: blocks_record_def Let_def blocks_inv_def)
next
  case None
  then have nin: "block_token T line \<notin> set (bt_order T)" using assms by (auto simp: blocks_inv_def)
  show ?thesis
  proof (cases "MAX_BLOCKS \<le> length (bt_order T)")
    case False
    with None assms nin show ?thesis by (auto simp: blocks_record_def Let_def blocks_inv_def)
  next
    case True
    then obtain old rest where o: "bt_order T = old # rest"
      by (cases "bt_order T") (auto simp: MAX_BLOCKS_def)
    with None assms nin True show ?thesis
      by (auto simp: blocks_record_def Let_def blocks_inv_def split: if_splits)
  qed
qed

lemma blocks_inv_remove: "blocks_inv T \<Longrightarrow> blocks_inv (fst (blocks_remove t T))"
  by (auto simp: blocks_remove_def blocks_inv_def split: option.splits
    intro: le_trans [OF length_filter_le])

lemma blocks_record_snd: "snd (blocks_record kind line target creator dev ino T) = block_token T line"
  by (simp add: blocks_record_def Let_def split: option.split)

lemma blocks_record_found:
  "record_for (fst (blocks_record kind line target creator dev ino T)) (block_token T line) \<noteq> None"
  by (simp add: blocks_record_def record_for_def Let_def split: option.split)

definition record_block :: "string \<times> string \<times> string \<times> string \<times> u64 \<times> u64 \<Rightarrow> blocks_table \<Rightarrow> blocks_table \<times> string" where
  "record_block a T = (case a of (kind, line, target, creator, dev, ino) \<Rightarrow>
     blocks_record kind line target creator dev ino T)"

interpretation pending: pending_table blocks_inv record_for record_block blocks_remove
    "\<lambda>T. length (bt_order T)" MAX_BLOCKS
proof
  fix T :: blocks_table and a :: "string \<times> string \<times> string \<times> string \<times> u64 \<times> u64" and t t' :: string
  obtain kind line target creator dev ino where a: "a = (kind, line, target, creator, dev, ino)"
    using prod_cases6 by blast
  show "blocks_inv T \<Longrightarrow> blocks_inv (fst (record_block a T))"
    by (simp add: a record_block_def blocks_inv_record)
  show "blocks_inv T \<Longrightarrow> record_for (fst (record_block a T)) (snd (record_block a T)) \<noteq> None"
    using blocks_record_found by (simp add: a record_block_def blocks_record_snd)
  show "record_for (fst (blocks_remove t T)) t = None"
    by (simp add: blocks_remove_def record_for_def split: option.split)
  show "t' \<noteq> t \<Longrightarrow> record_for (fst (blocks_remove t T)) t' = record_for T t'"
    by (simp add: blocks_remove_def record_for_def split: option.split)
  show "blocks_inv T \<Longrightarrow> length (bt_order T) \<le> MAX_BLOCKS" by (simp add: blocks_inv_def)
qed (rule blocks_inv_remove)

end
