(* ===== verification/Hashdb.thy ===== *)
theory Hashdb
  imports Control
begin

text \<open>
  \<open>linprov/src/hashdb.rs\<close>: the audit database that turns the hashes of a provenance record back
  into paths. Its file is append-only; the three columns of a row are the hash, the base64 of the
  path and a rendering for people. The results of creating the directory and of opening the file
  are arguments, as is the number of bytes after which an append fails.
\<close>

section \<open>Rows\<close>

definition parse_hash :: "string \<Rightarrow> u64 option" where
  "parse_hash s = map_option of_nat (parse_uint 16 (2 ^ 64) s)"

definition show_hash :: "u64 \<Rightarrow> string" where
  "show_hash h = show_hex_padded 16 (unat h)"

definition db_row :: "b64_engine \<Rightarrow> string \<Rightarrow> (u64 \<times> string) option" where
  "db_row E line =
    (case str_split_once TAB line of
       None \<Rightarrow> None
     | Some (hx, path_str) \<Rightarrow>
        (case parse_hash (str_trim hx) of
           None \<Rightarrow> None
         | Some h \<Rightarrow>
            (case str_split_once TAB path_str of
               Some (b64_col, _) \<Rightarrow>
                 (case unb64 E b64_col of Some p \<Rightarrow> Some (h, p) | None \<Rightarrow> None)
             | None \<Rightarrow> Some (h, path_str))))"

text \<open>The loop of \<open>open\<close>; a line that cannot be read ends it.\<close>

fun load_rows :: "b64_engine \<Rightarrow> string option list \<Rightarrow> (u64 \<rightharpoonup> string) \<Rightarrow> (u64 \<rightharpoonup> string)" where
  "load_rows E [] m = m"
| "load_rows E (None # ls) m = m"
| "load_rows E (Some line # ls) m =
    load_rows E ls (case db_row E line of None \<Rightarrow> m | Some (h, p) \<Rightarrow> m(h \<mapsto> p))"

definition row_line :: "b64_engine \<Rightarrow> u64 \<Rightarrow> string \<Rightarrow> string" where
  "row_line E h s = show_hash h @ [TAB] @ b64 E s @ [TAB] @ escape s"

section \<open>Operations\<close>

record hash_db =
  db_map :: "u64 \<rightharpoonup> string"
  db_writer :: bytes
  db_k0 :: u64
  db_k1 :: u64

datatype hashdb_error = CreateDirFailed | DbOpenFailed | DbAppendFailed

definition hashdb_open ::
    "b64_engine \<Rightarrow> bool \<Rightarrow> file_open_result \<Rightarrow> bool \<Rightarrow> u64 \<Rightarrow> u64 \<Rightarrow> hashdb_error + hash_db" where
  "hashdb_open E dir_ok f append_ok a b =
    (if \<not> dir_ok then Inl CreateDirFailed
     else let m = (case f of
                     FileBytes content \<Rightarrow> Some (load_rows E (read_lines content) (\<lambda>h. None))
                   | FileAbsent \<Rightarrow> Some (\<lambda>h. None)
                   | FileError \<Rightarrow> None)
       in case m of
            None \<Rightarrow> Inl DbOpenFailed
          | Some m \<Rightarrow>
              if \<not> append_ok then Inl DbAppendFailed
              else Inr \<lparr>db_map = m, db_writer = file_content f, db_k0 = a, db_k1 = b\<rparr>)"

definition hashdb_record :: "b64_engine \<Rightarrow> nat option \<Rightarrow> string \<Rightarrow> hash_db \<Rightarrow> hash_db \<times> u64" where
  "hashdb_record E write_err s D =
    (let h = siphash (db_k0 D) (db_k1 D) s in
     if db_map D h \<noteq> None then (D, h)
     else let row = row_line E h s @ [CHR 0x0A] in
       (D\<lparr>db_map := (db_map D)(h \<mapsto> s),
          db_writer := db_writer D @ (case write_err of None \<Rightarrow> row | Some n \<Rightarrow> take n row)\<rparr>, h))"

definition hashdb_resolve :: "hash_db \<Rightarrow> u64 \<Rightarrow> string option" where
  "hashdb_resolve D h = (if h = 0 then None else db_map D h)"

section \<open>The database as an interface\<close>

text \<open>
  What the event handler relies on: recording returns the keyed hash, keeps what was known, and
  leaves under the hash a string with that hash.
\<close>

locale audit_store =
  fixes keyed :: "'t \<Rightarrow> string \<Rightarrow> u64"
    and rec :: "string \<Rightarrow> 't \<Rightarrow> 't \<times> u64"
    and res :: "'t \<Rightarrow> u64 \<Rightarrow> string option"
    and ok :: "'t \<Rightarrow> bool"
  assumes rec_value: "snd (rec s D) = keyed D s"
    and rec_key: "keyed (fst (rec s D)) = keyed D"
    and rec_ok: "ok D \<Longrightarrow> ok (fst (rec s D))"
    and rec_keeps: "res D h = Some p \<Longrightarrow> res (fst (rec s D)) h = Some p"
    and rec_known: "keyed D s \<noteq> 0 \<Longrightarrow> res (fst (rec s D)) (keyed D s) \<noteq> None"
    and res_sound: "ok D \<Longrightarrow> res D h = Some p \<Longrightarrow> keyed D p = h"
begin

fun rec_all :: "string list \<Rightarrow> 't \<Rightarrow> 't" where
  "rec_all [] D = D"
| "rec_all (s # ss) D = rec_all ss (fst (rec s D))"

lemma rec_all_key: "keyed (rec_all ss D) = keyed D"
  by (induction ss arbitrary: D) (simp_all add: rec_key)

lemma rec_all_snoc: "rec_all (ss @ [s]) D = fst (rec s (rec_all ss D))"
  by (induction ss arbitrary: D) simp_all

lemma rec_all_ok: "ok D \<Longrightarrow> ok (rec_all ss D)"
  by (induction ss arbitrary: D) (simp_all add: rec_ok)

lemma rec_all_keeps: "res D h = Some p \<Longrightarrow> res (rec_all ss D) h = Some p"
  by (induction ss arbitrary: D) (simp_all add: rec_keeps)

lemma rec_all_known: "s \<in> set ss \<Longrightarrow> keyed D s \<noteq> 0 \<Longrightarrow> res (rec_all ss D) (keyed D s) \<noteq> None"
proof (induction ss arbitrary: D)
  case (Cons t ss)
  show ?case
  proof (cases "s = t")
    case True
    with Cons.prems rec_known obtain p where "res (fst (rec t D)) (keyed D s) = Some p" by blast
    from rec_all_keeps [OF this] show ?thesis by simp
  next
    case False
    with Cons.prems Cons.IH [of "fst (rec t D)"] show ?thesis by (simp add: rec_key)
  qed
qed simp

text \<open>A string whose hash no other stored string has resolves to itself.\<close>

lemma rec_all_resolves:
  assumes "ok D" "s \<in> set ss" "keyed D s \<noteq> 0"
    and "\<And>h p. res (rec_all ss D) h = Some p \<Longrightarrow> keyed D p = keyed D s \<Longrightarrow> p = s"
  shows "res (rec_all ss D) (keyed D s) = Some s"
proof -
  obtain p where p: "res (rec_all ss D) (keyed D s) = Some p"
    using rec_all_known [OF assms(2,3)] by blast
  from res_sound [OF rec_all_ok [OF assms(1)] p] have "keyed D p = keyed D s"
    by (simp add: rec_all_key)
  with assms(4) p show ?thesis by blast
qed

end

definition db_ok :: "hash_db \<Rightarrow> bool" where
  "db_ok D \<longleftrightarrow> (\<forall>h p. db_map D h = Some p \<longrightarrow> siphash (db_k0 D) (db_k1 D) p = h)"

definition db_hash :: "hash_db \<Rightarrow> string \<Rightarrow> u64" where
  "db_hash D s = siphash (db_k0 D) (db_k1 D) s"

lemma hashdb_record_keys [simp]:
  "db_k0 (fst (hashdb_record E w s D)) = db_k0 D" "db_k1 (fst (hashdb_record E w s D)) = db_k1 D"
  "snd (hashdb_record E w s D) = db_hash D s"
  by (simp_all add: hashdb_record_def db_hash_def Let_def)

text \<open>\<open>w\<close> says, for each string, whether its append fails.\<close>

interpretation audit: audit_store db_hash "\<lambda>s. hashdb_record E (w s) s" hashdb_resolve db_ok
  for E :: b64_engine and w :: "string \<Rightarrow> nat option"
proof unfold_locales
  fix s h p and D :: hash_db
  show "snd (hashdb_record E (w s) s D) = db_hash D s" by simp
  show "db_hash (fst (hashdb_record E (w s) s D)) = db_hash D" by (rule ext) (simp add: db_hash_def)
  show "db_ok D \<Longrightarrow> db_ok (fst (hashdb_record E (w s) s D))"
    by (auto simp: db_ok_def hashdb_record_def Let_def)
  show "hashdb_resolve D h = Some p \<Longrightarrow> hashdb_resolve (fst (hashdb_record E (w s) s D)) h = Some p"
    by (auto simp: hashdb_resolve_def hashdb_record_def Let_def split: if_splits)
  show "db_hash D s \<noteq> 0 \<Longrightarrow> hashdb_resolve (fst (hashdb_record E (w s) s D)) (db_hash D s) \<noteq> None"
    by (auto simp: hashdb_resolve_def hashdb_record_def db_hash_def Let_def)
  show "db_ok D \<Longrightarrow> hashdb_resolve D h = Some p \<Longrightarrow> db_hash D p = h"
    by (auto simp: hashdb_resolve_def db_ok_def db_hash_def split: if_splits)
qed

section \<open>Rows survive\<close>

lemma escape_utf8: "utf8_valid s \<Longrightarrow> utf8_valid (escape s)"
proof (induction "length s" arbitrary: s rule: less_induct)
  case less
  let ?plain = "\<lambda>c. \<not> control_byte c \<and> c \<noteq> CHR 0x5C"
  show ?case
  proof (cases "dropWhile ?plain s")
    case Nil
    then have "escape s = s" by (intro escape_plain) (simp add: dropWhile_eq_Nil_conv)
    with less.prems show ?thesis by simp
  next
    case (Cons c b)
    let ?a = "takeWhile ?plain s"
    have s: "s = ?a @ c # b" using Cons by (metis takeWhile_dropWhile_id)
    have "\<not> ?plain c" using hd_dropWhile [of ?plain s] Cons by simp
    then have "(of_char c :: nat) < 0x80" by (auto simp: control_byte_def)
    then have v: "utf8_valid ?a" "utf8_valid b"
      using less.prems utf8_valid_split [of ?a c b] unfolding s [symmetric] by simp_all
    have "escape ?a = ?a" by (rule escape_plain) (use set_takeWhileD [of _ ?plain s] in blast)
    moreover have "length b < length s" using arg_cong [OF s, of length] by simp
    then have "utf8_valid (escape b)" using less.hyps v(2) by blast
    moreover have "(of_char (hex n) :: nat) < 0x80" for n
      using hex_range [of n] by (rule conjunct2 [THEN le_less_trans]) simp
    then have "utf8_valid (escape_char c)"
      using \<open>of_char c < 0x80\<close>
      by (intro utf8_valid_ascii) (auto simp: escape_char_def Let_def)
    moreover have "escape s = escape ?a @ escape_char c @ escape b"
      by (subst s) (simp add: escape_def)
    ultimately show ?thesis using v(1) by (simp add: utf8_valid_append)
  qed
qed

lemma parse_show_hash: "parse_hash (show_hash h) = Some h"
proof -
  have "unat h < 2 ^ 64" using unsigned_less [of h, where ?'a = nat] by simp
  from parse_show_hex [OF this, of 16] show ?thesis by (simp add: parse_hash_def show_hash_def)
qed

lemma digits_plain:
  assumes "c \<in> digit_char ` {..<16}"
  shows "\<not> control_byte c" "(of_char c :: nat) < 0x80" "solid c"
proof -
  obtain d where "c = digit_char d" "d < 16" using assms by auto
  then have "0x20 < (of_char c :: nat) \<and> (of_char c :: nat) < 0x7F" by (simp add: digit_char_def)
  then show "\<not> control_byte c" "(of_char c :: nat) < 0x80" "solid c"
    by (auto simp: control_byte_def intro: solid_ascii)
qed

lemma tab_control: "control_byte TAB" by (simp add: control_byte_def TAB_def)

lemma show_hash_plain:
  "TAB \<notin> set (show_hash h)" "str_trim (show_hash h) = show_hash h" "utf8_valid (show_hash h)"
proof -
  have d: "c \<in> set (show_hash h) \<Longrightarrow> c \<in> digit_char ` {..<16}" for c
    using set_show_hex [of 16 "unat h"] by (auto simp: show_hash_def)
  show "TAB \<notin> set (show_hash h)" using d digits_plain(1) tab_control by blast
  show "utf8_valid (show_hash h)" using d digits_plain(2) by (intro utf8_valid_ascii) blast
  have "show_hash h \<noteq> []" by (simp add: show_hash_def show_hex_padded_def Let_def)
  then have "trimmed (show_hash h)"
    using d digits_plain(3) by (intro trimmed_solid_all) (auto dest: hd_in_set last_in_set)
  then show "str_trim (show_hash h) = show_hash h" by (rule str_trim_trimmed)
qed

context base64_standard
begin

lemma b64_plain:
  "c \<in> set (b64 E s) \<Longrightarrow> \<not> control_byte c" "utf8_valid (b64 E s)"
proof -
  have r: "c \<in> set (b64 E s) \<Longrightarrow> 0x20 < (of_char c :: nat) \<and> (of_char c :: nat) < 0x7F" for c
    using encode_alphabet b64_symbol_range by (auto simp: b64_def)
  show "c \<in> set (b64 E s) \<Longrightarrow> \<not> control_byte c" using r [of c] by (simp add: control_byte_def)
  have "\<forall>b \<in> set (b64 E s). (of_char b :: nat) < 0x80" using r by fastforce
  then show "utf8_valid (b64 E s)" by (rule utf8_valid_ascii)
qed

lemma db_row_line:
  assumes "utf8_valid s"
  shows "db_row E (row_line E h s) = Some (h, s)"
proof -
  have "TAB \<notin> set (b64 E s)" using b64_plain(1) tab_control by blast
  then show ?thesis
    using str_split_once_append [OF show_hash_plain(1)] str_split_once_append [of TAB "b64 E s"]
    by (simp add: db_row_def row_line_def show_hash_plain(2) parse_show_hash unb64_b64 [OF assms])
qed

lemma row_line_reads:
  assumes "utf8_valid s"
  shows "CHR 0x0A \<notin> set (row_line E h s)" "line_of (row_line E h s) = Some (row_line E h s)"
proof -
  have hd: "c \<in> set (show_hash h) \<Longrightarrow> \<not> control_byte c" for c
    using set_show_hex [of 16 "unat h"] digits_plain(1) by (auto simp: show_hash_def)
  have cb: "c \<in> set (row_line E h s) \<Longrightarrow> c \<noteq> TAB \<Longrightarrow> \<not> control_byte c" for c
    using hd b64_plain(1) escape_printable by (auto simp: row_line_def)
  have "CHR 0x0A \<noteq> TAB" "CHR 0x0D \<noteq> TAB" by (simp_all add: TAB_def)
  with cb newline_control show "CHR 0x0A \<notin> set (row_line E h s)" by blast
  have "CHR 0x0D \<notin> set (row_line E h s)"
    using cb newline_control \<open>CHR 0x0D \<noteq> TAB\<close> by blast
  then have "\<not> str_ends_with_char (CHR 0x0D) (row_line E h s)"
    by (metis last_in_set str_ends_with_char_def)
  moreover have "utf8_valid [TAB]" by (intro utf8_valid_ascii) (simp add: TAB_def)
  then have "utf8_valid (row_line E h s)"
    unfolding row_line_def
    by (intro utf8_valid_append show_hash_plain(3) b64_plain(2) escape_utf8 assms)
  ultimately show "line_of (row_line E h s) = Some (row_line E h s)"
    by (simp add: line_of_def str_strip_suffix_char_def)
qed

end

lemma load_rows_snoc:
  assumes "None \<notin> set ls"
  shows "load_rows E (ls @ [Some l]) m =
    (case db_row E l of None \<Rightarrow> load_rows E ls m | Some (h, p) \<Rightarrow> (load_rows E ls m)(h \<mapsto> p))"
  using assms
proof (induction E ls m rule: load_rows.induct)
  case (3 E line ls m)
  then show ?case by (simp only: append_Cons load_rows.simps list.set) (simp split: option.split)
qed (simp_all split: option.split)

text \<open>The database and its file agree: a restart would read back exactly the map.\<close>

definition db_sync :: "b64_engine \<Rightarrow> hash_db \<Rightarrow> bool" where
  "db_sync E D \<longleftrightarrow>
    None \<notin> set (read_lines (db_writer D)) \<and>
    load_rows E (read_lines (db_writer D)) (\<lambda>h. None) = db_map D \<and>
    (db_writer D = [] \<or> last (db_writer D) = CHR 0x0A)"

lemma db_sync_record:
  assumes "base64_standard E" "utf8_valid s" "db_sync E D"
  shows "db_sync E (fst (hashdb_record E None s D))"
proof (cases "db_map D (siphash (db_k0 D) (db_k1 D) s)")
  case None
  note r = base64_standard.row_line_reads [OF assms(1,2)]
  show ?thesis
    using assms(3) None r
    by (simp add: hashdb_record_def db_sync_def Let_def read_lines_append load_rows_snoc
      base64_standard.db_row_line [OF assms(1,2)])
qed (use assms in \<open>simp add: hashdb_record_def\<close>)

text \<open>
  C18: The audit database survives a restart. After any sequence of recordings whose appends
  succeed, opening the file again under the same key gives the same database, whatever bytes the
  recorded names contain.
\<close>

theorem hashdb_reopen:
  assumes "base64_standard E" "\<forall>s \<in> set ss. utf8_valid s" "db_sync E D"
  shows "hashdb_open E True (FileBytes (db_writer (audit.rec_all E (\<lambda>s. None) ss D))) True (db_k0 D) (db_k1 D) =
    Inr (audit.rec_all E (\<lambda>s. None) ss D)"
proof -
  have "db_sync E (audit.rec_all E (\<lambda>s. None) ss D) \<and> db_k0 (audit.rec_all E (\<lambda>s. None) ss D) = db_k0 D \<and>
      db_k1 (audit.rec_all E (\<lambda>s. None) ss D) = db_k1 D"
    using assms(2,3)
    by (induction ss arbitrary: D) (simp_all add: audit.rec_all.simps db_sync_record [OF assms(1)])
  then show ?thesis by (simp add: hashdb_open_def db_sync_def file_content_def)
qed

theorem hashdb_reopen_witness:
  "\<exists>D. hashdb_open rfc4648_engine True (FileBytes (db_writer D)) True 1 2 = Inr D \<and>
    hashdb_resolve D (siphash 1 2 ''x'') = Some ''x''"
proof -
  let ?D = "\<lparr>db_map = (\<lambda>h. None), db_writer = [], db_k0 = 1, db_k1 = 2\<rparr>"
  have "db_sync rfc4648_engine ?D" by (simp add: db_sync_def read_lines_def)
  from hashdb_reopen [OF rfc4648.base64_standard_axioms _ this, of "[''x'']"]
  have "hashdb_open rfc4648_engine True (FileBytes (db_writer (audit.rec_all rfc4648_engine (\<lambda>s. None) [''x''] ?D)))
      True 1 2 = Inr (audit.rec_all rfc4648_engine (\<lambda>s. None) [''x''] ?D)"
    by (simp add: utf8_valid_ascii)
  moreover have "hashdb_resolve (audit.rec_all rfc4648_engine (\<lambda>s. None) [''x''] ?D) (siphash 1 2 ''x'') = Some ''x''"
    by (simp add: audit.rec_all.simps hashdb_resolve_def hashdb_record_def Let_def siphash_x_nonzero)
  ultimately show ?thesis by blast
qed

end
