(* ===== verification/Daemon_Config.thy ===== *)
theory Daemon_Config
  imports Control
begin

text \<open>
  Start-up data of the daemon: the operating mode (\<open>linprov/src/mode.rs\<close>), the merge of the command
  line, the configuration file and the defaults (\<open>linprov/src/config.rs\<close>), and the per-install hash
  key (\<open>linprov/src/key.rs\<close>). The TOML parser is not part of the repository and is an argument, as
  are the results of reading files and of \<open>/dev/urandom\<close>.
\<close>

section \<open>Modes\<close>

datatype mode = Observe | Soak | Enforce

fun as_u32 :: "mode \<Rightarrow> u32" where
  "as_u32 Observe = MODE_OBSERVE"
| "as_u32 Soak = MODE_SOAK"
| "as_u32 Enforce = MODE_ENFORCE"

datatype notify_mode = Off | Tray

section \<open>Configuration\<close>

definition DEFAULT_CONFIG_PATH :: string where
  "DEFAULT_CONFIG_PATH = ''/etc/linprov/config.toml''"

definition DEFAULT_ALLOWLIST_PATH :: string where
  "DEFAULT_ALLOWLIST_PATH = ''/etc/linprov/list.allow''"

definition DEFAULT_SYSTEMD_UNIT_PATH :: string where
  "DEFAULT_SYSTEMD_UNIT_PATH = ''/etc/systemd/system/linprov.service''"

definition DEFAULT_SYSTEMD_UNIT_NAME :: string where
  "DEFAULT_SYSTEMD_UNIT_NAME = ''linprov.service''"

definition DEFAULT_CONTROL_SOCKET_PATH :: string where
  "DEFAULT_CONTROL_SOCKET_PATH = ''/run/linprov/control.sock''"

definition DEFAULT_HASHDB_PATH :: string where
  "DEFAULT_HASHDB_PATH = ''/var/lib/linprov/hashes.tsv''"

definition DEFAULT_KEY_PATH :: string where
  "DEFAULT_KEY_PATH = ''/var/lib/linprov/key''"

definition DEFAULT_QUARANTINE_DIR :: string where
  "DEFAULT_QUARANTINE_DIR = ''/var/lib/linprov/quarantine''"

definition DEFAULT_INSTALL_PATH :: string where
  "DEFAULT_INSTALL_PATH = ''/usr/local/bin/linprov''"

record file_config =
  fc_mode :: "mode option"
  fc_allowlist :: "string option"
  fc_log_file :: "string option"
  fc_log_level :: "string option"
  fc_mark_localhost :: "bool option"
  fc_soak :: "dim list option"
  fc_hash_db :: "string option"
  fc_quarantine_dir :: "string option"
  fc_notifications :: "notify_mode option"
  fc_interpreters :: "string list option"

definition default_file_config :: file_config where
  "default_file_config = \<lparr>fc_mode = None, fc_allowlist = None, fc_log_file = None,
     fc_log_level = None, fc_mark_localhost = None, fc_soak = None, fc_hash_db = None,
     fc_quarantine_dir = None, fc_notifications = None, fc_interpreters = None\<rparr>"

definition default_interpreters :: "string list" where
  "default_interpreters = [''sh'', ''bash'', ''dash'', ''zsh'', ''ash'', ''ksh'', ''fish'', ''python'',
     ''python3'', ''perl'', ''ruby'', ''node'', ''php'', ''lua'', ''awk'', ''gawk'', ''tclsh'']"

datatype config_error = ConfigReadFailed | ConfigParseFailed

text \<open>\<open>fs::read_to_string\<close> fails on bytes that are not UTF-8.\<close>

definition load_or_default ::
    "(string \<Rightarrow> file_config option) \<Rightarrow> file_open_result \<Rightarrow> config_error + file_config" where
  "load_or_default toml f =
    (case f of
       FileBytes s \<Rightarrow>
         if \<not> utf8_valid s then Inl ConfigReadFailed
         else (case toml s of Some c \<Rightarrow> Inr c | None \<Rightarrow> Inl ConfigParseFailed)
     | FileAbsent \<Rightarrow> Inr default_file_config
     | FileError \<Rightarrow> Inl ConfigReadFailed)"

record effective_config =
  ec_mode :: mode
  ec_allowlist :: "string option"
  ec_log_file :: "string option"
  ec_log_level :: string
  ec_mark_localhost :: bool
  ec_soak :: "dim list"
  ec_hash_db :: string
  ec_quarantine_dir :: string
  ec_interpreters :: "string list"
  ec_notifications :: notify_mode

text \<open>The command line carries the same optional fields as the file.\<close>

record cli_overrides =
  co_mode :: "mode option"
  co_allowlist :: "string option"
  co_log_file :: "string option"
  co_log_level :: "string option"
  co_mark_localhost :: "bool option"
  co_soak :: "dim list option"
  co_hash_db :: "string option"
  co_quarantine_dir :: "string option"
  co_interpreters :: "string list option"
  co_notifications :: "notify_mode option"

definition opt_or :: "'a option \<Rightarrow> 'a option \<Rightarrow> 'a option" where
  "opt_or a b = (case a of Some x \<Rightarrow> Some x | None \<Rightarrow> b)"

definition unwrap_or :: "'a option \<Rightarrow> 'a \<Rightarrow> 'a" where
  "unwrap_or a d = (case a of Some x \<Rightarrow> x | None \<Rightarrow> d)"

definition config_resolve :: "cli_overrides \<Rightarrow> file_config \<Rightarrow> effective_config" where
  "config_resolve cli fl = \<lparr>
     ec_mode = unwrap_or (opt_or (co_mode cli) (fc_mode fl)) Observe,
     ec_allowlist = opt_or (co_allowlist cli) (fc_allowlist fl),
     ec_log_file = opt_or (co_log_file cli) (fc_log_file fl),
     ec_log_level = unwrap_or (opt_or (co_log_level cli) (fc_log_level fl)) ''info'',
     ec_mark_localhost = unwrap_or (opt_or (co_mark_localhost cli) (fc_mark_localhost fl)) False,
     ec_soak = unwrap_or (opt_or (co_soak cli) (fc_soak fl)) [CreatorProcess],
     ec_hash_db = unwrap_or (opt_or (co_hash_db cli) (fc_hash_db fl)) DEFAULT_HASHDB_PATH,
     ec_quarantine_dir =
       unwrap_or (opt_or (co_quarantine_dir cli) (fc_quarantine_dir fl)) DEFAULT_QUARANTINE_DIR,
     ec_interpreters =
       unwrap_or (opt_or (co_interpreters cli) (fc_interpreters fl)) default_interpreters,
     ec_notifications = unwrap_or (opt_or (co_notifications cli) (fc_notifications fl)) Off\<rparr>"

text \<open>
  Built-in interpreter names fit the kernel's 15-byte names, so the truncation of the seeding never
  changes one.
\<close>

lemma default_interpreters_short: "\<forall>n \<in> set default_interpreters. length n < COMM_LEN"
  by (simp add: default_interpreters_def size_consts)

section \<open>The hash key\<close>

record hash_key_words =
  hk0 :: u64
  hk1 :: u64

datatype key_error = KeyTooShort | KeyReadFailed | RandomFailed | KeyDirFailed | KeyCreateFailed
  | KeyWriteFailed

definition key_from_bytes :: "bytes \<Rightarrow> hash_key_words" where
  "key_from_bytes b =
    \<lparr>hk0 = of_nat (of_le_bytes (take 8 b)), hk1 = of_nat (of_le_bytes (take 8 (drop 8 b)))\<rparr>"

text \<open>\<open>read_exact\<close> of 16 bytes: a source that gives fewer is an error.\<close>

definition key_generate :: "bytes option \<Rightarrow> key_error + hash_key_words" where
  "key_generate urandom =
    (case urandom of
       None \<Rightarrow> Inl RandomFailed
     | Some b \<Rightarrow> if length b < 16 then Inl RandomFailed else Inr (key_from_bytes (take 16 b)))"

definition key_bytes :: "hash_key_words \<Rightarrow> bytes" where
  "key_bytes key = to_le_bytes 8 (unat (hk0 key)) @ to_le_bytes 8 (unat (hk1 key))"

text \<open>\<open>create_new\<close> fails on an existing file; a failing write leaves a prefix behind.\<close>

definition key_persist ::
    "bool \<Rightarrow> bool \<Rightarrow> nat option \<Rightarrow> hash_key_words \<Rightarrow> file_open_result \<Rightarrow>
      file_open_result \<times> key_error option" where
  "key_persist dir_ok create_ok write_err key f =
    (if \<not> dir_ok then (f, Some KeyDirFailed)
     else if \<not> create_ok \<or> f \<noteq> FileAbsent then (f, Some KeyCreateFailed)
     else case write_err of
       Some n \<Rightarrow> (FileBytes (take n (key_bytes key)), Some KeyWriteFailed)
     | None \<Rightarrow> (FileBytes (key_bytes key), None))"

definition key_load_or_create ::
    "bytes option \<Rightarrow> bool \<Rightarrow> bool \<Rightarrow> nat option \<Rightarrow> file_open_result \<Rightarrow>
      file_open_result \<times> (key_error + hash_key_words)" where
  "key_load_or_create urandom dir_ok create_ok write_err f =
    (case f of
       FileBytes b \<Rightarrow>
         if 16 \<le> length b then (f, Inr (key_from_bytes b)) else (f, Inl KeyTooShort)
     | FileAbsent \<Rightarrow>
         (case key_generate urandom of
            Inl e \<Rightarrow> (f, Inl e)
          | Inr key \<Rightarrow>
              (case key_persist dir_ok create_ok write_err key f of (f', err) \<Rightarrow>
                (f', case err of Some e \<Rightarrow> Inl e | None \<Rightarrow> Inr key)))
     | FileError \<Rightarrow> (f, Inl KeyReadFailed))"

lemma key_from_key_bytes: "key_from_bytes (key_bytes key) = key"
  by (intro hash_key_words.equality) (simp_all add: key_from_bytes_def key_bytes_def)

lemma length_key_bytes [simp]: "length (key_bytes key) = 16"
  by (simp add: key_bytes_def)

text \<open>
  C30: The hash key is stable. Once a start has returned a key, every later start returns the same
  key and leaves the file as it is, whatever the random source and the file operations do then.
\<close>

theorem key_is_stable:
  assumes "key_load_or_create u d c w f = (f', Inr key)"
  shows "key_load_or_create u' d' c' w' f' = (f', Inr key)"
proof (cases f)
  case FileAbsent
  with assms have "f' = FileBytes (key_bytes key)"
    by (auto simp: key_load_or_create_def key_persist_def split: sum.splits if_splits option.splits)
  then show ?thesis
    by (simp add: key_load_or_create_def key_from_key_bytes)
qed (use assms in \<open>auto simp: key_load_or_create_def split: if_splits\<close>)

theorem key_is_stable_witness:
  "key_load_or_create None False False None (FileBytes (key_bytes \<lparr>hk0 = 3, hk1 = 4\<rparr>)) =
    (FileBytes (key_bytes \<lparr>hk0 = 3, hk1 = 4\<rparr>), Inr \<lparr>hk0 = 3, hk1 = 4\<rparr>)"
  by (rule key_is_stable [of "Some (key_bytes \<lparr>hk0 = 3, hk1 = 4\<rparr>)" True True None FileAbsent])
    (simp add: key_load_or_create_def key_generate_def key_persist_def key_from_key_bytes)

text \<open>A write of the key file that stops early makes every later start fail; none regenerates it.\<close>

lemma short_key_sticks:
  assumes "n < 16"
  shows "key_load_or_create u d c w (fst (key_persist True True (Some n) key FileAbsent)) =
    (FileBytes (take n (key_bytes key)), Inl KeyTooShort)"
  using assms by (simp add: key_persist_def key_load_or_create_def)

end
