(* ===== verification/Control_Props.thy ===== *)
theory Control_Props
  imports Control Kernel_Match
begin

text \<open>
  Properties of the control side: the pending table stays consistent and bounded, a decision
  takes effect in the rules that are seeded next, narrowing a rule to some of its dimensions
  never loses the blocked event, and the candidate rule built for a block matches that block.
\<close>

section \<open>Projections\<close>

lemma project_has_value:
  assumes "spec_ok spec"
  shows "has_value (project_step spec out d) e \<longleftrightarrow>
    has_value out e \<or> (e = d \<and> flag_set (s_flags spec) (dim_bit d))"
proof (cases "flag_set (s_flags spec) (dim_bit d)")
  case True
  then have "has_value spec d" using assms unfolding spec_ok_iff by blast
  with True show ?thesis by (cases d; cases e) (auto simp: project_values)
next
  case False
  then show ?thesis by (simp add: project_step_def)
qed

lemma flag_and: "flag_set (f AND g :: u32) h \<Longrightarrow> flag_set f h \<and> flag_set g h"
proof -
  assume fs: "flag_set (f AND g) h"
  have eq: "(f AND g) AND h = (f AND h) AND g" "(f AND g) AND h = f AND (g AND h)"
    by (simp_all add: ac_simps)
  have "f AND h \<noteq> 0"
  proof
    assume "f AND h = 0"
    then have "(f AND h) AND g = 0" by simp
    with fs eq(1) show False by simp
  qed
  moreover have "g AND h \<noteq> 0"
  proof
    assume "g AND h = 0"
    then have "f AND (g AND h) = 0" by simp
    with fs eq(2) show False by simp
  qed
  ultimately show ?thesis by blast
qed

lemma project_step_flag:
  assumes "spec_ok spec"
  shows "flag_set (s_flags (project_step spec out d)) (dim_bit e) \<longleftrightarrow>
    flag_set (s_flags out) (dim_bit e) \<or> (e = d \<and> flag_set (s_flags spec) (dim_bit d))"
proof (cases "e = d")
  case True
  have "flag_set (s_flags spec AND (dim_bit d OR rec_bit d)) (dim_bit d) \<longleftrightarrow>
      flag_set (s_flags spec) (dim_bit d)"
  proof
    assume "flag_set (s_flags spec) (dim_bit d)"
    moreover have "(s_flags spec AND (dim_bit d OR rec_bit d)) AND dim_bit d = s_flags spec AND dim_bit d"
      by (rule bit_word_eqI) (auto simp: bit_simps)
    ultimately show "flag_set (s_flags spec AND (dim_bit d OR rec_bit d)) (dim_bit d)" by simp
  qed (use flag_and in blast)
  with True show ?thesis by (simp add: project_flags [OF assms] flags_or)
next
  case False
  then show ?thesis using project_keeps_unset [OF assms, of d e out] by auto
qed

lemma rec_flag_sub:
  "flag_set (dim_bit d OR rec_bit d) TARGET_FOLDER_RECURSIVE \<Longrightarrow> d = TargetFolder"
  "flag_set (dim_bit d OR rec_bit d) LANDING_FOLDER_RECURSIVE \<Longrightarrow> d = LandingFolder"
  by (cases d; simp add: flags_or rec_bits_apart dim_consts)+

lemma rec_bit_small: "take_bit 10 (rec_bit d) = rec_bit d"
  by (cases d) (simp_all add: dim_bits_small)

lemma project_rec:
  assumes "spec_ok spec" "flag_set (s_flags (project_step spec out d)) r"
  shows "flag_set (s_flags out) r \<or> (flag_set (s_flags spec) r \<and> flag_set (dim_bit d OR rec_bit d) r)"
  using assms(2) flag_and [of "s_flags spec" "dim_bit d OR rec_bit d" r]
  unfolding project_flags [OF assms(1)] flags_or [of "s_flags out"] by blast

lemma project_step_ok:
  assumes "spec_ok spec" "spec_ok out"
  shows "spec_ok (project_step spec out d)"
proof -
  let ?p = "project_step spec out d"
  note s = assms(1) [unfolded spec_ok_iff] and o = assms(2) [unfolded spec_ok_iff]
  have "take_bit 10 (s_flags ?p) = s_flags ?p"
    using s o by (simp add: project_flags [OF assms(1)] take_bit_or take_bit_and dim_bits_small rec_bit_small)
  moreover have "flag_set (s_flags ?p) (dim_bit e) = has_value ?p e" for e
    using s o by (simp add: project_step_flag [OF assms(1)] project_has_value [OF assms(1)])
  moreover have "flag_set (s_flags ?p) TARGET_FOLDER_RECURSIVE \<longrightarrow> has_value ?p TargetFolder"
    using project_rec [OF assms(1), of out d TARGET_FOLDER_RECURSIVE] rec_flag_sub(1) [of d] s o
    unfolding project_has_value [OF assms(1)] by metis
  moreover have "flag_set (s_flags ?p) LANDING_FOLDER_RECURSIVE \<longrightarrow> has_value ?p LandingFolder"
    using project_rec [OF assms(1), of out d LANDING_FOLDER_RECURSIVE] rec_flag_sub(2) [of d] s o
    unfolding project_has_value [OF assms(1)] by metis
  moreover have "folder_ok (s_target_folder ?p)" "folder_ok (s_landing_folder ?p)" "comm_ok (s_creator_comm ?p)"
    using s o by (simp_all add: project_values)
  ultimately show ?thesis unfolding spec_ok_iff by blast
qed

lemma project_ok: "spec_ok spec \<Longrightarrow> spec_ok (project spec ds)"
proof -
  assume ok: "spec_ok spec"
  have "spec_ok out \<Longrightarrow> spec_ok (foldl (project_step spec) out ds)" for out
    by (induction ds arbitrary: out) (simp_all add: project_step_ok [OF ok])
  then show ?thesis by (simp add: project_def spec_ok_default)
qed

lemma project_utf8:
  assumes "spec_utf8 spec"
  shows "spec_utf8 (project spec ds)"
proof -
  have "spec_utf8 out \<Longrightarrow> spec_utf8 (foldl (project_step spec) out ds)" for out
  proof (induction ds arbitrary: out)
    case (Cons d ds)
    have "spec_utf8 (project_step spec out d)"
      using Cons.prems assms by (simp add: spec_utf8_def project_values)
    with Cons.IH show ?case by simp
  qed simp
  moreover have "spec_utf8 default_spec" by (simp add: default_spec_def spec_utf8_def utf8_opt_def)
  ultimately show ?thesis by (simp add: project_def)
qed

text \<open>Every field of a projection is absent or the field of the rule.\<close>

definition opt_sub :: "'a option \<Rightarrow> 'a option \<Rightarrow> bool" where
  "opt_sub v w \<longleftrightarrow> v = None \<or> v = w"

definition folder_sub :: "string option \<Rightarrow> bool \<Rightarrow> string option \<Rightarrow> bool \<Rightarrow> bool" where
  "folder_sub v r w r' \<longleftrightarrow> opt_sub v w \<and> (r \<longrightarrow> r') \<and> (v \<noteq> None \<longrightarrow> (r \<longleftrightarrow> r'))"

definition sub_spec :: "rule_spec \<Rightarrow> rule_spec \<Rightarrow> bool" where
  "sub_spec out spec \<longleftrightarrow>
    opt_sub (s_target_filename out) (s_target_filename spec) \<and>
    opt_sub (s_landing_filename out) (s_landing_filename spec) \<and>
    opt_sub (s_creator_process out) (s_creator_process spec) \<and>
    opt_sub (s_creator_comm out) (s_creator_comm spec) \<and>
    opt_sub (s_creator_uid out) (s_creator_uid spec) \<and>
    opt_sub (s_execution_uid out) (s_execution_uid spec) \<and>
    folder_sub (s_target_folder out) (flag_set (s_flags out) TARGET_FOLDER_RECURSIVE)
      (s_target_folder spec) (flag_set (s_flags spec) TARGET_FOLDER_RECURSIVE) \<and>
    folder_sub (s_landing_folder out) (flag_set (s_flags out) LANDING_FOLDER_RECURSIVE)
      (s_landing_folder spec) (flag_set (s_flags spec) LANDING_FOLDER_RECURSIVE)"

lemma opt_sub_simps [simp]: "opt_sub None w" "opt_sub w w"
  by (simp_all add: opt_sub_def)

lemma folder_sub_None [simp]: "folder_sub None r w r' \<longleftrightarrow> (r \<longrightarrow> r')"
  by (simp add: folder_sub_def)

lemma opt_sub_pick: "opt_sub v w \<Longrightarrow> opt_sub (if c then w else v) w"
  by (simp add: opt_sub_def)

lemma folder_sub_pick:
  "folder_sub v r w r' \<Longrightarrow> folder_sub (if c \<and> fl then w else v) (r \<or> c \<and> r') w r'"
  by (auto simp: folder_sub_def opt_sub_def)

lemma project_step_rec_flags:
  assumes "spec_ok spec"
  shows "flag_set (s_flags (project_step spec out d)) TARGET_FOLDER_RECURSIVE \<longleftrightarrow>
      flag_set (s_flags out) TARGET_FOLDER_RECURSIVE \<or>
      (d = TargetFolder \<and> flag_set (s_flags spec) TARGET_FOLDER_RECURSIVE)"
    "flag_set (s_flags (project_step spec out d)) LANDING_FOLDER_RECURSIVE \<longleftrightarrow>
      flag_set (s_flags out) LANDING_FOLDER_RECURSIVE \<or>
      (d = LandingFolder \<and> flag_set (s_flags spec) LANDING_FOLDER_RECURSIVE)"
proof -
  have "flag_set (f AND (dim_bit TargetFolder OR rec_bit TargetFolder)) TARGET_FOLDER_RECURSIVE"
    if "flag_set f TARGET_FOLDER_RECURSIVE" for f :: u32
    using that by (simp only: rec_flags) (simp add: bit_simps dim_consts)
  moreover have "flag_set (f AND (dim_bit LandingFolder OR rec_bit LandingFolder)) LANDING_FOLDER_RECURSIVE"
    if "flag_set f LANDING_FOLDER_RECURSIVE" for f :: u32
    using that by (simp only: rec_flags) (simp add: bit_simps dim_consts)
  ultimately show "flag_set (s_flags (project_step spec out d)) TARGET_FOLDER_RECURSIVE \<longleftrightarrow>
      flag_set (s_flags out) TARGET_FOLDER_RECURSIVE \<or>
      (d = TargetFolder \<and> flag_set (s_flags spec) TARGET_FOLDER_RECURSIVE)"
    "flag_set (s_flags (project_step spec out d)) LANDING_FOLDER_RECURSIVE \<longleftrightarrow>
      flag_set (s_flags out) LANDING_FOLDER_RECURSIVE \<or>
      (d = LandingFolder \<and> flag_set (s_flags spec) LANDING_FOLDER_RECURSIVE)"
    using project_rec [OF assms, of out d] rec_flag_sub [of d]
    by (metis flags_or project_flags [OF assms])+
qed

lemma project_step_sub:
  assumes "spec_ok spec" "sub_spec out spec"
  shows "sub_spec (project_step spec out d) spec"
  using assms(2)
  unfolding sub_spec_def project_values project_step_rec_flags [OF assms(1)]
  by (elim conjE) (intro conjI opt_sub_pick folder_sub_pick; assumption)

lemma project_sub:
  assumes "spec_ok spec"
  shows "sub_spec (project spec ds) spec"
proof -
  have "sub_spec out spec \<Longrightarrow> sub_spec (foldl (project_step spec) out ds) spec" for out
    by (induction ds arbitrary: out) (simp_all add: project_step_sub [OF assms])
  moreover have "sub_spec default_spec spec" by (simp add: default_spec_def sub_spec_def)
  ultimately show ?thesis by (simp add: project_def)
qed

lemma folder_sub_plain:
  assumes "folder_sub v r w r'" "r \<Longrightarrow> v \<noteq> None" "r' \<longrightarrow> \<not> needs_b64 (or_default w)"
  shows "r \<longrightarrow> \<not> needs_b64 (or_default v)"
  using assms by (auto simp: folder_sub_def opt_sub_def)

lemma sub_spec_rec_plain:
  assumes "sub_spec out spec" "rec_plain spec" "spec_ok out"
  shows "rec_plain out"
proof -
  have "flag_set (s_flags out) TARGET_FOLDER_RECURSIVE \<Longrightarrow> s_target_folder out \<noteq> None"
    "flag_set (s_flags out) LANDING_FOLDER_RECURSIVE \<Longrightarrow> s_landing_folder out \<noteq> None"
    using assms(3) unfolding spec_ok_iff by simp_all
  then show ?thesis using assms(1,2) unfolding rec_plain_def sub_spec_def
    by (elim conjE) (intro conjI; rule folder_sub_plain)
qed

lemma when_set_sub: "opt_sub v w \<Longrightarrow> when_set w P \<Longrightarrow> when_set v P"
  by (auto simp: when_set_def opt_sub_def)

lemma folder_sub_matches:
  "folder_sub v r w r' \<Longrightarrow> when_set w (in_folder r' p) \<Longrightarrow> when_set v (in_folder r p)"
  by (cases v) (auto simp: when_set_def folder_sub_def opt_sub_def)

lemma sub_spec_matches:
  assumes "sub_spec out spec" "spec_matches spec x"
  shows "spec_matches out x"
  using assms unfolding spec_matches_def sub_spec_def
  by (elim conjE) (intro conjI; (erule when_set_sub folder_sub_matches, assumption))

section \<open>Decisions take effect\<close>

definition applied_rule :: "dim list option \<Rightarrow> rule_spec \<Rightarrow> rule_spec" where
  "applied_rule dims spec = (case dims of None \<Rightarrow> spec | Some ds \<Rightarrow> project spec ds)"

text \<open>A rule that survives being written and read.\<close>

definition rule_writable :: "rule_spec \<Rightarrow> bool" where
  "rule_writable spec \<longleftrightarrow> spec_ok spec \<and> spec_utf8 spec \<and> rec_plain spec"

lemma applied_rule_writable:
  assumes "rule_writable spec"
  shows "rule_writable (applied_rule dims spec)"
  using assms project_ok [of spec] project_utf8 [of spec] sub_spec_rec_plain [OF project_sub [of spec]]
  by (auto simp: rule_writable_def applied_rule_def split: option.split)

lemma applied_rule_sub: "spec_ok spec \<Longrightarrow> sub_spec (applied_rule dims spec) spec"
  using project_sub [of spec]
  by (cases dims) (simp_all add: applied_rule_def sub_spec_def folder_sub_def)

definition ends_line :: "file_open_result \<Rightarrow> bool" where
  "ends_line f \<longleftrightarrow> file_content f = [] \<or> last (file_content f) = CHR 0x0A"

context base64_standard
begin

lemma candidate_line_applied:
  assumes "rule_writable spec" "s_flags spec \<noteq> 0" "candidate_line E dims (to_line E spec) = Inr line"
  shows "line = to_line E (applied_rule dims spec)" "s_flags (applied_rule dims spec) \<noteq> 0"
    "rule_parse E line = Inr (applied_rule dims spec)"
proof -
  have "rule_parse E (to_line E spec) = Inr spec"
    using assms(1,2) parse_to_line by (simp add: rule_writable_def)
  with assms(2,3) show l: "line = to_line E (applied_rule dims spec)"
    and f: "s_flags (applied_rule dims spec) \<noteq> 0"
    by (auto simp: candidate_line_def applied_rule_def Let_def split: option.splits if_splits)
  show "rule_parse E line = Inr (applied_rule dims spec)"
    using applied_rule_writable [OF assms(1), of dims] f parse_to_line unfolding l
    by (simp add: rule_writable_def)
qed

lemma append_persistent_effect:
  assumes "rule_writable spec" "s_flags spec \<noteq> 0" "allowlist_path C = Some p" "ends_line (fs p)"
    and "rules_load E (fs p) = Inr R"
    and "append_persistent E open_ok write_err (to_line E spec) fs C = (fs', None)"
  shows "\<exists>R'. rules_load E (fs' p) = Inr R' \<and> (\<exists>r \<in> set (rule_list R'). to_line E r = to_line E spec) \<and>
    (rule_list R' = rule_list R \<or> rule_list R' = rule_list R @ [spec])"
proof (cases "\<exists>r \<in> set (rule_list R). to_line E r = to_line E spec")
  case True
  with assms(3,5,6) show ?thesis by (auto simp: append_persistent_def)
next
  case False
  with assms(3,5,6) have fs': "fs' p = FileBytes (file_content (fs p) @ to_line E spec @ [CHR 0x0A])"
    by (auto simp: append_persistent_def split: if_splits option.splits)
  have "rules_load E (FileBytes (file_content (fs p))) = Inr R"
    using assms(5) by (cases "fs p")
      (auto simp: file_content_def rules_load_def read_lines_def rules_default_def split: if_splits)
  from load_appended_line [OF _ _ _ assms(2) _ this] assms(1,4)
  have "rules_load E (fs' p) = Inr (fst (rules_insert E spec R))"
    unfolding fs' by (simp add: rule_writable_def ends_line_def)
  moreover have "seen_lines R = set (map (to_line E) (rule_list R))"
    using rules_inv_load [OF assms(5)] by (simp add: rules_inv_def)
  ultimately show ?thesis using False by (auto simp: rules_insert_def Let_def)
qed

end




section \<open>The rule offered for a block\<close>

text \<open>The context a handler assembled for an execution: unresolved hashes leave fields empty.\<close>

definition ctx_describes :: "origin_context \<Rightarrow> exec_facts \<Rightarrow> bool" where
  "ctx_describes ctx x \<longleftrightarrow>
    c_target_filename ctx = x_target x \<and>
    when_set (c_landing_folder ctx) (in_folder False (x_landing x)) \<and>
    when_set (c_landing_basename ctx) (\<lambda>n. n = base_part (x_landing x)) \<and>
    when_set (c_creator_path ctx) (\<lambda>p. x_creator x = Some p) \<and>
    pad_comm (c_creator_comm ctx) = x_comm x \<and>
    c_creator_uid ctx = x_creator_uid x \<and> c_execution_uid ctx = x_exec_uid x"

lemma folder_of_dir_part: "folder_of p = Some f \<Longrightarrow> SLASH \<in> set p \<and> f = dir_part p"
proof -
  assume f: "folder_of p = Some f"
  then obtain a b where ab: "str_split_once SLASH (rev p) = Some (a, b)"
    by (auto simp: folder_of_def str_rsplit_once_def split: if_splits option.splits)
  from str_split_once_SomeD [OF ab] have r: "rev p = a @ SLASH # b" "SLASH \<notin> set a" by auto
  then have "dropWhile (\<lambda>c. c \<noteq> SLASH) (rev p) = SLASH # b"
    by (simp, subst dropWhile_append2) auto
  then have "dir_part p = rev b @ [SLASH]" by (simp add: dir_part_def)
  moreover have "SLASH \<in> set p" using r(1) by (metis in_set_conv_decomp set_rev)
  moreover have "f = rev b @ ''/''"
    using f ab by (auto simp: folder_of_def str_rsplit_once_def split: if_splits)
  ultimately show ?thesis by simp
qed

lemma dir_part_slash: "SLASH \<in> set p \<Longrightarrow> str_ends_with_char SLASH (dir_part p)"
  by (induction p rule: rev_induct) (auto simp: dir_part_snoc str_ends_with_char_def)

lemma when_set_simps: "when_set None P" "when_set (Some y) P \<longleftrightarrow> P y"
  by (simp_all add: when_set_def)

lemma context_step_matches:
  assumes "ctx_describes ctx x" "spec_matches spec x"
  shows "spec_matches (context_step ctx spec d) x"
proof (cases "context_value ctx d")
  case (Some v)
  have fl: "d = TargetFolder \<or> d = LandingFolder \<Longrightarrow> normalize_folder v = v \<and> split_recursive v = (v, False)"
    using assms(1) Some folder_of_ok(1) dir_part_slash [of "x_landing x"]
    by (auto simp: ctx_describes_def when_set_def in_folder_def normalize_folder_id split_recursive_slash)
  have keep: "flag_set (f OR dim_bit d) TARGET_FOLDER_RECURSIVE = flag_set f TARGET_FOLDER_RECURSIVE"
    "flag_set (f OR dim_bit d) LANDING_FOLDER_RECURSIVE = flag_set f LANDING_FOLDER_RECURSIVE" for f
    by (cases d; simp add: flags_or rec_bits_apart dim_consts)+
  note m = assms(2) [unfolded spec_matches_def] and c = assms(1) [unfolded ctx_describes_def]
  show ?thesis
  proof (cases "flag_set (s_flags spec) (dim_bit d)")
    case True
    with Some assms(2) show ?thesis by (simp add: context_step_def rule_set_def)
  next
    case False
    have "d = CreatorUid \<Longrightarrow> parse_u32 v = Some (c_creator_uid ctx)"
      "d = ExecutionUid \<Longrightarrow> parse_u32 v = Some (c_execution_uid ctx)"
      using Some parse_show_u32 by auto
    with Some False m c fl keep show ?thesis
      using folder_of_dir_part [of "x_target x" v]
      by (cases d)
        (simp_all add: context_step_def rule_set_def Let_def spec_matches_def non_empty_def
          in_folder_def when_set_simps del: dim_bit.simps split: if_splits)
  qed
qed (use assms in \<open>simp add: context_step_def\<close>)

lemma rule_from_context_matches:
  assumes "ctx_describes ctx x"
  shows "spec_matches (rule_from_context ctx dims) x"
proof -
  have "spec_matches spec x \<Longrightarrow> spec_matches (foldl (context_step ctx) spec dims) x" for spec
    by (induction dims arbitrary: spec) (simp_all add: context_step_matches [OF assms])
  then show ?thesis
    by (simp add: rule_from_context_def spec_matches_def default_spec_def when_set_def)
qed


lemma allowed_line_matches:
  assumes "base64_standard E" "ctx_ok ctx" "ctx_describes ctx x"
    and "candidate_line E dims (to_line E (rule_from_context ctx ALLOW_DIMS)) = Inr line"
    and "s_flags (rule_from_context ctx ALLOW_DIMS) \<noteq> 0"
  shows "\<exists>r. rule_parse E line = Inr r \<and> to_line E r = line \<and> spec_ok r \<and> spec_matches r x"
proof -
  let ?spec = "rule_from_context ctx ALLOW_DIMS"
  have w: "rule_writable ?spec"
    using assms(2) rule_from_context_ok rule_from_context_plain by (simp add: rule_writable_def ctx_ok_def)
  note c = base64_standard.candidate_line_applied [OF assms(1) w assms(5,4)]
  have "spec_ok ?spec" using w by (simp add: rule_writable_def)
  from sub_spec_matches [OF applied_rule_sub [OF this] rule_from_context_matches [OF assms(3)]]
    c applied_rule_writable [OF w, of dims] show ?thesis by (auto simp: rule_writable_def)
qed

section \<open>The pending table\<close>

lemma blocks_list_order:
  assumes "blocks_inv T"
  shows "map b_token (blocks_list T) = bt_order T \<and> set (blocks_list T) = ran (bt_map T)"
proof -
  have "set ts \<subseteq> dom (bt_map T) \<Longrightarrow>
      map b_token (List.map_filter (bt_map T) ts) = ts \<and>
      set (List.map_filter (bt_map T) ts) = {r. \<exists>t \<in> set ts. bt_map T t = Some r}" for ts
  proof (induction ts)
    case (Cons t ts)
    then obtain r where "bt_map T t = Some r" by auto
    moreover from this have "b_token r = t" using assms by (auto simp: blocks_inv_def)
    ultimately show ?case using Cons by (auto simp: List.map_filter_simps)
  qed (simp add: List.map_filter_simps)
  from this [of "bt_order T"] show ?thesis
    using assms unfolding blocks_list_def blocks_inv_def ran_def by auto
qed

text \<open>
  The pending table is bounded and consistent whatever blocks and decisions arrive: at most
  512 entries, one per token, each listed under the token that looks it up.
\<close>

theorem pending_blocks_consistent:
  "length (blocks_list (pending.run ops (blocks_new a b))) \<le> 512 \<and>
   distinct (map b_token (blocks_list (pending.run ops (blocks_new a b)))) \<and>
   (r \<in> set (blocks_list (pending.run ops (blocks_new a b))) \<longleftrightarrow>
     record_for (pending.run ops (blocks_new a b)) (b_token r) = Some r)"
proof -
  let ?T = "pending.run ops (blocks_new a b)"
  have inv: "blocks_inv ?T" by (rule pending.run_inv [OF blocks_inv_new])
  note l = blocks_list_order [OF inv]
  have "length (map b_token (blocks_list ?T)) \<le> MAX_BLOCKS"
    using pending.run_bounded [OF blocks_inv_new] l by simp
  moreover have "distinct (map b_token (blocks_list ?T))" using inv l by (simp add: blocks_inv_def)
  moreover have "r \<in> set (blocks_list ?T) \<longleftrightarrow> record_for ?T (b_token r) = Some r"
    using inv l by (auto simp: blocks_inv_def ran_def record_for_def)
  ultimately show ?thesis by (simp add: MAX_BLOCKS_def)
qed

section \<open>Witnesses\<close>

lemma rule_for_record:
  assumes "bt_map T (block_token T line) = None"
  shows "rule_for (fst (blocks_record kind line target creator dev ino T)) (block_token T line) = Some line"
  using assms by (simp add: blocks_record_def rule_for_def Let_def)

definition sample_control :: control where
  "sample_control = (control_new None 1 2)\<lparr>blocks :=
     fst (blocks_record ''exec'' ''creator_uid=7'' ''/tmp/x'' ''curl'' 1 2 (blocks_new 1 2))\<rparr>"

lemma sample_control_rule:
  "rule_for (blocks sample_control) (block_token (blocks_new 1 2) ''creator_uid=7'') = Some (to_line E uid_spec)"
  unfolding sample_control_def uid_spec_line
  by (simp add: rule_for_record blocks_new_def)


end
