(* ===== verification/Handler.thy ===== *)
theory Handler
  imports Hashdb Daemon_Config Kernel_Hooks Control_Props
begin

text \<open>
  \<open>linprov/src/handler.rs\<close> and \<open>linprov/src/inode_storage.rs\<close>: what the daemon does with one event of
  the ring buffer. A file-mark event completes the record of the kernel and stores it in the
  xattr and in inode storage; an execution event is logged and, when it was denied, becomes a
  pending block, or in soak mode a rule.

  The state the handler changes is one record. What the system answers is in \<open>handler_env\<close>: the
  link \<open>/proc/pid/exe\<close>, the text of \<open>/proc/pid/status\<close>, the result of the no-follow open of a path,
  the device and inode of a path, and which writes fail. Log lines at debug level are left out.
\<close>

section \<open>State and environment\<close>

datatype log_entry = Error string | Warn string | Info string

record handler_state =
  hs_db :: hash_db
  hs_soak :: "soak option"
  hs_marks :: "inode \<rightharpoonup> origin_record"
  hs_xattrs :: "inode \<rightharpoonup> bytes"
  hs_blocks :: blocks_table
  hs_sent :: "control_event list"
  hs_log :: "log_entry list"

datatype path_fd = FdFailed | FdStatFailed | FdOther | FdRegular inode

record handler_env =
  h_exe :: "u32 \<Rightarrow> bytes option"
  h_status :: "u32 \<Rightarrow> bytes option"
  h_open :: "string \<Rightarrow> path_fd"
  h_stat :: "string \<Rightarrow> (u64 \<times> u64) option"
  h_db_err :: "string \<Rightarrow> nat option"
  h_xattr_ok :: bool
  h_backfill_ok :: bool
  h_soak_err :: "nat option"
  h_soak_msg :: string

section \<open>Strings of an event\<close>

definition comm_to_string :: "bytes \<Rightarrow> string" where
  "comm_to_string c = from_utf8_lossy (c_str c)"

definition c_str_to_string :: "bytes \<Rightarrow> string" where
  "c_str_to_string buf = from_utf8_lossy (c_str buf)"

definition basename_of :: "string \<Rightarrow> string option" where
  "basename_of path =
    (let base = (case str_rsplit_once SLASH path of Some (_, b) \<Rightarrow> b | None \<Rightarrow> path)
     in if base = [] then None else Some base)"

text \<open>\<open>to_str\<close> never fails here: the path was made from a \<open>String\<close>.\<close>

definition target_is_pseudo_fs :: "string \<Rightarrow> bool" where
  "target_is_pseudo_fs s \<longleftrightarrow>
    str_starts_with ''/dev/'' s \<or> str_starts_with ''/proc/'' s \<or>
    str_starts_with ''/sys/'' s \<or> str_starts_with ''/run/'' s"

definition resolved :: "string option \<Rightarrow> u64 \<Rightarrow> string" where
  "resolved s h =
    (case s of
       Some v \<Rightarrow> escape v
     | None \<Rightarrow> if h = 0 then ''<none>'' else ''<hash:'' @ show_hash h @ ''>'')"

definition show_u64 :: "u64 \<Rightarrow> string" where
  "show_u64 w = show_radix 10 (unat w)"

definition show_i32 :: "i32 \<Rightarrow> string" where
  "show_i32 w =
    (if sint w < 0 then ''-'' @ show_radix 10 (nat (- sint w)) else show_radix 10 (nat (sint w)))"

definition format_origin :: "origin_record \<Rightarrow> string \<Rightarrow> string option \<Rightarrow> string" where
  "format_origin r creator_comm creator_path =
    ''{v:'' @ show_u32 (version r) @ '',ts_boot_ns:'' @ show_u64 (ts_boot_ns r) @
    '',pid:'' @ show_u32 (pid r) @ '',uid:'' @ show_u32 (creator_uid r) @
    '',comm:'' @ escape creator_comm @ '',creator:'' @
    resolved creator_path (creator_path_hash r) @ ''}''"

text \<open>\<open>str::lines\<close>.\<close>

definition str_lines :: "string \<Rightarrow> string list" where
  "str_lines s =
    (let ps = str_split (CHR 0x0A) s;
         strip = (\<lambda>l. case str_strip_suffix_char (CHR 0x0D) l of Some u \<Rightarrow> u | None \<Rightarrow> l)
     in map strip (butlast ps) @ (if last ps = [] then [] else [last ps]))"

fun uid_line :: "string list \<Rightarrow> u32 option" where
  "uid_line [] = None"
| "uid_line (l # ls) =
    (case str_strip_prefix ''Uid:'' l of
       Some rest \<Rightarrow>
         (case str_split_whitespace rest of [] \<Rightarrow> None | real # _ \<Rightarrow> parse_u32 real)
     | None \<Rightarrow> uid_line ls)"

definition get_uid_for_pid :: "handler_env \<Rightarrow> u32 \<Rightarrow> u32 option" where
  "get_uid_for_pid h p =
    (case h_status h p of
       None \<Rightarrow> None
     | Some s \<Rightarrow> if utf8_valid s then uid_line (str_lines s) else None)"

definition read_creator_exe :: "handler_env \<Rightarrow> u32 \<Rightarrow> string option" where
  "read_creator_exe h p = map_option from_utf8_lossy (h_exe h p)"

section \<open>Marked files\<close>

definition db_record :: "b64_engine \<Rightarrow> handler_env \<Rightarrow> string \<Rightarrow> hash_db \<Rightarrow> hash_db \<times> u64" where
  "db_record E h s D = hashdb_record E (h_db_err h s) s D"

text \<open>The loop over the bytes of the landing path; \<open>i\<close> is the index and \<open>cnt\<close> the slashes seen.\<close>

function landing_loop ::
    "b64_engine \<Rightarrow> handler_env \<Rightarrow> string \<Rightarrow> nat \<Rightarrow> nat \<Rightarrow> hash_db \<times> origin_record \<Rightarrow>
      hash_db \<times> origin_record" where
  "landing_loop E h path i cnt (D, r) =
    (if i < length path then
       (if path ! i = SLASH then
          (case db_record E h (take (Suc i) path) D of (D, v) \<Rightarrow>
             landing_loop E h path (Suc i) (Suc cnt)
               (D, r\<lparr>landing_ancestor_hashes :=
                       (landing_ancestor_hashes r)[cnt AND (MAX_FOLDER_ANCESTORS - 1) := v],
                     landing_folder_hash := v\<rparr>))
        else landing_loop E h path (Suc i) cnt (D, r))
     else (D, r))"
  by pat_completeness auto
termination
  by (relation "measure (\<lambda>(E, h, path, i, cnt, st). length path - i)") auto

declare landing_loop.simps [simp del]

definition open_mark_target :: "handler_env \<Rightarrow> string \<Rightarrow> inode option" where
  "open_mark_target h target =
    (case h_open h target of
       FdRegular ino \<Rightarrow> Some ino | FdOther \<Rightarrow> None | FdStatFailed \<Rightarrow> None | FdFailed \<Rightarrow> None)"

definition set_origin_xattr ::
    "handler_env \<Rightarrow> inode \<Rightarrow> bytes \<Rightarrow> (inode \<rightharpoonup> bytes) \<Rightarrow> (inode \<rightharpoonup> bytes)" where
  "set_origin_xattr h ino v x = (if h_xattr_ok h then x(ino \<mapsto> v) else x)"

definition backfill ::
    "handler_env \<Rightarrow> inode \<Rightarrow> origin_record \<Rightarrow> (inode \<rightharpoonup> origin_record) \<Rightarrow> (inode \<rightharpoonup> origin_record)" where
  "backfill h ino r m = (if h_backfill_ok h then m(ino \<mapsto> r) else m)"

text \<open>The record the daemon stores, and the database after the strings of the event went in.\<close>

definition augment ::
    "b64_engine \<Rightarrow> handler_env \<Rightarrow> event \<Rightarrow> bool \<Rightarrow> hash_db \<Rightarrow> hash_db \<times> origin_record" where
  "augment E h ev derived D =
    (let landing_path = c_str_to_string (e_filename ev);
         r = (e_origin ev)\<lparr>version := ORIGIN_VERSION,
               landing_ancestor_hashes := replicate MAX_FOLDER_ANCESTORS 0\<rparr>
     in case landing_loop E h landing_path 0 0 (D, r) of (D, r) \<Rightarrow>
        case (case basename_of landing_path of
                Some base \<Rightarrow>
                  (case db_record E h base D of (D, v) \<Rightarrow> (D, r\<lparr>landing_basename_hash := v\<rparr>))
              | None \<Rightarrow> (D, r)) of (D, r) \<Rightarrow>
        if derived then (D, r)
        else case read_creator_exe h (e_pid ev) of
               Some path \<Rightarrow>
                 (case db_record E h path D of (D, v) \<Rightarrow> (D, r\<lparr>creator_path_hash := v\<rparr>))
             | None \<Rightarrow> (D, r))"

definition on_file_marked ::
    "b64_engine \<Rightarrow> handler_env \<Rightarrow> event \<Rightarrow> bool \<Rightarrow> handler_state \<Rightarrow> handler_state" where
  "on_file_marked E h ev derived st =
    (let landing_path = c_str_to_string (e_filename ev) in
     if target_is_pseudo_fs landing_path then st
     else case augment E h ev derived (hs_db st) of (D, r) \<Rightarrow>
       let st = st\<lparr>hs_db := D\<rparr> in
       case open_mark_target h landing_path of
         None \<Rightarrow> st
       | Some ino \<Rightarrow>
           st\<lparr>hs_xattrs := set_origin_xattr h ino (bytes_of_origin r) (hs_xattrs st),
              hs_marks := backfill h ino r (hs_marks st)\<rparr>)"

section \<open>Executions\<close>

text \<open>The fields of the context that both the block and the soak path assemble.\<close>

definition event_ctx :: "handler_env \<Rightarrow> event \<Rightarrow> hash_db \<Rightarrow> origin_context" where
  "event_ctx h ev D =
    \<lparr>c_target_filename = c_str_to_string (e_filename ev),
     c_landing_folder = hashdb_resolve D (landing_folder_hash (e_origin ev)),
     c_landing_basename = hashdb_resolve D (landing_basename_hash (e_origin ev)),
     c_creator_path = hashdb_resolve D (creator_path_hash (e_origin ev)),
     c_creator_comm = comm_to_string (comm (e_origin ev)),
     c_creator_uid = creator_uid (e_origin ev),
     c_execution_uid = unwrap_or (get_uid_for_pid h (e_pid ev)) 0\<rparr>"

definition record_block_token ::
    "b64_engine \<Rightarrow> handler_env \<Rightarrow> string \<Rightarrow> event \<Rightarrow> handler_state \<Rightarrow> handler_state \<times> string" where
  "record_block_token E h kind ev st =
    (let ctx = event_ctx h ev (hs_db st);
         target = c_target_filename ctx;
         rule_line = to_line E (rule_from_context ctx ALLOW_DIMS);
         creator = (case c_creator_path ctx of
                      Some s \<Rightarrow> if s \<noteq> [] then s else c_creator_comm ctx
                    | None \<Rightarrow> c_creator_comm ctx)
     in case unwrap_or (h_stat h target) (0, 0) of (dev, ino) \<Rightarrow>
        case blocks_record kind rule_line target creator dev ino (hs_blocks st) of (T, token) \<Rightarrow>
          (st\<lparr>hs_blocks := T,
              hs_sent := hs_sent st @ [Block \<lparr>be_kind = kind, be_token = token,
                be_target = target, be_creator = creator\<rparr>]\<rparr>, token))"

definition maybe_soak ::
    "b64_engine \<Rightarrow> handler_env \<Rightarrow> mode \<Rightarrow> event \<Rightarrow> handler_state \<Rightarrow> handler_state" where
  "maybe_soak E h mode ev st =
    (if mode \<noteq> Soak then st
     else case hs_soak st of
       None \<Rightarrow> st
     | Some S \<Rightarrow>
        (case soak_record E (h_soak_err h) (event_ctx h ev (hs_db st)) S of (S, res) \<Rightarrow>
           let st = st\<lparr>hs_soak := Some S\<rparr> in
           case res of
             Some (Some line) \<Rightarrow> st\<lparr>hs_log := hs_log st @ [Info (''soak: added `'' @ line @ ''`'')]\<rparr>
           | Some None \<Rightarrow> st
           | None \<Rightarrow> st\<lparr>hs_log := hs_log st @ [Warn (''soak append failed: '' @ h_soak_msg h)]\<rparr>))"

text \<open>The part of the log line that both kinds of event share.\<close>

definition landing_text :: "event \<Rightarrow> origin_context \<Rightarrow> string" where
  "landing_text ev ctx =
    '' landing_folder='' @ resolved (c_landing_folder ctx) (landing_folder_hash (e_origin ev)) @
    '' landing_file='' @ resolved (c_landing_basename ctx) (landing_basename_hash (e_origin ev)) @
    '' pid='' @ show_u32 (e_pid ev)"

definition origin_text :: "event \<Rightarrow> origin_context \<Rightarrow> string" where
  "origin_text ev ctx =
    '' origin='' @ format_origin (e_origin ev) (c_creator_comm ctx) (c_creator_path ctx)"

definition verdict_text :: "event \<Rightarrow> string \<Rightarrow> string" where
  "verdict_text ev token =
    '' (LSM verdict '' @ show_i32 (e_status ev) @ '') [allow: '' @ token @ '']''"

definition exec_text :: "event \<Rightarrow> origin_context \<Rightarrow> string" where
  "exec_text ev ctx =
    '' target='' @ escape (c_target_filename ctx) @ landing_text ev ctx @
    '' comm='' @ escape (comm_to_string (e_comm ev)) @ origin_text ev ctx"

definition script_text :: "event \<Rightarrow> origin_context \<Rightarrow> string" where
  "script_text ev ctx =
    (let script_path = c_target_filename ctx in
     '' script='' @ escape script_path @
     '' name='' @ escape (unwrap_or (basename_of script_path) script_path) @
     '' interp='' @ escape (comm_to_string (e_comm ev)) @
     landing_text ev ctx @ origin_text ev ctx)"

definition on_execve_marked ::
    "b64_engine \<Rightarrow> handler_env \<Rightarrow> mode \<Rightarrow> event \<Rightarrow> handler_state \<Rightarrow> handler_state" where
  "on_execve_marked E h mode ev st =
    (let ctx = event_ctx h ev (hs_db st) in
     if e_status ev \<noteq> 0 then
       (case record_block_token E h ''exec'' ev st of (st, token) \<Rightarrow>
          st\<lparr>hs_log := hs_log st @
            [Warn (''BLOCKED-EXEC'' @ exec_text ev ctx @ verdict_text ev token)]\<rparr>)
     else let st = st\<lparr>hs_log := hs_log st @ [Info (''PROVENANCE-EXEC'' @ exec_text ev ctx)]\<rparr>
       in maybe_soak E h mode ev st)"

definition on_script_exec ::
    "b64_engine \<Rightarrow> handler_env \<Rightarrow> mode \<Rightarrow> event \<Rightarrow> handler_state \<Rightarrow> handler_state" where
  "on_script_exec E h mode ev st =
    (let ctx = event_ctx h ev (hs_db st) in
     if e_status ev \<noteq> 0 then
       (case record_block_token E h ''script'' ev st of (st, token) \<Rightarrow>
          st\<lparr>hs_log := hs_log st @
            [Warn (''BLOCKED-SCRIPT'' @ script_text ev ctx @ verdict_text ev token)]\<rparr>)
     else let st = st\<lparr>hs_log := hs_log st @ [Info (''PROVENANCE-SCRIPT'' @ script_text ev ctx)]\<rparr>
       in maybe_soak E h mode ev st)"

section \<open>Dispatch\<close>

text \<open>\<open>size_of::<Event>()\<close> and the cast of its bytes; a misaligned buffer makes the cast fail.\<close>

definition EVENT_SIZE :: nat where "EVENT_SIZE = 352 + EXEC_PATH_LEN"

definition event_of_bytes :: "bytes \<Rightarrow> event" where
  "event_of_bytes bs =
    \<lparr>e_kind = of_nat (field_at bs 0 4), e_pid = of_nat (field_at bs 4 4),
     e_tgid = of_nat (field_at bs 8 4), e_status = of_nat (field_at bs 12 4),
     e_comm = take 16 (drop 16 bs), e_origin = origin_of_bytes (take 320 (drop 32 bs)),
     e_filename = take EXEC_PATH_LEN (drop 352 bs)\<rparr>"

definition dispatch_event ::
    "b64_engine \<Rightarrow> handler_env \<Rightarrow> mode \<Rightarrow> event \<Rightarrow> handler_state \<Rightarrow> handler_state" where
  "dispatch_event E h mode ev st =
    (if e_kind ev = EVENT_KIND_NETWORK_FILE_OPEN then on_file_marked E h ev False st
     else if e_kind ev = EVENT_KIND_DERIVED_FILE_OPEN then on_file_marked E h ev True st
     else if e_kind ev = EVENT_KIND_EXECVE then on_execve_marked E h mode ev st
     else if e_kind ev = EVENT_KIND_SCRIPT_EXEC then on_script_exec E h mode ev st
     else st\<lparr>hs_log := hs_log st @ [Warn (''unknown event kind: '' @ show_u32 (e_kind ev))]\<rparr>)"

definition handle_event ::
    "b64_engine \<Rightarrow> handler_env \<Rightarrow> mode \<Rightarrow> string option \<Rightarrow> bytes \<Rightarrow> handler_state \<Rightarrow> handler_state" where
  "handle_event E h mode cast_err raw st =
    (if length raw < EVENT_SIZE then
       st\<lparr>hs_log := hs_log st @ [Warn (''short ring-buf record: got '' @ show_radix 10 (length raw) @
         '' bytes, expected '' @ show_radix 10 EVENT_SIZE)]\<rparr>
     else case cast_err of
       Some e \<Rightarrow> st\<lparr>hs_log := hs_log st @ [Warn (''failed to cast ring-buf record to Event: '' @ e)]\<rparr>
     | None \<Rightarrow> dispatch_event E h mode (event_of_bytes (take EVENT_SIZE raw)) st)"

end
