(* ===== verification/Quarantine.thy ===== *)
theory Quarantine
  imports Hashdb Daemon_Config Kernel_State
begin

text \<open>
  \<open>linprov/src/quarantine.rs\<close>: moving a blocked file into the store, listing the store and restoring
  a file.

  The file system is a table of inodes and a map from (directory, name) to inode; a file descriptor
  is the inode or the directory it was opened on, which renames and unlinks of names do not change.
  Other processes run between the system calls of \<open>stash\<close>: \<open>q_adv n\<close> is what they did to the file
  system before the call at point \<open>n\<close>. The results of the calls that can fail, the clock, the inode
  number of a created file and the kernel's effect of \<open>chown\<close> on mode bits are in \<open>q_env\<close>; the TOML
  library, which is not part of the repository, is a pair of functions.
\<close>

section \<open>File system\<close>

type_synonym i64 = "64 word"
type_synonym dir_id = nat

datatype errno = ELOOP | ENOENT | EXDEV | EEXIST | OtherErrno nat

record qnode =
  n_dev :: u64
  n_ino :: u64
  n_mode :: u32
  n_uid :: u32
  n_gid :: u32
  n_mtime :: i64
  n_mtime_nsec :: i64
  n_data :: bytes
  n_origin :: "bytes option"
  n_link :: "inode option"

record qfs =
  q_names :: "dir_id \<times> string \<rightharpoonup> inode"
  q_nodes :: "inode \<Rightarrow> qnode"
  q_manifests :: "string \<rightharpoonup> string"

definition S_IFMT :: u32 where "S_IFMT = 0xF000"

definition S_IFREG :: u32 where "S_IFREG = 0x8000"

definition S_IFLNK :: u32 where "S_IFLNK = 0xA000"

definition is_regular :: "qnode \<Rightarrow> bool" where
  "is_regular nd \<longleftrightarrow> n_mode nd AND S_IFMT = S_IFREG"

definition is_symlink :: "qnode \<Rightarrow> bool" where
  "is_symlink nd \<longleftrightarrow> n_mode nd AND S_IFMT = S_IFLNK"

definition perm_bits :: "u32 \<Rightarrow> u32" where
  "perm_bits m = m AND 0xFFF"

definition set_perm :: "u32 \<Rightarrow> qnode \<Rightarrow> qnode" where
  "set_perm p nd = nd\<lparr>n_mode := (n_mode nd AND S_IFMT) OR perm_bits p\<rparr>"

definition upd_node :: "inode \<Rightarrow> (qnode \<Rightarrow> qnode) \<Rightarrow> qfs \<Rightarrow> qfs" where
  "upd_node i f fs = fs\<lparr>q_nodes := (q_nodes fs)(i := f (q_nodes fs i))\<rparr>"

text \<open>Calls on a path act on what a symbolic link at its end points to; a dangling link is \<open>None\<close>.\<close>

definition follow :: "qfs \<Rightarrow> inode \<Rightarrow> inode option" where
  "follow fs i = (if is_symlink (q_nodes fs i) then n_link (q_nodes fs i) else Some i)"

definition upd_follow :: "inode \<Rightarrow> (qnode \<Rightarrow> qnode) \<Rightarrow> qfs \<Rightarrow> qfs" where
  "upd_follow i f fs = (case follow fs i of Some t \<Rightarrow> upd_node t f fs | None \<Rightarrow> fs)"

section \<open>Paths\<close>

text \<open>
  \<open>Path::components\<close>: empty and \<open>.\<close> components are dropped, except a leading \<open>.\<close> of a relative path.
  The parent is spelled with single slashes.
\<close>

definition path_absolute :: "string \<Rightarrow> bool" where
  "path_absolute s \<longleftrightarrow> s \<noteq> [] \<and> hd s = SLASH"

definition path_comps :: "string \<Rightarrow> string list" where
  "path_comps s =
    (let ps = str_split SLASH s;
         ns = filter (\<lambda>c. c \<noteq> [] \<and> c \<noteq> ''.'') ps
     in if \<not> path_absolute s \<and> hd ps = ''.'' then ''.'' # ns else ns)"

definition path_file_name :: "string \<Rightarrow> string option" where
  "path_file_name s =
    (let cs = path_comps s in
     if cs = [] \<or> last cs = ''..'' \<or> last cs = ''.'' then None else Some (last cs))"

definition path_parent :: "string \<Rightarrow> string option" where
  "path_parent s =
    (let cs = path_comps s in
     if cs = [] then None
     else Some ((if path_absolute s then ''/'' else []) @ str_join ''/'' (butlast cs)))"

section \<open>Manifests\<close>

definition STORE_SUBDIR :: string where "STORE_SUBDIR = ''store''"

definition TAMPER_MARKER :: string where "TAMPER_MARKER = ''possible-tamper''"

record manifest =
  m_id :: string
  m_token :: string
  m_original_path :: string
  m_uid :: u32
  m_gid :: u32
  m_mode :: u32
  m_mtime :: i64
  m_mtime_nsec :: i64
  m_size :: u64
  m_dev :: u64
  m_ino :: u64
  m_origin_hex :: "string option"
  m_quarantined_at :: u64

record toml =
  to_toml :: "manifest \<Rightarrow> string option"
  of_toml :: "string \<Rightarrow> manifest option"

definition hex_encode :: "bytes \<Rightarrow> string" where
  "hex_encode bs = concat (map (\<lambda>b. show_hex_padded 2 (of_char b)) bs)"

text \<open>A slice that is not on a character boundary would panic; here it is an undecodable pair.\<close>

fun hex_pairs :: "string \<Rightarrow> bytes option" where
  "hex_pairs (a # b # s) =
    (case parse_uint 16 256 [a, b] of
       None \<Rightarrow> None
     | Some v \<Rightarrow> map_option ((#) (char_of v)) (hex_pairs s))"
| "hex_pairs s = Some []"

definition hex_decode :: "string \<Rightarrow> bytes option" where
  "hex_decode s = (if length s mod 2 \<noteq> 0 then None else hex_pairs s)"

section \<open>Stashing\<close>

record stashed =
  st_id :: string
  st_original_path :: string

datatype stash_cause = NoParent | NoFinalComponent | NulInName | ReachedThroughSymlink
  | PathIo errno | StatFailed | NotRegular | IdentityChanged | StoreCreateFailed | StoreOpenFailed
  | MoveFailed errno | BodyCreateFailed errno | CopyFailed | SyncFailed | ManifestSerializeFailed
  | ManifestWriteFailed

record stash_error =
  se_tamper :: bool
  se_source :: stash_cause

definition stash_tamper :: "stash_cause \<Rightarrow> stash_error" where
  "stash_tamper c = \<lparr>se_tamper = True, se_source = c\<rparr>"

definition stash_plain :: "stash_cause \<Rightarrow> stash_error" where
  "stash_plain c = \<lparr>se_tamper = False, se_source = c\<rparr>"

definition classify_path_error :: "errno \<Rightarrow> stash_error" where
  "classify_path_error e =
    (if e = ELOOP then stash_tamper ReachedThroughSymlink else stash_plain (PathIo e))"

record q_env =
  q_parent :: "string \<Rightarrow> errno + dir_id"
  q_open_err :: "errno option"
  q_fstat_ok :: bool
  q_getxattr_ok :: bool
  q_mkdir_ok :: bool
  q_store_ok :: bool
  q_store :: dir_id
  q_now :: u64
  q_rename_err :: "errno option"
  q_create_err :: "errno option"
  q_copy_err :: "nat option"
  q_sync_ok :: bool
  q_setxattr_ok :: bool
  q_unlink_ok :: bool
  q_manifest_err :: "nat option"
  q_fresh :: inode
  q_fresh_node :: qnode
  q_adv :: "nat \<Rightarrow> qfs \<Rightarrow> qfs"

text \<open>\<open>openat(.., O_RDONLY|O_NOFOLLOW)\<close>: a final symbolic link is \<open>ELOOP\<close>.\<close>

definition openat_nofollow :: "q_env \<Rightarrow> dir_id \<Rightarrow> string \<Rightarrow> qfs \<Rightarrow> errno + inode" where
  "openat_nofollow e d name fs =
    (case q_names fs (d, name) of
       None \<Rightarrow> Inl ENOENT
     | Some i \<Rightarrow>
        if is_symlink (q_nodes fs i) then Inl ELOOP
        else case q_open_err e of Some err \<Rightarrow> Inl err | None \<Rightarrow> Inr i)"

text \<open>
  \<open>openat2\<close> with \<open>RESOLVE_NO_SYMLINKS\<close>. A NUL in the path fails before the call, with an error that has
  no number.
\<close>

definition open_dir_no_symlinks :: "q_env \<Rightarrow> string \<Rightarrow> errno + dir_id" where
  "open_dir_no_symlinks e path = (if NUL \<in> set path then Inl (OtherErrno 0) else q_parent e path)"

text \<open>\<open>openat(.., O_WRONLY|O_CREAT|O_EXCL)\<close>: a new, empty file.\<close>

definition openat_create :: "q_env \<Rightarrow> dir_id \<Rightarrow> string \<Rightarrow> u32 \<Rightarrow> qfs \<Rightarrow> qfs \<times> (errno + inode)" where
  "openat_create e d name mode fs =
    (if q_names fs (d, name) \<noteq> None then (fs, Inl EEXIST)
     else case q_create_err e of
       Some err \<Rightarrow> (fs, Inl err)
     | None \<Rightarrow> (fs\<lparr>q_names := (q_names fs)((d, name) \<mapsto> q_fresh e),
         q_nodes := (q_nodes fs)(q_fresh e := set_perm mode (q_fresh_node e)\<lparr>n_data := []\<rparr>)\<rparr>, Inr (q_fresh e)))"

text \<open>The calls on a descriptor, and \<open>fstatat\<close> with \<open>AT_SYMLINK_NOFOLLOW\<close>; \<open>None\<close> is an error.\<close>

definition fstat :: "q_env \<Rightarrow> inode \<Rightarrow> qfs \<Rightarrow> qnode option" where
  "fstat e fd fs = (if q_fstat_ok e then Some (q_nodes fs fd) else None)"

definition fstatat_nofollow :: "dir_id \<Rightarrow> string \<Rightarrow> qfs \<Rightarrow> qnode option" where
  "fstatat_nofollow d name fs = map_option (q_nodes fs) (q_names fs (d, name))"

definition fgetxattr :: "q_env \<Rightarrow> inode \<Rightarrow> qfs \<Rightarrow> bytes option option" where
  "fgetxattr e fd fs = (if q_getxattr_ok e then Some (n_origin (q_nodes fs fd)) else None)"

definition fsetxattr :: "q_env \<Rightarrow> inode \<Rightarrow> bytes \<Rightarrow> qfs \<Rightarrow> qfs" where
  "fsetxattr e fd v fs = (if q_setxattr_ok e then upd_node fd (\<lambda>nd. nd\<lparr>n_origin := Some v\<rparr>) fs else fs)"

lemmas syscall_defs = open_dir_no_symlinks_def openat_create_def fstat_def fstatat_nofollow_def fgetxattr_def fsetxattr_def

definition stat_ids :: "qnode \<Rightarrow> u64 \<times> u64" where
  "stat_ids nd = (n_dev nd, n_ino nd)"

definition quarantine_id :: "string \<Rightarrow> u64 \<Rightarrow> string" where
  "quarantine_id token ts = token @ ''-'' @ show_radix 10 (unat ts)"

definition manifest_of :: "q_env \<Rightarrow> string \<Rightarrow> string \<Rightarrow> u64 \<Rightarrow> u64 \<Rightarrow> bytes option \<Rightarrow> qnode \<Rightarrow> manifest" where
  "manifest_of e token target want_dev want_ino origin st =
    \<lparr>m_id = quarantine_id token (q_now e), m_token = token, m_original_path = target,
     m_uid = n_uid st, m_gid = n_gid st, m_mode = n_mode st, m_mtime = n_mtime st,
     m_mtime_nsec = n_mtime_nsec st, m_size = of_nat (length (n_data st)), m_dev = want_dev,
     m_ino = want_ino, m_origin_hex = map_option hex_encode origin, m_quarantined_at = q_now e\<rparr>"

definition write_manifest ::
    "q_env \<Rightarrow> toml \<Rightarrow> manifest \<Rightarrow> qfs \<Rightarrow> qfs \<times> stash_cause option" where
  "write_manifest e tm m fs =
    (case to_toml tm m of
       None \<Rightarrow> (fs, Some ManifestSerializeFailed)
     | Some body \<Rightarrow>
        (case q_manifest_err e of
           Some n \<Rightarrow> (fs\<lparr>q_manifests := (q_manifests fs)(m_id m \<mapsto> take n body)\<rparr>, Some ManifestWriteFailed)
         | None \<Rightarrow> (fs\<lparr>q_manifests := (q_manifests fs)(m_id m \<mapsto> body)\<rparr>, None)))"

text \<open>The copy across file systems; the original goes only if the name still has the identity.\<close>

definition copy_body ::
    "q_env \<Rightarrow> dir_id \<Rightarrow> string \<Rightarrow> inode \<Rightarrow> string \<Rightarrow> u64 \<Rightarrow> u64 \<Rightarrow> bytes option \<Rightarrow> qfs \<Rightarrow>
      qfs \<times> stash_cause option" where
  "copy_body e parent base fd sid want_dev want_ino origin fs =
    (case openat_create e (q_store e) sid 0x180 fs of (fs, res) \<Rightarrow>
     (case res of
       Inl err \<Rightarrow> (fs, Some (BodyCreateFailed err))
     | Inr out \<Rightarrow>
        let bytes = n_data (q_nodes fs fd) in
        case q_copy_err e of
          Some n \<Rightarrow> (upd_node out (\<lambda>nd. nd\<lparr>n_data := take n bytes\<rparr>) fs, Some CopyFailed)
        | None \<Rightarrow>
           let fs = upd_node out (\<lambda>nd. nd\<lparr>n_data := bytes\<rparr>) fs in
           if \<not> q_sync_ok e then (fs, Some SyncFailed)
           else let fs = (case origin of Some v \<Rightarrow> fsetxattr e out v fs | None \<Rightarrow> fs);
                    fs = upd_node out (set_perm 0) fs;
                    fs = q_adv e 3 fs
             in case fstatat_nofollow parent base fs of
                  Some now \<Rightarrow>
                    if stat_ids now = (want_dev, want_ino) then
                      let fs = q_adv e 4 fs in
                      if q_unlink_ok e then (fs\<lparr>q_names := (q_names fs)((parent, base) := None)\<rparr>, None)
                      else (fs, None)
                    else (fs, None)
                | None \<Rightarrow> (fs, None)))"

definition finish_stash ::
    "q_env \<Rightarrow> toml \<Rightarrow> string \<Rightarrow> string \<Rightarrow> u64 \<Rightarrow> u64 \<Rightarrow> dir_id \<Rightarrow> string \<Rightarrow> inode \<Rightarrow> qnode \<Rightarrow> qfs \<Rightarrow>
      qfs \<times> (stash_cause + stashed)" where
  "finish_stash e tm token target want_dev want_ino parent base fd st fs =
    (let origin = (case fgetxattr e fd fs of Some v \<Rightarrow> v | None \<Rightarrow> None) in
     if \<not> q_mkdir_ok e then (fs, Inl StoreCreateFailed)
     else if \<not> q_store_ok e then (fs, Inl StoreOpenFailed)
     else let sid = quarantine_id token (q_now e) in
     if NUL \<in> set sid then (fs, Inl NulInName)
     else let fs = q_adv e 2 fs;
              moved =
                (case q_rename_err e of
                   Some EXDEV \<Rightarrow> copy_body e parent base fd sid want_dev want_ino origin fs
                 | Some err \<Rightarrow> (fs, Some (MoveFailed err))
                 | None \<Rightarrow>
                    (case q_names fs (parent, base) of
                       None \<Rightarrow> (fs, Some (MoveFailed ENOENT))
                     | Some i \<Rightarrow>
                        (upd_follow i (set_perm 0) (fs\<lparr>q_names :=
                          (q_names fs)((parent, base) := None, (q_store e, sid) \<mapsto> i)\<rparr>), None)))
       in case moved of (fs, err) \<Rightarrow>
          (case err of
             Some c \<Rightarrow> (fs, Inl c)
           | None \<Rightarrow>
              (case write_manifest e tm (manifest_of e token target want_dev want_ino origin st) fs of (fs, err) \<Rightarrow>
                 (case err of
                    Some c \<Rightarrow> (fs, Inl c)
                  | None \<Rightarrow> (fs, Inr \<lparr>st_id = sid, st_original_path = target\<rparr>)))))"

definition stash ::
    "q_env \<Rightarrow> toml \<Rightarrow> string \<Rightarrow> string \<Rightarrow> u64 \<Rightarrow> u64 \<Rightarrow> qfs \<Rightarrow> qfs \<times> (stash_error + stashed)" where
  "stash e tm token target want_dev want_ino fs =
    (case path_parent target of
       None \<Rightarrow> (fs, Inl (stash_plain NoParent))
     | Some parent \<Rightarrow>
      if parent = [] then (fs, Inl (stash_plain NoParent))
      else case path_file_name target of
        None \<Rightarrow> (fs, Inl (stash_plain NoFinalComponent))
      | Some base \<Rightarrow>
       if NUL \<in> set base then (fs, Inl (stash_plain NulInName))
       else case open_dir_no_symlinks e parent of
         Inl err \<Rightarrow> (fs, Inl (classify_path_error err))
       | Inr d \<Rightarrow>
        let fs = q_adv e 0 fs in
        case openat_nofollow e d base fs of
          Inl err \<Rightarrow> (fs, Inl (classify_path_error err))
        | Inr fd \<Rightarrow>
         let fs = q_adv e 1 fs in
         (case fstat e fd fs of
           None \<Rightarrow> (fs, Inl (stash_plain StatFailed))
         | Some st \<Rightarrow>
          if \<not> is_regular st then (fs, Inl (stash_tamper NotRegular))
          else if stat_ids st \<noteq> (want_dev, want_ino) then (fs, Inl (stash_tamper IdentityChanged))
          else case finish_stash e tm token target want_dev want_ino d base fd st fs of (fs, res) \<Rightarrow>
            (fs, case res of Inl c \<Rightarrow> Inl (stash_plain c) | Inr s \<Rightarrow> Inr s)))"

section \<open>Listing and restoring\<close>

text \<open>\<open>Path::extension\<close> of a directory entry.\<close>

definition ext_is_toml :: "string \<Rightarrow> bool" where
  "ext_is_toml name =
    (case str_rsplit_once (CHR ''.'') name of
       Some (stem, ext) \<Rightarrow> stem \<noteq> [] \<and> ext = ''toml''
     | None \<Rightarrow> False)"

datatype read_dir_result = StoreMissing | StoreUnreadable | StoreEntries "(string \<times> string option) list"

text \<open>An entry is its name and the text of the file, \<open>None\<close> when it cannot be read.\<close>

fun list_loop :: "toml \<Rightarrow> (string \<times> string option) list \<Rightarrow> manifest list" where
  "list_loop tm [] = []"
| "list_loop tm ((name, text) # es) =
    (if \<not> ext_is_toml name then list_loop tm es
     else case text of
       None \<Rightarrow> list_loop tm es
     | Some s \<Rightarrow> (case of_toml tm s of Some m \<Rightarrow> m # list_loop tm es | None \<Rightarrow> list_loop tm es))"

definition quarantine_list :: "toml \<Rightarrow> read_dir_result \<Rightarrow> manifest list option" where
  "quarantine_list tm rd =
    (case rd of
       StoreMissing \<Rightarrow> Some []
     | StoreUnreadable \<Rightarrow> None
     | StoreEntries es \<Rightarrow> Some (sort_key (\<lambda>m. unat (m_quarantined_at m)) (list_loop tm es)))"

datatype restore_error = NoSuchEntry | BadManifest | BodyMissing | RestoreMoveFailed errno
  | RestoreCopyFailed | RestoreChownFailed

record r_env =
  r_store :: dir_id
  r_at :: "string \<Rightarrow> dir_id \<times> string"
  r_rename_err :: "errno option"
  r_copy_ok :: bool
  r_remove_ok :: bool
  r_fresh :: inode
  r_fresh_node :: qnode
  r_chmod_ok :: bool
  r_chown_ok :: bool
  r_chown_mode :: "u32 \<Rightarrow> u32"
  r_utimens_ok :: bool
  r_setxattr_ok :: bool
  r_unlink_manifest_ok :: bool

text \<open>\<open>chown\<close> and \<open>utimensat\<close> go through a symbolic link, \<open>lsetxattr\<close> does not. \<open>None\<close> is an error.\<close>

definition chown :: "r_env \<Rightarrow> inode \<Rightarrow> u32 \<Rightarrow> u32 \<Rightarrow> qfs \<Rightarrow> qfs option" where
  "chown e i uid gid fs =
    (if \<not> r_chown_ok e then None
     else Some (upd_follow i (\<lambda>nd. nd\<lparr>n_uid := uid, n_gid := gid, n_mode := r_chown_mode e (n_mode nd)\<rparr>) fs))"

definition set_mtime :: "r_env \<Rightarrow> inode \<Rightarrow> i64 \<Rightarrow> i64 \<Rightarrow> qfs \<Rightarrow> qfs" where
  "set_mtime e i secs nsec fs =
    (if r_utimens_ok e then upd_follow i (\<lambda>nd. nd\<lparr>n_mtime := secs, n_mtime_nsec := nsec\<rparr>) fs else fs)"

definition set_xattr_no_follow :: "r_env \<Rightarrow> inode \<Rightarrow> bytes \<Rightarrow> qfs \<Rightarrow> qfs" where
  "set_xattr_no_follow e i v fs = (if r_setxattr_ok e then upd_node i (\<lambda>nd. nd\<lparr>n_origin := Some v\<rparr>) fs else fs)"

lemmas reapply_calls = chown_def set_mtime_def set_xattr_no_follow_def

text \<open>
  What is re-applied to the restored file, in the order of the calls; all but the xattr go through
  a symbolic link. A failing \<open>chown\<close> ends the restore.
\<close>

definition reapply :: "r_env \<Rightarrow> manifest \<Rightarrow> inode \<Rightarrow> qfs \<Rightarrow> qfs \<times> bool" where
  "reapply e m i fs =
    (let fs = (if r_chmod_ok e then upd_follow i (set_perm (perm_bits (m_mode m))) fs else fs) in
     case chown e i (m_uid m) (m_gid m) fs of
       None \<Rightarrow> (fs, False)
     | Some fs \<Rightarrow>
        let fs = set_mtime e i (m_mtime m) (m_mtime_nsec m) fs;
            fs = (case m_origin_hex m of
                    None \<Rightarrow> fs
                  | Some hx \<Rightarrow> (case hex_decode hx of None \<Rightarrow> fs | Some b \<Rightarrow> set_xattr_no_follow e i b fs))
        in (fs, True))"

text \<open>\<open>fs::copy\<close> writes into an existing destination, else creates it, and copies the permissions.\<close>

definition copy_back :: "r_env \<Rightarrow> string \<Rightarrow> inode \<Rightarrow> qfs \<Rightarrow> inode \<times> qfs" where
  "copy_back e dest body fs =
    (let bits = n_mode (q_nodes fs body); bytes = n_data (q_nodes fs body) in
     case q_names fs (r_at e dest) of
       Some j \<Rightarrow> (j, upd_follow j (\<lambda>nd. set_perm bits (nd\<lparr>n_data := bytes\<rparr>)) fs)
     | None \<Rightarrow>
        (r_fresh e, fs\<lparr>q_names := (q_names fs)(r_at e dest \<mapsto> r_fresh e),
           q_nodes := (q_nodes fs)(r_fresh e := set_perm bits ((r_fresh_node e)\<lparr>n_data := bytes\<rparr>))\<rparr>))"

definition restore_dest :: "r_env \<Rightarrow> string \<Rightarrow> manifest \<Rightarrow> qfs \<Rightarrow> string" where
  "restore_dest e eid m fs =
    (if q_names fs (r_at e (m_original_path m)) \<noteq> None
     then m_original_path m @ ''.restored.'' @ eid else m_original_path m)"

definition restore :: "r_env \<Rightarrow> toml \<Rightarrow> string \<Rightarrow> qfs \<Rightarrow> qfs \<times> (restore_error + string)" where
  "restore e tm eid fs =
    (case q_manifests fs eid of
       None \<Rightarrow> (fs, Inl NoSuchEntry)
     | Some s \<Rightarrow>
      (case of_toml tm s of
         None \<Rightarrow> (fs, Inl BadManifest)
       | Some m \<Rightarrow>
        (case q_names fs (r_store e, eid) of
           None \<Rightarrow> (fs, Inl BodyMissing)
         | Some body \<Rightarrow>
            if follow fs body = None then (fs, Inl BodyMissing)
            else let dest = restore_dest e eid m fs;
                moved =
                  (case r_rename_err e of
                     None \<Rightarrow> Inr (body, fs\<lparr>q_names :=
                       (q_names fs)((r_store e, eid) := None, r_at e dest \<mapsto> body)\<rparr>)
                   | Some EXDEV \<Rightarrow>
                       if \<not> r_copy_ok e then Inl RestoreCopyFailed
                       else (case copy_back e dest body fs of (i, fs) \<Rightarrow>
                         Inr (i, if r_remove_ok e
                                 then fs\<lparr>q_names := (q_names fs)((r_store e, eid) := None)\<rparr> else fs))
                   | Some err \<Rightarrow> Inl (RestoreMoveFailed err))
            in case moved of
                 Inl err \<Rightarrow> (fs, Inl err)
               | Inr (i, fs) \<Rightarrow>
                  (case reapply e m i fs of (fs, ok) \<Rightarrow>
                     if \<not> ok then (fs, Inl RestoreChownFailed)
                     else (if r_unlink_manifest_ok e
                           then fs\<lparr>q_manifests := (q_manifests fs)(eid := None)\<rparr> else fs, Inr dest)))))"

end
