(* ===== verification/Daemon.thy ===== *)
theory Daemon
  imports Handler Quarantine
begin

text \<open>
  \<open>linprov/src/run.rs\<close>: the daemon. Start-up seeds the BPF maps from the configuration, the key and
  the allowlist; the main loop reacts to SIGHUP, to requests on the control socket and to the ring
  buffer. The state is one record: the BPF maps (\<open>kernel\<close>), the rule control with the pending blocks,
  the handler's state, the files and the quarantine store.

  Loading and attaching the eBPF object, the logger, the resource limit and the asynchronous runtime
  are outside the model. A request that fails answers with a value of \<open>request_error\<close> in place of the
  text of an \<open>anyhow\<close> chain. The log holds the lines of the event handler and of the requests.
\<close>

section \<open>State\<close>

record daemon =
  dm_kernel :: kernel
  dm_key :: hash_key_words
  dm_control :: control
  dm_hs :: handler_state
  dm_files :: file_system
  dm_qfs :: qfs

text \<open>
  What the system answers while a request or an event is handled, and how the error chain of a failed
  stash is printed.
\<close>

record daemon_env =
  de_b64 :: b64_engine
  de_toml :: toml
  de_henv :: handler_env
  de_qenv :: q_env
  de_append_ok :: bool
  de_append_err :: "nat option"
  de_seed_err :: "nat option"
  de_cause_text :: "stash_cause \<Rightarrow> string"

section \<open>Seeding\<close>

text \<open>\<open>Array::set\<close> at the successive indices; \<open>err\<close> is the index at which the kernel refuses.\<close>

fun seed_loop :: "nat \<Rightarrow> allow_rule list \<Rightarrow> nat option \<Rightarrow> allow_rule list \<Rightarrow> allow_rule list \<times> bool" where
  "seed_loop i [] err arr = (arr, True)"
| "seed_loop i (r # rs) err arr =
    (if err = Some i \<or> length arr \<le> i then (arr, False)
     else seed_loop (Suc i) rs err (arr[i := r]))"

definition seed_rules ::
    "nat option \<Rightarrow> rule_spec list \<Rightarrow> u64 \<Rightarrow> u64 \<Rightarrow> kernel \<Rightarrow> kernel \<times> bool" where
  "seed_rules err specs a b k =
    (let n = min (length specs) MAX_RULES in
     case seed_loop 0 (map (pack a b) (take n specs)) err (ALLOW_RULES k) of (arr, ok) \<Rightarrow>
       let k = k\<lparr>ALLOW_RULES := arr\<rparr> in
       if \<not> ok then (k, False)
       else if err = Some n \<or> ALLOW_RULE_COUNT k = [] then (k, False)
       else (k\<lparr>ALLOW_RULE_COUNT := (ALLOW_RULE_COUNT k)[0 := of_nat n]\<rparr>, True))"

fun seed_interpreters :: "(u64 \<Rightarrow> bool) \<Rightarrow> string list \<Rightarrow> kernel \<Rightarrow> kernel \<times> bool" where
  "seed_interpreters insert_ok [] k = (k, True)"
| "seed_interpreters insert_ok (name # names) k =
    (let name = str_trim name in
     if name = [] then seed_interpreters insert_ok names k
     else let truncated = take (min (length name) (COMM_LEN - 1)) name;
              h = fnv_hash_bytes truncated
       in if \<not> insert_ok h then (k, False)
          else seed_interpreters insert_ok names
            (k\<lparr>INTERPRETERS := (INTERPRETERS k)(h \<mapsto> CHR 0x01)\<rparr>))"

definition INTERP_DIRS :: "string list" where
  "INTERP_DIRS = [''/usr/bin'', ''/bin'', ''/usr/local/bin'', ''/usr/sbin'', ''/sbin'']"

text \<open>\<open>Path::join\<close>: an absolute argument replaces the path.\<close>

definition path_join :: "string \<Rightarrow> string \<Rightarrow> string" where
  "path_join d p = (if path_absolute p then p else if str_ends_with_char SLASH d then d @ p else d @ ''/'' @ p)"

definition probe_interpreter :: "(string \<Rightarrow> path_fd) \<Rightarrow> (inode \<Rightarrow> bool) \<Rightarrow> string \<Rightarrow> kernel \<Rightarrow> kernel" where
  "probe_interpreter open_path insert_ok path k =
    (case open_path path of
       FdRegular ino \<Rightarrow>
         if insert_ok ino then k\<lparr>INTERP_INODE := (INTERP_INODE k)(ino \<mapsto> CHR 0x01)\<rparr> else k
     | _ \<Rightarrow> k)"

definition seed_interpreter_inodes ::
    "(string \<Rightarrow> path_fd) \<Rightarrow> (inode \<Rightarrow> bool) \<Rightarrow> string list \<Rightarrow> kernel \<Rightarrow> kernel" where
  "seed_interpreter_inodes open_path insert_ok names k =
    foldl (\<lambda>k name.
      let name = str_trim name in
      if name = [] then k
      else foldl (\<lambda>k d. probe_interpreter open_path insert_ok (path_join d name) k) k INTERP_DIRS)
    k names"

section \<open>Start\<close>

datatype start_error = AllowlistRequired | StartKeyFailed key_error | StartLoadFailed load_error
  | StartSeedFailed | StartInterpretersFailed | StartSoakFailed | StartHashdbFailed hashdb_error

record start_env =
  sn_urandom :: "bytes option"
  sn_key_dir_ok :: bool
  sn_key_create_ok :: bool
  sn_key_write_err :: "nat option"
  sn_seed_err :: "nat option"
  sn_interp_ok :: "u64 \<Rightarrow> bool"
  sn_open :: "string \<Rightarrow> path_fd"
  sn_insert_ok :: "inode \<Rightarrow> bool"
  sn_pid :: u32
  sn_db_dir_ok :: bool
  sn_db_append_ok :: bool

text \<open>The three cells of \<open>CONFIG\<close> and the two of \<open>KEY\<close>.\<close>

definition seed_config :: "effective_config \<Rightarrow> hash_key_words \<Rightarrow> u32 \<Rightarrow> kernel \<Rightarrow> kernel" where
  "seed_config cfg key self k =
    k\<lparr>CONFIG := [as_u32 (ec_mode cfg), if ec_mark_localhost cfg then 1 else 0, self],
      KEY := [hk0 key, hk1 key]\<rparr>"

text \<open>From the loaded rules on: the maps, the soak writer, the audit database and the control state.\<close>

definition daemon_setup ::
    "b64_engine \<Rightarrow> start_env \<Rightarrow> effective_config \<Rightarrow> hash_key_words \<Rightarrow> rules \<Rightarrow> kernel \<Rightarrow> file_system \<Rightarrow> qfs \<Rightarrow>
      start_error + daemon" where
  "daemon_setup E sn cfg key R k fs qf =
    (case seed_rules (sn_seed_err sn) (rule_list R) (hk0 key) (hk1 key) k of (k, ok) \<Rightarrow>
     if \<not> ok then Inl StartSeedFailed
     else case seed_interpreters (sn_interp_ok sn) (ec_interpreters cfg) k of (k, ok) \<Rightarrow>
     if \<not> ok then Inl StartInterpretersFailed
     else let k = seed_interpreter_inodes (sn_open sn) (sn_insert_ok sn) (ec_interpreters cfg) k;
              k = seed_config cfg key (sn_pid sn) k;
              soak = (case ec_allowlist cfg of
                        Some p \<Rightarrow> if ec_mode cfg = Soak
                          then map_option Some (soak_open (fs p) (ec_soak cfg) R) else Some None
                      | None \<Rightarrow> Some None)
       in case soak of
            None \<Rightarrow> Inl StartSoakFailed
          | Some soak \<Rightarrow>
             (case hashdb_open E (sn_db_dir_ok sn) (fs (ec_hash_db cfg)) (sn_db_append_ok sn)
                     (hk0 key) (hk1 key) of
                Inl e \<Rightarrow> Inl (StartHashdbFailed e)
              | Inr D \<Rightarrow>
                 (let C = control_new (ec_allowlist cfg) (hk0 key) (hk1 key) in
                  Inr \<lparr>dm_kernel = k, dm_key = key, dm_control = C,
                    dm_hs = \<lparr>hs_db = D, hs_soak = soak, hs_marks = INODE_MARKS k,
                      hs_xattrs = (\<lambda>i. None), hs_blocks = blocks C, hs_sent = [], hs_log = []\<rparr>,
                    dm_files = fs, dm_qfs = qf\<rparr>)))"

text \<open>A key generated by a start that fails later stays on disk.\<close>

definition daemon_start ::
    "b64_engine \<Rightarrow> start_env \<Rightarrow> effective_config \<Rightarrow> kernel \<Rightarrow> file_system \<Rightarrow> qfs \<Rightarrow>
      file_system \<times> (start_error + daemon)" where
  "daemon_start E sn cfg k fs qf =
    (if (ec_mode cfg = Soak \<or> ec_mode cfg = Enforce) \<and> ec_allowlist cfg = None
     then (fs, Inl AllowlistRequired)
     else case key_load_or_create (sn_urandom sn) (sn_key_dir_ok sn) (sn_key_create_ok sn)
            (sn_key_write_err sn) (fs DEFAULT_KEY_PATH) of (keyfile, res) \<Rightarrow>
       let fs = fs(DEFAULT_KEY_PATH := keyfile) in
       (fs, case res of
              Inl e \<Rightarrow> Inl (StartKeyFailed e)
            | Inr key \<Rightarrow>
               (case (case ec_allowlist cfg of
                        Some p \<Rightarrow> rules_load E (fs p)
                      | None \<Rightarrow> Inr rules_default) of
                  Inl e \<Rightarrow> Inl (StartLoadFailed e)
                | Inr R \<Rightarrow> daemon_setup E sn cfg key R k fs qf)))"

section \<open>Requests\<close>

datatype request_error = MissingToken | UnknownDimension string | ApplyFailed control_error
  | ReloadFailed load_error | SeedFailed | DismissUnknown string | QuarantineUnknown string
  | PossibleTamper stash_cause | QuarantineFailed stash_cause | BadRequest string

fun dims_loop :: "string list \<Rightarrow> request_error + dim list" where
  "dims_loop [] = Inr []"
| "dims_loop (name # names) =
    (case from_key name of
       None \<Rightarrow> Inl (UnknownDimension name)
     | Some d \<Rightarrow> (case dims_loop names of Inl e \<Rightarrow> Inl e | Inr ds \<Rightarrow> Inr (d # ds)))"

definition parse_dims :: "string option \<Rightarrow> request_error + dim list option" where
  "parse_dims arg =
    (case (case arg of None \<Rightarrow> None | Some a \<Rightarrow> str_strip_prefix ''dims='' a) of
       None \<Rightarrow> Inr None
     | Some rest \<Rightarrow>
        (case dims_loop (filter (\<lambda>s. s \<noteq> []) (str_split (CHR '','') rest)) of
           Inl e \<Rightarrow> Inl e | Inr ds \<Rightarrow> Inr (Some ds)))"

definition reseed_from_control :: "daemon_env \<Rightarrow> daemon \<Rightarrow> daemon \<times> request_error option" where
  "reseed_from_control de dm =
    (case combined (de_b64 de) (dm_files dm) (dm_control dm) of
       Inl e \<Rightarrow> (dm, Some (ReloadFailed e))
     | Inr specs \<Rightarrow>
        (case seed_rules (de_seed_err de) specs (hk0 (dm_key dm)) (hk1 (dm_key dm))
                (dm_kernel dm) of (k, ok) \<Rightarrow>
           (dm\<lparr>dm_kernel := k\<rparr>, if ok then None else Some SeedFailed)))"

text \<open>Dropping a decided token from the table and telling every subscriber.\<close>

definition resolve_token :: "string \<Rightarrow> daemon \<Rightarrow> daemon" where
  "resolve_token token dm =
    dm\<lparr>dm_control := (dm_control dm)\<lparr>blocks := fst (blocks_remove token (blocks (dm_control dm)))\<rparr>,
       dm_hs := (dm_hs dm)\<lparr>hs_sent := hs_sent (dm_hs dm) @ [Resolved token]\<rparr>\<rparr>"

definition say :: "log_entry \<Rightarrow> daemon \<Rightarrow> daemon" where
  "say l dm = dm\<lparr>dm_hs := (dm_hs dm)\<lparr>hs_log := hs_log (dm_hs dm) @ [l]\<rparr>\<rparr>"

definition request_allow ::
    "daemon_env \<Rightarrow> bool \<Rightarrow> string option \<Rightarrow> string option \<Rightarrow> daemon \<Rightarrow> daemon \<times> (request_error + string)" where
  "request_allow de once token arg dm =
    (case token of
       None \<Rightarrow> (dm, Inl MissingToken)
     | Some token \<Rightarrow>
      (case parse_dims arg of
         Inl e \<Rightarrow> (dm, Inl e)
       | Inr dims \<Rightarrow>
        (case apply_with_dims (de_b64 de) (de_append_ok de) (de_append_err de) token once dims
                (dm_files dm) (dm_control dm) of (fs, C, res) \<Rightarrow>
          let dm = dm\<lparr>dm_files := fs, dm_control := C\<rparr> in
          case res of
            Inl e \<Rightarrow> (dm, Inl (ApplyFailed e))
          | Inr line \<Rightarrow>
             (case reseed_from_control de dm of (dm, err) \<Rightarrow>
                (case err of
                   Some e \<Rightarrow> (dm, Inl e)
                 | None \<Rightarrow>
                    (say (Info (''allow'' @ (if once then '' --once'' else []) @ '' applied (token '' @
                        token @ ''): '' @ line)) (resolve_token token dm), Inr line))))))"

definition request_dismiss :: "string option \<Rightarrow> daemon \<Rightarrow> daemon \<times> (request_error + string)" where
  "request_dismiss token dm =
    (case token of
       None \<Rightarrow> (dm, Inl MissingToken)
     | Some token \<Rightarrow>
        if snd (blocks_remove token (blocks (dm_control dm)))
        then (say (Info (''dismissed block token '' @ token)) (resolve_token token dm),
          Inr (''dismissed '' @ token))
        else (dm, Inl (DismissUnknown token)))"

definition EM_DASH :: string where "EM_DASH = [CHR 0xE2, CHR 0x80, CHR 0x94]"

definition request_quarantine ::
    "daemon_env \<Rightarrow> string option \<Rightarrow> daemon \<Rightarrow> daemon \<times> (request_error + string)" where
  "request_quarantine de token dm =
    (case token of
       None \<Rightarrow> (dm, Inl MissingToken)
     | Some token \<Rightarrow>
      (case record_for (blocks (dm_control dm)) token of
         None \<Rightarrow> (dm, Inl (QuarantineUnknown token))
       | Some rec \<Rightarrow>
        (case stash (de_qenv de) (de_toml de) token (b_target rec) (b_dev rec) (b_ino rec) (dm_qfs dm) of (qf, res) \<Rightarrow>
          let dm = dm\<lparr>dm_qfs := qf\<rparr> in
          case res of
            Inr s \<Rightarrow>
              (say (Info (''quarantined (token '' @ token @ ''): '' @ st_original_path s @ '' -> '' @ st_id s))
                 (resolve_token token dm),
               Inr (''quarantined '' @ st_original_path s @ '' (restore id '' @ st_id s @ '')''))
          | Inl e \<Rightarrow>
              if se_tamper e then
                (say (Error (''SECURITY: quarantine FAILED for `'' @ b_target rec @ ''` (token '' @ token @ '') '' @
                    EM_DASH @ '' possible race/tamper to evade quarantine: '' @ de_cause_text de (se_source e))) dm,
                 Inl (PossibleTamper (se_source e)))
              else
                (say (Warn (''quarantine failed for `'' @ b_target rec @ ''` (token '' @ token @ ''): '' @
                    de_cause_text de (se_source e))) dm,
                 Inl (QuarantineFailed (se_source e))))))"

definition nth_part :: "nat \<Rightarrow> string list \<Rightarrow> string option" where
  "nth_part n ps = (if n < length ps then Some (ps ! n) else None)"

definition process_control_request ::
    "daemon_env \<Rightarrow> string \<Rightarrow> daemon \<Rightarrow> daemon \<times> (request_error + string)" where
  "process_control_request de req dm =
    (let parts = str_split_whitespace req; verb = nth_part 0 parts; token = nth_part 1 parts in
     if verb = Some ''allow'' then request_allow de False token (nth_part 2 parts) dm
     else if verb = Some ''once'' then request_allow de True token (nth_part 2 parts) dm
     else if verb = Some ''dismiss'' then request_dismiss token dm
     else if verb = Some ''quarantine'' then request_quarantine de token dm
     else (dm, Inl (BadRequest req)))"

section \<open>Connections\<close>

datatype conn_read = ConnBytes bytes | ConnError | ConnTimeout

datatype conn_reply = NoReply | Text string | Subscribed | Answer "request_error + string"

definition list_entry :: "block_record \<Rightarrow> string" where
  "list_entry r =
    ''ENTRY'' @ [TAB] @ b_token r @ [TAB] @ b_kind r @ [TAB] @ escape (b_target r) @ [TAB] @
    escape (b_creator r) @ [TAB] @ b_rule_line r @ [CHR 0x0A]"

definition list_reply :: "blocks_table \<Rightarrow> string" where
  "list_reply T = concat (map list_entry (blocks_list T)) @ ''END'' @ [CHR 0x0A]"

definition handle_control_conn :: "daemon_env \<Rightarrow> conn_read \<Rightarrow> daemon \<Rightarrow> daemon \<times> conn_reply" where
  "handle_control_conn de rd dm =
    (case rd of
       ConnError \<Rightarrow> (dm, NoReply)
     | ConnTimeout \<Rightarrow> (dm, Text (''ERR read timed out'' @ [CHR 0x0A]))
     | ConnBytes bs \<Rightarrow>
        (let req = str_trim (from_utf8_lossy (take 4096 bs)) in
         if req = ''subscribe'' then (dm, Subscribed)
         else if req = ''list'' then (dm, Text (list_reply (blocks (dm_control dm))))
         else case process_control_request de req dm of (dm, res) \<Rightarrow> (dm, Answer res)))"

text \<open>The stream of a subscriber: what it receives, and whether each write succeeds.\<close>

datatype recv = Got control_event | Lagged | Closed

fun stream_loop :: "(recv \<times> bool) list \<Rightarrow> string" where
  "stream_loop [] = []"
| "stream_loop ((Got ev, ok) # rs) = (if ok then event_to_wire ev @ [CHR 0x0A] @ stream_loop rs else [])"
| "stream_loop ((Lagged, ok) # rs) = stream_loop rs"
| "stream_loop ((Closed, ok) # rs) = []"

definition stream_blocks :: "(recv \<times> bool) list \<Rightarrow> string" where
  "stream_blocks rs = ''OK subscribed'' @ [CHR 0x0A] @ stream_loop rs"

text \<open>The modes of the socket and its directory; \<open>gid\<close> is the group \<open>linprov\<close> if it exists.\<close>

definition bind_control_socket ::
    "notify_mode \<Rightarrow> u32 option \<Rightarrow> bool \<Rightarrow> bool \<Rightarrow> bool \<Rightarrow> bool \<Rightarrow> bool \<Rightarrow>
      (u32 \<times> u32 \<times> u32 option) option" where
  "bind_control_socket notify grp mkdir_ok chown_dir_ok bind_ok chown_ok chmod_ok =
    (let gid = (if notify = Tray then grp else None) in
     if \<not> mkdir_ok then None
     else if gid \<noteq> None \<and> \<not> chown_dir_ok then None
     else if \<not> bind_ok then None
     else if gid \<noteq> None \<and> \<not> chown_ok then None
     else if \<not> chmod_ok then None
     else Some (if gid \<noteq> None then 0x1E8 else 0x1C0, if gid \<noteq> None then 0x1B0 else 0x180, gid))"

section \<open>The loop\<close>

definition DRAIN_BUDGET :: nat where "DRAIN_BUDGET = 256"

text \<open>One entry of the ring: its bytes, and the cast error of a misaligned buffer.\<close>

type_synonym ring_item = "bytes \<times> string option"

text \<open>
  The handler borrows the pending table and the inode storage; the soak writer is an append handle
  on the allowlist file, so it starts from the content of the file and its appends are in the file.
\<close>

definition handler_view :: "daemon \<Rightarrow> handler_state" where
  "handler_view dm =
    (dm_hs dm)\<lparr>hs_blocks := blocks (dm_control dm), hs_marks := INODE_MARKS (dm_kernel dm),
      hs_soak := (case (hs_soak (dm_hs dm), allowlist_path (dm_control dm)) of
                    (Some S, Some p) \<Rightarrow> Some (S\<lparr>soak_writer := file_content (dm_files dm p)\<rparr>)
                  | (s, _) \<Rightarrow> s)\<rparr>"

definition after_handler :: "handler_state \<Rightarrow> daemon \<Rightarrow> daemon" where
  "after_handler hs dm =
    dm\<lparr>dm_hs := hs, dm_control := (dm_control dm)\<lparr>blocks := hs_blocks hs\<rparr>,
       dm_kernel := (dm_kernel dm)\<lparr>INODE_MARKS := hs_marks hs\<rparr>,
       dm_files := (case (hs_soak hs, allowlist_path (dm_control dm)) of
                      (Some S, Some p) \<Rightarrow> (dm_files dm)(p := FileBytes (soak_writer S))
                    | _ \<Rightarrow> dm_files dm)\<rparr>"

definition handle_item :: "daemon_env \<Rightarrow> mode \<Rightarrow> ring_item \<Rightarrow> daemon \<Rightarrow> daemon" where
  "handle_item de md item dm =
    after_handler (handle_event (de_b64 de) (de_henv de) md (snd item) (fst item) (handler_view dm)) dm"

text \<open>The inner loop: entries until the ring is empty or the budget is used up; and whether it is empty.\<close>

fun drain :: "daemon_env \<Rightarrow> mode \<Rightarrow> nat \<Rightarrow> ring_item list \<Rightarrow> daemon \<Rightarrow> daemon \<times> ring_item list \<times> bool" where
  "drain de md n [] dm = (dm, [], True)"
| "drain de md n (item # ring) dm =
    (let dm = handle_item de md item dm in
     if DRAIN_BUDGET \<le> Suc n then (dm, ring, False) else drain de md (Suc n) ring dm)"

definition on_sighup :: "daemon_env \<Rightarrow> daemon \<Rightarrow> daemon" where
  "on_sighup de dm = fst (reseed_from_control de dm)"

datatype loop_event = CtrlC | Sighup | Connection conn_read | RingReadable

text \<open>One turn of \<open>select!\<close>; \<open>None\<close> ends the loop.\<close>

definition loop_step ::
    "daemon_env \<Rightarrow> mode \<Rightarrow> loop_event \<Rightarrow> ring_item list \<Rightarrow> daemon \<Rightarrow> (daemon \<times> ring_item list) option" where
  "loop_step de md ev ring dm =
    (case ev of
       CtrlC \<Rightarrow> None
     | Sighup \<Rightarrow> Some (on_sighup de dm, ring)
     | Connection rd \<Rightarrow> Some (fst (handle_control_conn de rd dm), ring)
     | RingReadable \<Rightarrow> (case drain de md 0 ring dm of (dm, ring, drained) \<Rightarrow> Some (dm, ring)))"

end
