(* ===== verification/Handler_Props.thy ===== *)
theory Handler_Props
  imports Handler Kernel_Props
begin

text \<open>
  The daemon's half of marking and of blocking: the record it stores is the record of the kernel
  with the creator filled in, what it logs and broadcasts cannot be forged by a file name, and a
  denied execution becomes a pending block whose rule matches that execution.
\<close>

section \<open>The stored record\<close>

lemma nat_and_31: "(n :: nat) AND 31 = n mod 32"
  using take_bit_eq_mask [of 5 n] take_bit_eq_mod [of 5 n] by (simp add: mask_eq_exp_minus_1)

abbreviation db_all :: "b64_engine \<Rightarrow> handler_env \<Rightarrow> string list \<Rightarrow> hash_db \<Rightarrow> hash_db" where
  "db_all E h \<equiv> audit.rec_all E (h_db_err h)"

lemma db_record_eq:
  "db_record E h s (db_all E h ss D) = (db_all E h (ss @ [s]) D, db_hash D s)"
  by (simp add: db_record_def audit.rec_all_snoc prod_eq_iff) (simp only: audit.rec_all_key)

definition landed_by :: "hash_db \<Rightarrow> origin_record \<Rightarrow> string \<Rightarrow> origin_record" where
  "landed_by D r p =
    r\<lparr>landing_ancestor_hashes := ancestor_hashes (db_k0 D) (db_k1 D) p,
      landing_folder_hash := (if SLASH \<in> set p then db_hash D (dir_part p) else landing_folder_hash r)\<rparr>"

lemma landing_loop_from:
  assumes "i \<le> length path"
  shows "landing_loop E h path i (length (slash_prefixes (take i path)))
      (db_all E h (slash_prefixes (take i path)) D, landed_by D r (take i path)) =
    (db_all E h (slash_prefixes path) D, landed_by D r path)"
  using assms
proof (induction "length path - i" arbitrary: i)
  case 0
  then show ?case by (simp add: landing_loop.simps)
next
  case (Suc n)
  then have i: "i < length path" by simp
  then have t: "take (Suc i) path = take i path @ [path ! i]" by (simp add: take_Suc_conv_app_nth)
  have IH: "landing_loop E h path (Suc i) (length (slash_prefixes (take (Suc i) path)))
      (db_all E h (slash_prefixes (take (Suc i) path)) D, landed_by D r (take (Suc i) path)) =
    (db_all E h (slash_prefixes path) D, landed_by D r path)"
    using Suc.hyps i by (intro Suc.hyps(1)) auto
  show ?case
  proof (cases "path ! i = SLASH")
    case True
    have "landed_by D r (take (Suc i) path) = (landed_by D r (take i path))
        \<lparr>landing_ancestor_hashes := (landing_ancestor_hashes (landed_by D r (take i path)))
           [length (slash_prefixes (take i path)) AND (MAX_FOLDER_ANCESTORS - 1) :=
             db_hash D (take (Suc i) path)],
         landing_folder_hash := db_hash D (take (Suc i) path)\<rparr>"
      using True t by (simp add: landed_by_def ancestor_hashes_def slash_prefixes_snoc ancestor_array_snoc
        dir_part_snoc size_consts nat_and_31 db_hash_def)
    moreover have "slash_prefixes (take (Suc i) path) = slash_prefixes (take i path) @ [take (Suc i) path]"
      using True t by (simp add: slash_prefixes_snoc)
    ultimately show ?thesis
      using IH True i by (subst landing_loop.simps) (simp add: db_record_eq)
  next
    case False
    then have "slash_prefixes (take (Suc i) path) = slash_prefixes (take i path)"
      "landed_by D r (take (Suc i) path) = landed_by D r (take i path)"
      using t by (simp_all add: slash_prefixes_snoc landed_by_def ancestor_hashes_def dir_part_snoc)
    with IH False i show ?thesis by (subst landing_loop.simps) simp
  qed
qed


lemma landing_loop_all:
  assumes "landing_ancestor_hashes r = replicate MAX_FOLDER_ANCESTORS 0"
  shows "landing_loop E h path 0 0 (D, r) = (db_all E h (slash_prefixes path) D, landed_by D r path)"
proof -
  have "landed_by D r [] = r"
    using assms by (simp add: landed_by_def ancestor_hashes_def ancestor_array_def size_consts)
  with landing_loop_from [of 0 path E h D r] show ?thesis by (simp add: audit.rec_all.simps)
qed

lemma basename_of_base: "basename_of p = (if base_part p = [] then None else Some (base_part p))"
proof (cases "str_split_once SLASH (rev p)")
  case None
  then have "SLASH \<notin> set (rev p)" by (simp add: str_split_once_none)
  then have "takeWhile (\<lambda>c. c \<noteq> SLASH) (rev p) = rev p"
    unfolding takeWhile_eq_all_conv by blast
  then have "base_part p = p" by (simp only: base_part_def rev_rev_ident)
  with None show ?thesis by (simp add: basename_of_def str_rsplit_once_def)
next
  case (Some ab)
  obtain a b where ab: "ab = (a, b)" by fastforce
  with Some have r: "rev p = a @ SLASH # b" "SLASH \<notin> set a" using str_split_once_SomeD by blast+
  have "takeWhile (\<lambda>c. c \<noteq> SLASH) (rev p) = a"
    using r by (simp, subst takeWhile_append2) auto
  with Some ab show ?thesis by (simp add: basename_of_def str_rsplit_once_def base_part_def)
qed

text \<open>The creator hash of the stored record.\<close>

definition creator_hash :: "handler_env \<Rightarrow> event \<Rightarrow> bool \<Rightarrow> hash_db \<Rightarrow> u64" where
  "creator_hash h ev derived D =
    (case (if derived then None else read_creator_exe h (e_pid ev)) of
       Some p \<Rightarrow> db_hash D p | None \<Rightarrow> creator_path_hash (e_origin ev))"

definition event_strings :: "handler_env \<Rightarrow> event \<Rightarrow> bool \<Rightarrow> string list" where
  "event_strings h ev derived =
    slash_prefixes (c_str_to_string (e_filename ev)) @
    opt_strings (basename_of (c_str_to_string (e_filename ev))) @
    opt_strings (if derived then None else read_creator_exe h (e_pid ev))"

lemma db_all_Nil: "db_all E h [] D = D" by (simp add: audit.rec_all.simps)

lemma augment_eq:
  assumes "c_str_to_string (e_filename ev) = p"
  shows "augment E h ev derived D =
    (db_all E h (event_strings h ev derived) D,
     (landed_by D (e_origin ev) p)\<lparr>version := ORIGIN_VERSION,
       landing_basename_hash := (if base_part p = [] then landing_basename_hash (e_origin ev)
         else db_hash D (base_part p)),
       creator_path_hash := creator_hash h ev derived D\<rparr>)"
proof -
  let ?r = "(e_origin ev)\<lparr>version := ORIGIN_VERSION,
    landing_ancestor_hashes := replicate MAX_FOLDER_ANCESTORS 0\<rparr>"
  have l: "landing_loop E h p 0 0 (D, ?r) = (db_all E h (slash_prefixes p) D, landed_by D ?r p)"
    by (rule landing_loop_all) simp
  have "landed_by D ?r p = (landed_by D (e_origin ev) p)\<lparr>version := ORIGIN_VERSION\<rparr>"
    by (simp add: landed_by_def)
  with l show ?thesis
    unfolding augment_def event_strings_def assms Let_def
    by (cases "derived"; cases "read_creator_exe h (e_pid ev)")
      (simp_all add: basename_of_base opt_strings_def creator_hash_def db_record_eq landed_by_def)
qed

text \<open>On a path that is UTF-8, the daemon's landing fields are the kernel's.\<close>

lemma augment_landed:
  assumes "utf8_valid p" "c_str (e_filename ev) = p"
    and "e_origin ev = landed (db_k0 D, db_k1 D) p r" "version r = ORIGIN_VERSION"
  shows "snd (augment E h ev derived D) =
    (e_origin ev)\<lparr>creator_path_hash := creator_hash h ev derived D\<rparr>"
proof -
  have "c_str_to_string (e_filename ev) = p"
    using assms(1,2) by (simp add: c_str_to_string_def from_utf8_lossy_valid)
  from augment_eq [OF this, of E h derived D] show ?thesis
    using assms(3,4) by (simp add: landed_by_def landed_def parent_hash_def db_hash_def)
qed


lemma target_pseudo_iff: "target_is_pseudo_fs p \<longleftrightarrow> is_pseudo_fs p"
  by (simp add: target_is_pseudo_fs_def is_pseudo_fs_iff str_starts_with_def eval_nat_numeral)

lemma event_kinds_differ [simp]:
  "EVENT_KIND_DERIVED_FILE_OPEN \<noteq> EVENT_KIND_NETWORK_FILE_OPEN"
  "EVENT_KIND_EXECVE \<noteq> EVENT_KIND_NETWORK_FILE_OPEN" "EVENT_KIND_EXECVE \<noteq> EVENT_KIND_DERIVED_FILE_OPEN"
  "EVENT_KIND_SCRIPT_EXEC \<noteq> EVENT_KIND_NETWORK_FILE_OPEN"
  "EVENT_KIND_SCRIPT_EXEC \<noteq> EVENT_KIND_DERIVED_FILE_OPEN" "EVENT_KIND_SCRIPT_EXEC \<noteq> EVENT_KIND_EXECVE"
  by (simp_all add: EVENT_KIND_DERIVED_FILE_OPEN_def EVENT_KIND_NETWORK_FILE_OPEN_def
    EVENT_KIND_EXECVE_def EVENT_KIND_SCRIPT_EXEC_def)

lemma on_file_marked_stores:
  assumes "c_str (e_filename ev) = p" "utf8_valid p" "\<not> is_pseudo_fs p"
    and "h_open h p = FdRegular ino" "h_xattr_ok h" "h_backfill_ok h"
    and "augment E h ev derived (hs_db st) = (D, rec)"
  shows "hs_marks (on_file_marked E h ev derived st) ino = Some rec"
    "hs_xattrs (on_file_marked E h ev derived st) ino = Some (bytes_of_origin rec)"
proof -
  have "c_str_to_string (e_filename ev) = p"
    using assms(1,2) by (simp add: c_str_to_string_def from_utf8_lossy_valid)
  then show "hs_marks (on_file_marked E h ev derived st) ino = Some rec"
    "hs_xattrs (on_file_marked E h ev derived st) ino = Some (bytes_of_origin rec)"
    using assms(3-7) by (simp_all add: on_file_marked_def target_pseudo_iff open_mark_target_def
      backfill_def set_origin_xattr_def)
qed


section \<open>The log\<close>

definition plain_text :: "string \<Rightarrow> bool" where
  "plain_text s \<longleftrightarrow> (\<forall>c \<in> set s. \<not> control_byte c)"

lemma plain_text_simps [simp]:
  "plain_text []" "plain_text (c # s) \<longleftrightarrow> \<not> control_byte c \<and> plain_text s"
  "plain_text (s @ t) \<longleftrightarrow> plain_text s \<and> plain_text t"
  by (auto simp: plain_text_def)

lemma plain_escape [simp]: "plain_text (escape s)"
  using escape_printable by (simp add: plain_text_def)

lemma plain_radix: "r \<le> 16 \<Longrightarrow> 2 \<le> r \<Longrightarrow> plain_text (show_radix r n)"
proof -
  assume r: "r \<le> 16" "2 \<le> r"
  then have "set (show_radix r n) \<subseteq> digit_char ` {..<16}"
    using set_show_radix [of r n] image_mono [of "{..<r}" "{..<16}" digit_char] by simp
  then show ?thesis unfolding plain_text_def using digits_plain(1) by (meson subsetD)
qed

lemma plain_shown [simp]:
  "plain_text (show_u32 w)" "plain_text (show_u64 v)" "plain_text (show_i32 i)" "plain_text (show_hash v)"
proof -
  show "plain_text (show_u32 w)" "plain_text (show_u64 v)" "plain_text (show_i32 i)"
    by (simp_all add: show_u32_def show_u64_def show_i32_def plain_radix) (simp add: control_byte_def)
  show "plain_text (show_hash v)"
    using set_show_hex [of 16 "unat v"] digits_plain(1)
    unfolding plain_text_def show_hash_def by (meson subsetD)
qed

lemma plain_resolved [simp]: "plain_text (resolved s v)"
  by (cases s) (simp_all add: resolved_def, simp_all add: control_byte_def)

lemma plain_token [simp]: "plain_text (block_token T l)"
  using set_show_hex [of 8] digits_plain(1) unfolding plain_text_def block_token_def by (meson subsetD)

lemma plain_texts [simp]:
  "plain_text (format_origin r cc cp)" "plain_text (exec_text ev ctx)" "plain_text (script_text ev ctx)"
  "plain_text (verdict_text ev (block_token T l))"
  by (simp_all add: format_origin_def exec_text_def script_text_def verdict_text_def landing_text_def
      origin_text_def Let_def, simp_all add: control_byte_def)

fun log_text :: "log_entry \<Rightarrow> string" where
  "log_text (Error s) = s"
| "log_text (Warn s) = s"
| "log_text (Info s) = s"

lemma record_block_token_eq:
  assumes "record_block_token E h kind ev st = (st', token)"
  shows "hs_log st' = hs_log st"
    "token = block_token (hs_blocks st) (to_line E (rule_from_context (event_ctx h ev (hs_db st)) ALLOW_DIMS))"
proof -
  let ?ctx = "event_ctx h ev (hs_db st)"
  obtain dev ino where di: "unwrap_or (h_stat h (c_target_filename ?ctx)) (0, 0) = (dev, ino)" by fastforce
  define creator where "creator = (case c_creator_path ?ctx of
      Some s \<Rightarrow> if s \<noteq> [] then s else c_creator_comm ?ctx | None \<Rightarrow> c_creator_comm ?ctx)"
  obtain T t where r: "blocks_record kind (to_line E (rule_from_context ?ctx ALLOW_DIMS))
      (c_target_filename ?ctx) creator dev ino (hs_blocks st) = (T, t)" by fastforce
  have "record_block_token E h kind ev st = (st\<lparr>hs_blocks := T, hs_sent := hs_sent st @
      [Block \<lparr>be_kind = kind, be_token = t, be_target = c_target_filename ?ctx, be_creator = creator\<rparr>]\<rparr>, t)"
    by (simp add: record_block_token_def Let_def di r flip: creator_def)
  moreover have "t = block_token (hs_blocks st) (to_line E (rule_from_context ?ctx ALLOW_DIMS))"
    using blocks_record_snd r by (metis snd_conv)
  ultimately show "hs_log st' = hs_log st"
    "token = block_token (hs_blocks st) (to_line E (rule_from_context ?ctx ALLOW_DIMS))"
    using assms by simp_all
qed

lemma maybe_soak_other: "md \<noteq> Soak \<Longrightarrow> maybe_soak E h md ev st = st"
  by (simp add: maybe_soak_def)



section \<open>The context of an event\<close>

text \<open>No stored string shares its hash with another of the strings in question.\<close>

definition db_distinguishes :: "hash_db \<Rightarrow> string list \<Rightarrow> bool" where
  "db_distinguishes D ss \<longleftrightarrow>
    (\<forall>s \<in> set ss. case db_map D (db_hash D s) of None \<Rightarrow> True | Some p \<Rightarrow> p = s)"

lemma resolve_string:
  assumes "db_distinguishes D ss" "s \<in> set ss" "hashdb_resolve D (db_hash D s) = Some p"
  shows "p = s"
  using assms by (auto simp: db_distinguishes_def hashdb_resolve_def split: if_splits option.splits)

definition name_fits :: "bytes \<Rightarrow> bool" where
  "name_fits c \<longleftrightarrow> utf8_valid (c_str c) \<and> pad_comm (c_str c) = c"

lemma event_ctx_describes:
  assumes "describes (db_k0 D) (db_k1 D) (e_origin ev) x" "c_str (e_filename ev) = x_target x"
    and "utf8_valid (x_target x)" "name_fits (x_comm x)"
    and "get_uid_for_pid h (e_pid ev) = Some (x_exec_uid x)"
    and "db_distinguishes D (dir_part (x_landing x) # base_part (x_landing x) # opt_strings (x_creator x))"
  shows "ctx_describes (event_ctx h ev D) x"
proof -
  let ?ss = "dir_part (x_landing x) # base_part (x_landing x) # opt_strings (x_creator x)"
  note d = assms(1) [unfolded describes_def]
  have z: "hashdb_resolve D 0 = None" by (simp add: hashdb_resolve_def)
  note rs = resolve_string [OF assms(6), unfolded db_hash_def]
  have "hashdb_resolve D (landing_folder_hash (e_origin ev)) = Some f \<Longrightarrow>
      SLASH \<in> set (x_landing x) \<and> f = dir_part (x_landing x)" for f
    using d z rs [of "dir_part (x_landing x)" f] by (auto simp: parent_hash_def split: if_splits)
  moreover have "hashdb_resolve D (landing_basename_hash (e_origin ev)) = Some f \<Longrightarrow>
      f = base_part (x_landing x)" for f
    using d rs [of "base_part (x_landing x)" f] by auto
  moreover have "hashdb_resolve D (creator_path_hash (e_origin ev)) = Some f \<Longrightarrow> x_creator x = Some f" for f
    using d z rs [of "the (x_creator x)" f] by (auto simp: opt_strings_def split: option.splits)
  moreover have "pad_comm (comm_to_string (comm (e_origin ev))) = x_comm x"
    using d assms(4) by (simp add: name_fits_def comm_to_string_def from_utf8_lossy_valid)
  ultimately show ?thesis
    using d assms(2,3,5)
    by (simp add: ctx_describes_def event_ctx_def c_str_to_string_def from_utf8_lossy_valid
      unwrap_or_def when_set_def in_folder_def split: option.split)
qed

section \<open>Witnesses\<close>

definition sample_db :: hash_db where
  "sample_db = \<lparr>db_map = (\<lambda>h. None), db_writer = [], db_k0 = 1, db_k1 = 2\<rparr>"

definition sample_handler :: handler_state where
  "sample_handler = \<lparr>hs_db = sample_db, hs_soak = None, hs_marks = (\<lambda>i. None), hs_xattrs = (\<lambda>i. None),
     hs_blocks = blocks_new 1 2, hs_sent = [], hs_log = []\<rparr>"

definition sample_henv :: handler_env where
  "sample_henv = \<lparr>h_exe = (\<lambda>p. Some ''/usr/bin/curl''),
     h_status = (\<lambda>p. Some (''Uid:'' @ [TAB] @ ''1000'' @ [TAB] @ ''1000'' @ [CHR 0x0A])),
     h_open = (\<lambda>p. FdRegular 3), h_stat = (\<lambda>p. Some (1, 3)), h_db_err = (\<lambda>s. None),
     h_xattr_ok = True, h_backfill_ok = True, h_soak_err = None, h_soak_msg = []\<rparr>"


definition forged_event :: event where
  "forged_event = \<lparr>e_kind = EVENT_KIND_EXECVE, e_pid = 7, e_tgid = 7, e_status = -1, e_comm = sample_comm,
     e_origin = sample_mark, e_filename = ''/tmp/x'' @ [CHR 0x0A] @ ''PROVENANCE-EXEC''\<rparr>"


end
