(* ===== verification/Quarantine_Props.thy ===== *)
theory Quarantine_Props
  imports Quarantine
begin

text \<open>
  Properties of the quarantine: the hexadecimal form of the mark is exact, a stored body has the
  bytes of the file that was checked and no permissions, a stash followed by a restore gives the file
  back, and what another process can do between the identity check and the move.
\<close>

section \<open>Hexadecimal\<close>

lemma show_hex_byte:
  assumes "n < 256"
  shows "show_hex_padded 2 n = [digit_char (n div 16), digit_char (n mod 16)]"
proof (cases "n < 16")
  case True
  then have "show_radix 16 n = [digit_char n]" by (simp add: show_radix.simps)
  with True show ?thesis by (simp add: show_hex_padded_def digit_char_zero)
next
  case False
  then have "show_radix 16 n = show_radix 16 (n div 16) @ [digit_char (n mod 16)]"
    by (subst show_radix.simps) simp
  moreover have "show_radix 16 (n div 16) = [digit_char (n div 16)]"
    using assms by (subst show_radix.simps) (simp add: less_mult_imp_div_less)
  ultimately show ?thesis by (simp add: show_hex_padded_def)
qed

lemma hex_pairs_encode: "hex_pairs (hex_encode bs) = Some bs"
proof (induction bs)
  case (Cons b bs)
  have n: "of_char b < (256 :: nat)" by (rule of_char_less)
  have "parse_uint 16 256 [digit_char (of_char b div 16), digit_char (of_char b mod 16)] = Some (of_char b)"
    using parse_show_hex [OF n, of 2] by (simp only: show_hex_byte [OF n])
  with Cons show ?case by (simp add: hex_encode_def show_hex_byte [OF n])
qed (simp add: hex_encode_def)

lemma length_hex_encode: "length (hex_encode bs) = 2 * length bs"
  by (induction bs) (simp_all add: hex_encode_def show_hex_byte [OF of_char_less])

lemma hex_decode_encode: "hex_decode (hex_encode bs) = Some bs"
  by (simp add: hex_decode_def length_hex_encode hex_pairs_encode)

section \<open>Permissions\<close>

lemmas mode_defs = perm_bits_def set_perm_def S_IFMT_def S_IFREG_def S_IFLNK_def is_symlink_def is_regular_def

lemma perm_bits_set_perm: "perm_bits (n_mode (set_perm p nd)) = perm_bits p"
  by (simp add: mode_defs bit.conj_disj_distrib2 and.assoc)

lemma set_perm_type: "n_mode (set_perm p nd) AND S_IFMT = n_mode nd AND S_IFMT"
  by (simp add: mode_defs bit.conj_disj_distrib2 and.assoc)

lemma set_perm_twice: "set_perm p (set_perm q nd) = set_perm p nd"
  by (simp add: mode_defs bit.conj_disj_distrib2 and.assoc)

lemma set_perm_own:
  assumes "take_bit 16 (n_mode nd) = n_mode nd"
  shows "set_perm (perm_bits (n_mode nd)) nd = nd"
proof -
  have "(n_mode nd AND 0xF000) OR (n_mode nd AND 0xFFF) = n_mode nd AND (0xF000 OR 0xFFF)"
    by (simp only: bit.conj_disj_distrib)
  also have "\<dots> = take_bit 16 (n_mode nd)" by (simp add: take_bit_eq_mask mask_eq_exp_minus_1)
  finally show ?thesis using assms by (simp add: mode_defs and.assoc)
qed

lemma set_perm_other [simp]:
  "n_data (set_perm p nd) = n_data nd" "n_origin (set_perm p nd) = n_origin nd"
  "stat_ids (set_perm p nd) = stat_ids nd" "n_link (set_perm p nd) = n_link nd"
  "is_symlink (set_perm p nd) = is_symlink nd" "is_regular (set_perm p nd) = is_regular nd"
  by (simp_all add: stat_ids_def is_symlink_def is_regular_def set_perm_type) (simp_all add: set_perm_def)

lemma regular_not_symlink: "is_regular nd \<Longrightarrow> \<not> is_symlink nd"
  by (simp add: mode_defs)

lemma upd_node_simps [simp]:
  "q_names (upd_node i f fs) = q_names fs" "q_manifests (upd_node i f fs) = q_manifests fs"
  "q_nodes (upd_node i f fs) j = (if j = i then f (q_nodes fs i) else q_nodes fs j)"
  by (simp_all add: upd_node_def)

lemma upd_follow_plain: "\<not> is_symlink (q_nodes fs i) \<Longrightarrow> upd_follow i f fs = upd_node i f fs"
  by (simp add: upd_follow_def follow_def)

section \<open>Stashing\<close>

text \<open>No other process acts on the file system during the call.\<close>

definition quiet :: "q_env \<Rightarrow> bool" where
  "quiet e \<longleftrightarrow> q_adv e = (\<lambda>n fs. fs)"

text \<open>Where the daemon looks for a path: the directory it opened and the final component.\<close>

definition entry_of :: "q_env \<Rightarrow> string \<Rightarrow> (dir_id \<times> string) option" where
  "entry_of e target =
    (case (path_parent target, path_file_name target) of
       (Some parent, Some base) \<Rightarrow>
         (case open_dir_no_symlinks e parent of Inr d \<Rightarrow> Some (d, base) | Inl err \<Rightarrow> None)
     | _ \<Rightarrow> None)"

lemma origin_read [simp]:
  "(case fgetxattr e fd fs of None \<Rightarrow> None | Some v \<Rightarrow> v) = (if q_getxattr_ok e then n_origin (q_nodes fs fd) else None)"
  by (simp add: fgetxattr_def)

lemma fstat_iff [simp]: "fstat e fd fs = Some st \<longleftrightarrow> q_fstat_ok e \<and> st = q_nodes fs fd" "q_fstat_ok e \<Longrightarrow> fstat e fd fs \<noteq> None"
  by (auto simp: fstat_def)

text \<open>Whatever other processes do, a stash that succeeds checked the file it had opened.\<close>

lemma stash_checked:
  assumes "stash e tm token target dev ino fs = (fs', Inr s)"
  shows "\<exists>d base fd. entry_of e target = Some (d, base) \<and>
    q_names (q_adv e 0 fs) (d, base) = Some fd \<and> q_fstat_ok e \<and>
    is_regular (q_nodes (q_adv e 1 (q_adv e 0 fs)) fd) \<and>
    stat_ids (q_nodes (q_adv e 1 (q_adv e 0 fs)) fd) = (dev, ino) \<and>
    finish_stash e tm token target dev ino d base fd (q_nodes (q_adv e 1 (q_adv e 0 fs)) fd)
      (q_adv e 1 (q_adv e 0 fs)) = (fs', Inr s)"
  using assms
  by (auto simp: stash_def entry_of_def openat_nofollow_def fstat_def Let_def
    split: option.splits if_splits sum.splits prod.splits)

lemma quarantine_id_NUL [simp]: "NUL \<in> set (quarantine_id token ts) \<longleftrightarrow> NUL \<in> set token"
  using set_show_radix [of 10 "unat ts"] digit_set_range [of NUL 10]
  by (auto simp: quarantine_id_def)

lemma finish_stash_parts:
  assumes "finish_stash e tm token target dev ino d base fd st fs = (fs', Inr s)" "quiet e"
    and "origin = (if q_getxattr_ok e then n_origin (q_nodes fs fd) else None)"
  shows "\<exists>body. s = \<lparr>st_id = quarantine_id token (q_now e), st_original_path = target\<rparr> \<and>
    to_toml tm (manifest_of e token target dev ino origin st) = Some body \<and>
    (q_rename_err e = None \<and>
       (\<exists>i. q_names fs (d, base) = Some i \<and>
         fs' = (upd_follow i (set_perm 0) (fs\<lparr>q_names := (q_names fs)((d, base) := None,
             (q_store e, quarantine_id token (q_now e)) \<mapsto> i)\<rparr>))
           \<lparr>q_manifests := (q_manifests fs)(quarantine_id token (q_now e) \<mapsto> body)\<rparr>) \<or>
     q_rename_err e = Some EXDEV \<and>
       (\<exists>fs1. copy_body e d base fd (quarantine_id token (q_now e)) dev ino origin fs = (fs1, None) \<and>
         fs' = fs1\<lparr>q_manifests := (q_manifests fs1)(quarantine_id token (q_now e) \<mapsto> body)\<rparr>))"
  using assms(1,2) unfolding finish_stash_def origin_read assms(3) [symmetric] quiet_def
  by (auto simp: write_manifest_def manifest_of_def Let_def upd_follow_def upd_node_def follow_def
    split: option.splits if_splits errno.splits prod.splits)


lemma openat_create_result:
  assumes "openat_create e d name md fs = (fs1, Inr out)"
  shows "q_names fs (d, name) = None \<and> out = q_fresh e \<and> q_names fs1 = (q_names fs)((d, name) \<mapsto> out) \<and>
    (\<forall>i. i \<noteq> out \<longrightarrow> q_nodes fs1 i = q_nodes fs i)"
  using assms by (auto simp: openat_create_def split: if_splits option.splits)

lemma copy_body_result:
  assumes "copy_body e d base fd sid dev ino origin fs = (fs1, None)" "quiet e" "q_fresh e \<noteq> fd"
  shows "q_names fs (q_store e, sid) = None \<and>
    q_names fs1 (q_store e, sid) = (if (d, base) = (q_store e, sid) \<and> q_names fs1 (d, base) = None
      then None else Some (q_fresh e)) \<and>
    n_data (q_nodes fs1 (q_fresh e)) = n_data (q_nodes fs fd) \<and>
    perm_bits (n_mode (q_nodes fs1 (q_fresh e))) = 0"
proof -
  obtain fs0 out where o: "openat_create e (q_store e) sid 0x180 fs = (fs0, Inr out)"
    using assms(1) by (auto simp: copy_body_def split: prod.splits sum.splits)
  note r = openat_create_result [OF o]
  let ?fs = "upd_node out (\<lambda>nd. nd\<lparr>n_data := n_data (q_nodes fs fd)\<rparr>) fs0"
  define fs2 where "fs2 = upd_node out (set_perm 0) (case origin of Some v \<Rightarrow> fsetxattr e out v ?fs | None \<Rightarrow> ?fs)"
  have fs2: "q_names fs2 = (q_names fs)((q_store e, sid) \<mapsto> out)" "n_data (q_nodes fs2 out) = n_data (q_nodes fs fd)"
    "perm_bits (n_mode (q_nodes fs2 out)) = 0"
    using r by (simp_all add: fs2_def fsetxattr_def upd_node_def perm_bits_set_perm perm_bits_def [of 0] split: option.split)
  have fd: "q_nodes fs0 fd = q_nodes fs fd" using r assms(3) by simp
  have "fs1 = fs2 \<or> fs1 = fs2\<lparr>q_names := (q_names fs2)((d, base) := None)\<rparr>"
    using assms(1,2) o
    by (cases origin) (auto simp: copy_body_def quiet_def Let_def fd fs2_def split: option.splits if_splits)
  then show ?thesis using fs2 r by (auto split: if_splits)
qed


text \<open>Enough for a stash by rename to succeed.\<close>

lemma stash_succeeds:
  assumes "entry_of e target = Some (d, base)" "path_parent target \<noteq> Some []" "NUL \<notin> set base" "quiet e"
    and "is_regular (q_nodes fs i)" "stat_ids (q_nodes fs i) = (dev, ino)" "q_names fs (d, base) = Some i"
    and "q_open_err e = None" "q_fstat_ok e" "q_mkdir_ok e" "q_store_ok e" "q_rename_err e = None"
    and "q_manifest_err e = None" "\<forall>m. to_toml tm m \<noteq> None" "NUL \<notin> set token"
  shows "\<exists>fs' s. stash e tm token target dev ino fs = (fs', Inr s)"
proof -
  obtain parent where p: "path_parent target = Some parent" "parent \<noteq> []" "path_file_name target = Some base"
    "open_dir_no_symlinks e parent = Inr d"
    using assms(1,2) by (auto simp: entry_of_def split: option.splits sum.splits)
  have o: "openat_nofollow e d base fs = Inr i"
    using assms(5,7,8) regular_not_symlink by (simp add: openat_nofollow_def)
  obtain body where b: "to_toml tm (manifest_of e token target dev ino
      (if q_getxattr_ok e then n_origin (q_nodes fs i) else None) (q_nodes fs i)) = Some body"
    using assms(14) by blast
  have "\<exists>fs' s. finish_stash e tm token target dev ino d base i (q_nodes fs i) fs = (fs', Inr s)"
    using assms(4,7,10-13,15) b by (simp add: finish_stash_def Let_def write_manifest_def quiet_def)
  then show ?thesis using p o assms(3-6,9) by (auto simp: stash_def fstat_def quiet_def)
qed

section \<open>Restoring\<close>

definition restore_works :: "r_env \<Rightarrow> qnode \<Rightarrow> bool" where
  "restore_works e nd \<longleftrightarrow>
    r_rename_err e = None \<and> r_chmod_ok e \<and> r_chown_ok e \<and> r_utimens_ok e \<and> r_setxattr_ok e \<and>
    r_unlink_manifest_ok e \<and> r_chown_mode e (n_mode nd) = n_mode nd"

lemma reapply_own:
  assumes "restore_works e nd" "is_regular nd" "take_bit 16 (n_mode nd) = n_mode nd"
    and "q_nodes fs i = set_perm 0 nd"
    and "m_uid m = n_uid nd" "m_gid m = n_gid nd" "m_mode m = n_mode nd" "m_mtime m = n_mtime nd"
      "m_mtime_nsec m = n_mtime_nsec nd" "m_origin_hex m = map_option hex_encode (n_origin nd)"
  shows "\<exists>fs'. reapply e m i fs = (fs', True) \<and> q_nodes fs' i = nd \<and> q_names fs' = q_names fs \<and>
    q_manifests fs' = q_manifests fs"
proof -
  have ns: "\<not> is_symlink nd" using assms(2) by (rule regular_not_symlink)
  let ?fs1 = "upd_node i (set_perm (perm_bits (m_mode m))) fs"
  have fs1: "q_nodes ?fs1 i = nd"
    using assms(3,4,7) by (simp add: set_perm_twice set_perm_own)
  let ?fs2 = "upd_node i (\<lambda>nd. nd\<lparr>n_uid := m_uid m, n_gid := m_gid m, n_mode := r_chown_mode e (n_mode nd)\<rparr>) ?fs1"
  have fs2: "q_nodes ?fs2 i = nd"
    using fs1 assms(1,5,6) by (simp add: restore_works_def)
  let ?fs3 = "upd_node i (\<lambda>nd. nd\<lparr>n_mtime := m_mtime m, n_mtime_nsec := m_mtime_nsec m\<rparr>) ?fs2"
  have fs3: "q_nodes ?fs3 i = nd" using fs2 assms(8,9) by simp
  have "reapply e m i fs = (case n_origin nd of None \<Rightarrow> ?fs3
      | Some b \<Rightarrow> upd_node i (\<lambda>nd. nd\<lparr>n_origin := Some b\<rparr>) ?fs3, True)"
    using assms(1,4,10) ns fs1 fs2
    by (simp add: reapply_def reapply_calls restore_works_def upd_follow_plain hex_decode_encode Let_def split: option.split)
  with fs3 show ?thesis by (cases "n_origin nd") simp_all
qed



section \<open>Interference\<close>

text \<open>
  C38: The move is by name, after the check of the descriptor. If between the two another process puts
  a symbolic link at the recorded name, the stash answers with success, the link is what lands in the
  store, and the file the link points to loses all its permissions; the file that was checked is not
  moved.
\<close>

theorem swapped_link_redirects_chmod:
  assumes "entry_of e target = Some (d, base)" "path_parent target \<noteq> Some []" "NUL \<notin> set base"
    and "q_adv e 0 = (\<lambda>f. f)" "q_adv e 1 = (\<lambda>f. f)"
    and "q_adv e 2 = (\<lambda>f. f\<lparr>q_names := (q_names f)((d, base) \<mapsto> l)\<rparr>)"
    and "q_names fs (d, base) = Some i" "is_regular (q_nodes fs i)" "stat_ids (q_nodes fs i) = (dev, ino)"
    and "is_symlink (q_nodes fs l)" "n_link (q_nodes fs l) = Some v" "v \<noteq> i"
    and "q_open_err e = None" "q_fstat_ok e" "q_mkdir_ok e" "q_store_ok e" "q_rename_err e = None"
    and "q_manifest_err e = None" "\<forall>m. to_toml tm m \<noteq> None" "NUL \<notin> set token"
  shows "\<exists>fs' s. stash e tm token target dev ino fs = (fs', Inr s) \<and>
    q_names fs' (q_store e, st_id s) = Some l \<and> q_nodes fs' i = q_nodes fs i \<and>
    q_nodes fs' v = set_perm 0 (q_nodes fs v)"
proof -
  obtain parent where p: "path_parent target = Some parent" "parent \<noteq> []" "path_file_name target = Some base"
    "open_dir_no_symlinks e parent = Inr d"
    using assms(1,2) by (auto simp: entry_of_def split: option.splits sum.splits)
  have o: "openat_nofollow e d base fs = Inr i"
    using assms(7,8,13) regular_not_symlink by (simp add: openat_nofollow_def)
  let ?sid = "quarantine_id token (q_now e)"
  obtain body where b: "to_toml tm (manifest_of e token target dev ino
      (if q_getxattr_ok e then n_origin (q_nodes fs i) else None) (q_nodes fs i)) = Some body"
    using assms(19) by blast
  have "finish_stash e tm token target dev ino d base i (q_nodes fs i) fs =
      ((upd_node v (set_perm 0) (fs\<lparr>q_names := (q_names fs)((d, base) := None, (q_store e, ?sid) \<mapsto> l)\<rparr>))
        \<lparr>q_manifests := (q_manifests fs)(?sid \<mapsto> body)\<rparr>, Inr \<lparr>st_id = ?sid, st_original_path = target\<rparr>)"
    using assms(6,10,11,15-18,20) b
    by (simp add: finish_stash_def Let_def upd_follow_def follow_def write_manifest_def)
      (simp add: manifest_of_def upd_node_def)
  then show ?thesis
    using p o assms(3-5,8,9,12,14) by (simp add: stash_def fstat_def)
qed

section \<open>Witnesses\<close>

definition sample_node :: "u64 \<Rightarrow> u32 \<Rightarrow> qnode" where
  "sample_node ino md = \<lparr>n_dev = 1, n_ino = ino, n_mode = md, n_uid = 1000, n_gid = 1000, n_mtime = 7,
     n_mtime_nsec = 8, n_data = ''payload'', n_origin = Some ''m'',
     n_link = (if md = 0xA1FF then Some 4 else None)\<rparr>"

definition sample_fs :: qfs where
  "sample_fs = \<lparr>q_names = [(8, ''x'') \<mapsto> 3], q_nodes = (\<lambda>i. sample_node (of_nat i)
     (if i = 5 then 0xA1FF else 0x81ED)), q_manifests = (\<lambda>t. None)\<rparr>"

definition sample_qenv :: "(nat \<Rightarrow> qfs \<Rightarrow> qfs) \<Rightarrow> q_env" where
  "sample_qenv adv = \<lparr>q_parent = (\<lambda>p. Inr 8), q_open_err = None, q_fstat_ok = True, q_getxattr_ok = True,
     q_mkdir_ok = True, q_store_ok = True, q_store = 2, q_now = 5, q_rename_err = None,
     q_create_err = None, q_copy_err = None, q_sync_ok = True, q_setxattr_ok = True, q_unlink_ok = True,
     q_manifest_err = None, q_fresh = 9, q_fresh_node = sample_node 9 0x8180, q_adv = adv\<rparr>"

definition sample_toml :: toml where
  "sample_toml = \<lparr>to_toml = (\<lambda>m. Some ''m''), of_toml = (\<lambda>s. Some (manifest_of (sample_qenv (\<lambda>n fs. fs))
     ''t'' ''/tmp/x'' 1 3 (Some ''m'') (sample_node 3 0x81ED)))\<rparr>"

definition sample_renv :: r_env where
  "sample_renv = \<lparr>r_store = 2, r_at = (\<lambda>p. (8, ''x'')), r_rename_err = None, r_copy_ok = True,
     r_remove_ok = True, r_fresh = 10, r_fresh_node = sample_node 10 0x8180, r_chmod_ok = True,
     r_chown_ok = True, r_chown_mode = (\<lambda>m. m), r_utimens_ok = True, r_setxattr_ok = True,
     r_unlink_manifest_ok = True\<rparr>"

lemma sample_fields [simp]:
  "q_store (sample_qenv adv) = 2" "q_fresh (sample_qenv adv) = 9" "q_rename_err (sample_qenv adv) = None"
  "q_parent (sample_qenv adv) p = Inr 8" "q_open_err (sample_qenv adv) = None" "q_fstat_ok (sample_qenv adv)"
  "q_getxattr_ok (sample_qenv adv)" "q_mkdir_ok (sample_qenv adv)" "q_store_ok (sample_qenv adv)"
  "q_manifest_err (sample_qenv adv) = None" "q_adv (sample_qenv adv) = adv"
  "q_names sample_fs = [(8, ''x'') \<mapsto> 3]" "q_nodes sample_fs 3 = sample_node 3 0x81ED"
  "q_nodes sample_fs 5 = sample_node 5 0xA1FF" "to_toml sample_toml m = Some ''m''"
  "quiet (sample_qenv (\<lambda>n fs. fs))" "n_data (sample_node j md) = ''payload''"
  "n_origin (sample_node j md) = Some ''m''"
  by (simp_all add: sample_qenv_def sample_fs_def sample_toml_def quiet_def sample_node_def)

lemma sample_path: "path_parent ''/tmp/x'' = Some ''/tmp''" "path_file_name ''/tmp/x'' = Some ''x''"
  by (simp_all add: path_parent_def path_file_name_def path_comps_def path_absolute_def)

lemma sample_entry: "entry_of (sample_qenv adv) ''/tmp/x'' = Some (8, ''x'')"
  by (simp add: entry_of_def sample_path open_dir_no_symlinks_def)

lemma sample_node_regular: "is_regular (sample_node 3 0x81ED)" "stat_ids (sample_node 3 0x81ED) = (1, 3)"
  by (simp_all add: sample_node_def mode_defs stat_ids_def)

lemma sample_stash: "\<exists>fs' s. stash (sample_qenv (\<lambda>n fs. fs)) sample_toml ''t'' ''/tmp/x'' 1 3 sample_fs = (fs', Inr s)"
  by (rule stash_succeeds [OF sample_entry, where i = 3]) (simp_all add: sample_node_regular sample_path)



theorem swapped_link_redirects_chmod_witness:
  "\<exists>fs' s. stash (sample_qenv (\<lambda>n f. if n = 2 then f\<lparr>q_names := (q_names f)((8, ''x'') \<mapsto> 5)\<rparr> else f))
      sample_toml ''t'' ''/tmp/x'' 1 3 sample_fs = (fs', Inr s) \<and>
    q_names fs' (2, st_id s) = Some 5 \<and> q_nodes fs' 4 = set_perm 0 (q_nodes sample_fs 4)"
proof -
  have "is_symlink (sample_node 5 0xA1FF)" "n_link (sample_node 5 0xA1FF) = Some 4"
    by (simp_all add: sample_node_def mode_defs)
  with swapped_link_redirects_chmod [OF sample_entry [of "\<lambda>n f. if n = 2
      then f\<lparr>q_names := (q_names f)((8, ''x'') \<mapsto> 5)\<rparr> else f"], of 5 sample_fs 3 1 3 4 sample_toml "''t''"]
    sample_node_regular show ?thesis by (auto simp: sample_path)
qed

end
