(* ===== verification/Daemon_Props.thy ===== *)
theory Daemon_Props
  imports Daemon Handler_Props Quarantine_Props
begin

text \<open>
  Properties that span the daemon: what seeding leaves in the maps, that a start gives every part the
  same key, that the daemon installs the rule of a denied execution when its token is sent back, that a decided block
  leaves the table, and that the ring buffer is emptied in bounded turns.
\<close>

section \<open>Seeding\<close>

lemma seed_loop_result:
  assumes "seed_loop i rs err arr = (arr', True)" "i \<le> length arr"
  shows "length arr' = length arr \<and> i + length rs \<le> length arr \<and>
    take (i + length rs) arr' = take i arr @ rs"
  using assms
proof (induction i rs err arr rule: seed_loop.induct)
  case (2 i r rs err arr)
  then have i: "err \<noteq> Some i" "i < length arr" by (auto split: if_splits)
  with "2.prems" have "seed_loop (Suc i) rs err (arr[i := r]) = (arr', True)" by simp
  with "2.IH" i have "length arr' = length arr \<and> Suc i + length rs \<le> length arr \<and>
      take (Suc i + length rs) arr' = take (Suc i) (arr[i := r]) @ rs" by simp
  then show ?case using i by (simp add: take_Suc_conv_app_nth)
qed simp

lemma seed_loop_ok:
  "i + length rs \<le> length arr \<Longrightarrow> \<exists>arr'. seed_loop i rs None arr = (arr', True)"
  by (induction i rs "None :: nat option" arr rule: seed_loop.induct) auto

lemma seed_rules_active:
  assumes "seed_rules err specs a b k = (k', True)"
  shows "active_rules k' = map (pack a b) (take MAX_RULES specs)"
    "hash_key k' = hash_key k" "CONFIG k' = CONFIG k"
proof -
  let ?n = "min (length specs) MAX_RULES"
  obtain arr where l: "seed_loop 0 (map (pack a b) (take ?n specs)) err (ALLOW_RULES k) = (arr, True)"
    and k': "k' = k\<lparr>ALLOW_RULES := arr, ALLOW_RULE_COUNT := (ALLOW_RULE_COUNT k)[0 := of_nat ?n]\<rparr>"
    "ALLOW_RULE_COUNT k \<noteq> []"
    using assms by (auto simp: seed_rules_def Let_def split: prod.splits if_splits)
  have "take ?n arr = map (pack a b) (take ?n specs)"
    using seed_loop_result [OF l] by simp
  moreover have "unat (of_nat ?n :: u32) = ?n" by (rule unat_of_nat_u32) (simp add: size_consts min_def)
  ultimately show "active_rules k' = map (pack a b) (take MAX_RULES specs)"
    using k' by (cases "ALLOW_RULE_COUNT k") (auto simp: active_rules_def array_get_def min_def)
  show "hash_key k' = hash_key k" "CONFIG k' = CONFIG k" using k'(1) by (simp_all add: hash_key_def)
qed

definition map_shape :: "kernel \<Rightarrow> bool" where
  "map_shape k \<longleftrightarrow> length (ALLOW_RULES k) = MAX_RULES \<and> length (ALLOW_RULE_COUNT k) = 1"

lemma seed_rules_succeeds:
  assumes "map_shape k"
  shows "\<exists>k'. seed_rules None specs a b k = (k', True)"
  using seed_loop_ok [of 0 "map (pack a b) (take (min (length specs) MAX_RULES) specs)" "ALLOW_RULES k"] assms
  by (auto simp: seed_rules_def map_shape_def Let_def min_def)

section \<open>Requests\<close>

lemma split_ws_solid:
  assumes "\<forall>c \<in> set x. solid c"
  shows "split_ws_acc acc (x @ s) = split_ws_acc (acc @ x) s"
  using assms
proof (induction x arbitrary: acc)
  case (Cons c x)
  have "ws_head white_space (c # x @ s) = None"
    using ws_head_solid [of white_space c "[]" "x @ s"] Cons.prems
    by (simp add: solid_def ws_head_None)
  then show ?case using Cons by (subst split_ws_acc.simps) simp
qed simp

lemma split_ws_space: "split_ws_acc acc (CHR '' '' # s) = (if acc = [] then [] else [acc]) @ split_ws_acc [] s"
proof -
  have "ws_head white_space (CHR '' '' # s) = Some '' ''"
    by (simp add: ws_head_def white_space_def)
  then show ?thesis by (subst split_ws_acc.simps) simp
qed

lemma split_ws_end: "split_ws_acc acc [] = (if acc = [] then [] else [acc])"
proof -
  have "ws_head white_space [] = None" by (simp add: ws_head_None)
  then show ?thesis by (subst split_ws_acc.simps) simp
qed

lemma split_request:
  assumes "\<forall>c \<in> set v. solid c" "\<forall>c \<in> set t. solid c" "v \<noteq> []" "t \<noteq> []"
  shows "str_split_whitespace (v @ '' '' @ t) = [v, t]"
  using assms split_ws_solid [OF assms(1), of "[]" "'' '' @ t"] split_ws_solid [OF assms(2), of "[]" "[]"]
  by (simp add: str_split_whitespace_def split_ws_space split_ws_end)

lemma token_solid: "\<forall>c \<in> set (block_token T l). solid c" "block_token T l \<noteq> []"
proof -
  show "\<forall>c \<in> set (block_token T l). solid c"
    using set_show_hex [of 8] digits_plain(3) unfolding block_token_def by (meson subsetD)
  show "block_token T l \<noteq> []" by (simp add: block_token_def show_hex_padded_def Let_def)
qed

lemma verbs_solid: "\<forall>c \<in> set ''allow''. solid c" "\<forall>c \<in> set ''once''. solid c"
  "\<forall>c \<in> set ''dismiss''. solid c" "\<forall>c \<in> set ''quarantine''. solid c"
  by (simp_all add: solid_ascii)

lemma allow_request:
  "process_control_request de (''allow '' @ block_token T l) dm =
    request_allow de False (Some (block_token T l)) None dm"
  using split_request [OF verbs_solid(1) token_solid(1) _ token_solid(2), of T l]
  by (simp add: process_control_request_def nth_part_def)


section \<open>Allowing a block\<close>

text \<open>A persistent \<open>allow\<close> of a pending rule that the file does not have yet.\<close>

lemma request_allow_appends:
  assumes "base64_standard E" "E = de_b64 de" "rule_writable spec" "s_flags spec \<noteq> 0"
    and "rule_for (blocks (dm_control dm)) token = Some (to_line E spec)"
    and "allowlist_path (dm_control dm) = Some p" "ends_line (dm_files dm p)"
    and "rules_load E (dm_files dm p) = Inr R" "\<forall>r \<in> set (rule_list R). to_line E r \<noteq> to_line E spec"
    and "de_append_ok de" "de_append_err de = None" "de_seed_err de = None" "map_shape (dm_kernel dm)"
  shows "\<exists>dm'. request_allow de False (Some token) None dm = (dm', Inr (to_line E spec)) \<and>
    active_rules (dm_kernel dm') = map (pack (hk0 (dm_key dm)) (hk1 (dm_key dm)))
      (take MAX_RULES (rule_list R @ spec # transient (dm_control dm))) \<and>
    hash_key (dm_kernel dm') = hash_key (dm_kernel dm) \<and> INODE_MARKS (dm_kernel dm') = INODE_MARKS (dm_kernel dm) \<and>
    record_for (blocks (dm_control dm')) token = None"
proof -
  have c: "candidate_line E None (to_line E spec) = Inr (to_line E spec)"
    "rule_parse E (to_line E spec) = Inr spec"
    using base64_standard.parse_to_line [OF assms(1)] assms(3,4)
    by (simp_all add: candidate_line_def rule_writable_def)
  let ?fs = "(dm_files dm)(p := FileBytes (file_content (dm_files dm p) @ to_line E spec @ [CHR 0x0A]))"
  have ap: "append_persistent E True None (to_line E spec) (dm_files dm) (dm_control dm) = (?fs, None)"
    using assms(6,8,9) by (auto simp: append_persistent_def)
  from base64_standard.append_persistent_effect [OF assms(1,3,4,6,7,8) ap]
  obtain R' where R': "rules_load E (?fs p) = Inr R'" "\<exists>r \<in> set (rule_list R'). to_line E r = to_line E spec"
    "rule_list R' = rule_list R \<or> rule_list R' = rule_list R @ [spec]" by blast
  then have rl: "rule_list R' = rule_list R @ [spec]" using assms(9) by auto
  let ?dm = "dm\<lparr>dm_files := ?fs\<rparr>"
  have cb: "combined E ?fs (dm_control dm) = Inr (rule_list R @ spec # transient (dm_control dm))"
    using assms(6) R'(1) rl by (simp add: combined_def)
  obtain k' where k': "seed_rules None (rule_list R @ spec # transient (dm_control dm)) (hk0 (dm_key dm))
      (hk1 (dm_key dm)) (dm_kernel dm) = (k', True)"
    using seed_rules_succeeds [OF assms(13)] by blast
  have "request_allow de False (Some token) None dm =
      (say (Info (''allow applied (token '' @ token @ ''): '' @ to_line E spec))
        (resolve_token token (?dm\<lparr>dm_kernel := k'\<rparr>)), Inr (to_line E spec))"
    using assms(5,10-12) c ap cb k'
    by (simp add: request_allow_def parse_dims_def apply_with_dims_def reseed_from_control_def
      flip: assms(2))
  moreover have "INODE_MARKS k' = INODE_MARKS (dm_kernel dm)"
    using k' by (auto simp: seed_rules_def Let_def split: prod.splits if_splits)
  ultimately show ?thesis
    using seed_rules_active [OF k'] pending.look_rem
    by (simp add: resolve_token_def say_def)
qed

lemma rule_in_active_permits:
  assumes "active_rules k = map (pack a b) specs" "hash_key k = (a, b)" "spec \<in> set specs"
    and "spec_ok spec" "s_flags spec \<noteq> 0" "spec_matches spec x" "no_collision a b (strings_in_play spec x)"
    and "describes a b r x" "length (x_comm x) = COMM_LEN"
    and "walked filename = x_target x" "current_uid e = x_exec_uid x"
  shows "check_allowlist e k filename r"
  using rule_permits_pack [OF assms(4,5,7,8,9)] assms
  by (auto simp: check_allowlist_iff target_hashes_eq)

text \<open>The block of an event is pending under its rule, also when it was pending before.\<close>

lemma record_block_token_rule:
  assumes "record_block_token E h kind ev st = (st', token)"
    and "line = to_line E (rule_from_context (event_ctx h ev (hs_db st)) ALLOW_DIMS)"
    and "rule_for (hs_blocks st) token \<in> {None, Some line}"
  shows "rule_for (hs_blocks st') token = Some line" "hs_marks st' = hs_marks st" "hs_soak st' = hs_soak st"
  using assms blocks_record_snd
  by (auto simp: record_block_token_def Let_def rule_for_def blocks_record_def split: prod.splits option.splits)

text \<open>
  The event of a denied execution is handled, and its token is sent back. Its rule comes from the facts
  the record stands for, so it permits every execution with these facts, and the marks are as before.
\<close>

lemma denied_event_allowed:
  assumes "base64_standard (de_b64 de)" "e_kind ev = EVENT_KIND_EXECVE" "e_status ev \<noteq> 0"
    and "ctx = event_ctx (de_henv de) ev (hs_db (dm_hs dm))" "ctx_ok ctx" "ctx_describes ctx x"
    and "spec = rule_from_context ctx ALLOW_DIMS" "s_flags spec \<noteq> 0"
    and "describes a b (e_origin ev) x" "length (x_comm x) = COMM_LEN" "no_collision a b (strings_in_play spec x)"
    and "token = block_token (blocks (dm_control dm)) (to_line (de_b64 de) spec)"
    and "rule_for (blocks (dm_control dm)) token \<in> {None, Some (to_line (de_b64 de) spec)}" "hs_soak (dm_hs dm) = None"
    and "allowlist_path (dm_control dm) = Some p" "ends_line (dm_files dm p)"
    and "rules_load (de_b64 de) (dm_files dm p) = Inr R" "length (rule_list R) < MAX_RULES"
    and "\<forall>r \<in> set (rule_list R). to_line (de_b64 de) r \<noteq> to_line (de_b64 de) spec"
    and "de_append_ok de" "de_append_err de = None" "de_seed_err de = None" "map_shape (dm_kernel dm)"
    and "hash_key (dm_kernel dm) = (a, b)" "dm_key dm = \<lparr>hk0 = a, hk1 = b\<rparr>"
  shows "\<exists>dm'. process_control_request de (''allow '' @ token)
      (after_handler (dispatch_event (de_b64 de) (de_henv de) md ev (handler_view dm)) dm) =
        (dm', Inr (to_line (de_b64 de) spec)) \<and>
    (\<forall>e filename. current_uid e = x_exec_uid x \<longrightarrow> walked filename = x_target x \<longrightarrow>
      check_allowlist e (dm_kernel dm') filename (e_origin ev)) \<and>
    INODE_MARKS (dm_kernel dm') = INODE_MARKS (dm_kernel dm) \<and>
    record_for (blocks (dm_control dm')) token = None"
proof -
  let ?E = "de_b64 de"
  let ?hv = "handler_view dm"
  obtain hs t where r: "record_block_token ?E (de_henv de) ''exec'' ev ?hv = (hs, t)" by fastforce
  have hv: "hs_db ?hv = hs_db (dm_hs dm)" "hs_blocks ?hv = blocks (dm_control dm)" "hs_soak ?hv = None"
    "hs_marks ?hv = INODE_MARKS (dm_kernel dm)"
    using assms(14) by (simp_all add: handler_view_def)
  have t: "t = token" using record_block_token_eq(2) [OF r] hv assms(4,7,12) by simp
  note pend = record_block_token_rule [OF r refl, unfolded hv, folded assms(4), folded assms(7), unfolded t, OF assms(13)]
  define dm1 where "dm1 = after_handler (dispatch_event ?E (de_henv de) md ev ?hv) dm"
  have hs: "dispatch_event ?E (de_henv de) md ev ?hv = hs\<lparr>hs_log := hs_log hs @
      [Warn (''BLOCKED-EXEC'' @ exec_text ev ctx @ verdict_text ev token)]\<rparr>"
    using assms(2-4) r t hv(1) by (simp add: dispatch_event_def on_execve_marked_def Let_def)
  have dm1: "dm_files dm1 = dm_files dm" "dm_key dm1 = dm_key dm"
    "allowlist_path (dm_control dm1) = Some p" "blocks (dm_control dm1) = hs_blocks hs"
    "dm_kernel dm1 = dm_kernel dm"
    using pend assms(15) by (simp_all add: dm1_def after_handler_def hs)
  have w: "rule_writable spec"
    using assms(5,7) rule_from_context_ok rule_from_context_plain by (simp add: rule_writable_def ctx_ok_def)
  have "rule_for (blocks (dm_control dm1)) token = Some (to_line ?E spec)" using pend(1) dm1(4) by simp
  from request_allow_appends [OF assms(1) refl w assms(8) this dm1(3)] assms(16-23) dm1
  obtain dm' where dm': "request_allow de False (Some token) None dm1 = (dm', Inr (to_line ?E spec))"
    "active_rules (dm_kernel dm') = map (pack a b) (take MAX_RULES (rule_list R @ spec # transient (dm_control dm1)))"
    "hash_key (dm_kernel dm') = (a, b)" "INODE_MARKS (dm_kernel dm') = INODE_MARKS (dm_kernel dm)"
    "record_for (blocks (dm_control dm')) token = None"
    using assms(24,25) by auto
  have "spec_matches spec x" using assms(6,7) rule_from_context_matches by simp
  moreover have "spec \<in> set (take MAX_RULES (rule_list R @ spec # transient (dm_control dm1)))"
    using assms(18) by (cases "MAX_RULES - length (rule_list R)") auto
  moreover have "spec_ok spec" using w by (simp add: rule_writable_def)
  ultimately have "check_allowlist e (dm_kernel dm') filename (e_origin ev)"
    if "current_uid e = x_exec_uid x" "walked filename = x_target x" for e filename
    using dm'(2,3) assms(8-11) that by (intro rule_in_active_permits)
  with dm' show ?thesis
    unfolding dm1_def [symmetric] assms(12) allow_request by (auto simp: assms(12))
qed

definition curl_env :: daemon_env where
  "curl_env = \<lparr>de_b64 = rfc4648_engine, de_toml = sample_toml,
     de_henv = sample_henv\<lparr>h_status := (\<lambda>p. Some ''Uid: 9'')\<rparr>, de_qenv = sample_qenv (\<lambda>n fs. fs),
     de_append_ok = True, de_append_err = None, de_seed_err = None, de_cause_text = (\<lambda>c. ''failed'')\<rparr>"

definition curl_daemon :: daemon where
  "curl_daemon = \<lparr>dm_kernel = sample_kernel\<lparr>ALLOW_RULES := replicate MAX_RULES (pack 1 2 default_spec)\<rparr>,
     dm_key = \<lparr>hk0 = 1, hk1 = 2\<rparr>, dm_control = control_new (Some ''/a'') 1 2, dm_hs = sample_handler,
     dm_files = (\<lambda>p. FileAbsent), dm_qfs = sample_fs\<rparr>"

section \<open>Invariant of the loop\<close>

text \<open>Every part hashes under one key, the pending table is consistent, the mode is the configured one.\<close>

definition daemon_inv :: "mode \<Rightarrow> daemon \<Rightarrow> bool" where
  "daemon_inv md dm \<longleftrightarrow>
    hash_key (dm_kernel dm) = (hk0 (dm_key dm), hk1 (dm_key dm)) \<and>
    db_k0 (hs_db (dm_hs dm)) = hk0 (dm_key dm) \<and> db_k1 (hs_db (dm_hs dm)) = hk1 (dm_key dm) \<and>
    bt_k0 (blocks (dm_control dm)) = hk0 (dm_key dm) \<and> bt_k1 (blocks (dm_control dm)) = hk1 (dm_key dm) \<and>
    blocks_inv (blocks (dm_control dm)) \<and>
    array_get (CONFIG (dm_kernel dm)) CONFIG_MODE = as_u32 md"

lemma seed_interpreters_frame:
  "hash_key (fst (seed_interpreters ok names k)) = hash_key k"
  "active_rules (fst (seed_interpreters ok names k)) = active_rules k"
  by (induction names arbitrary: k) (simp_all add: Let_def hash_key_def active_rules_def)

lemma probe_frame: "active_rules (probe_interpreter f ok p k) = active_rules k"
  by (simp add: probe_interpreter_def active_rules_def split: path_fd.split)

lemma seed_inodes_frame: "active_rules (seed_interpreter_inodes f ok names k) = active_rules k"
proof -
  have d: "active_rules (foldl (\<lambda>k d. probe_interpreter f ok (path_join d n) k) k ds) = active_rules k" for n ds k
    by (induction ds arbitrary: k) (simp_all add: probe_frame)
  show ?thesis
    unfolding seed_interpreter_inodes_def by (induction names arbitrary: k) (simp_all add: Let_def d)
qed

lemma seed_config_keys:
  "hash_key (seed_config cfg key self k) = (hk0 key, hk1 key)"
  "array_get (CONFIG (seed_config cfg key self k)) CONFIG_MODE = as_u32 (ec_mode cfg)"
  "active_rules (seed_config cfg key self k) = active_rules k"
  by (simp_all add: seed_config_def hash_key_def array_get_def active_rules_def CONFIG_MODE_def)

lemma hashdb_open_keys: "hashdb_open E d f ap a b = Inr D \<Longrightarrow> db_k0 D = a \<and> db_k1 D = b"
  by (auto simp: hashdb_open_def Let_def split: if_splits option.splits)

lemma daemon_setup_inv:
  assumes "daemon_setup E sn cfg key R k fs qf = Inr dm"
  shows "daemon_inv (ec_mode cfg) dm \<and> dm_key dm = key \<and> dm_files dm = fs \<and>
    allowlist_path (dm_control dm) = ec_allowlist cfg \<and> transient (dm_control dm) = [] \<and>
    active_rules (dm_kernel dm) = map (pack (hk0 key) (hk1 key)) (take MAX_RULES (rule_list R))"
proof -
  obtain k1 where k1: "seed_rules (sn_seed_err sn) (rule_list R) (hk0 key) (hk1 key) k = (k1, True)"
    using assms by (auto simp: daemon_setup_def split: prod.splits if_splits)
  obtain k2 where k2: "seed_interpreters (sn_interp_ok sn) (ec_interpreters cfg) k1 = (k2, True)"
    using assms k1 by (auto simp: daemon_setup_def split: prod.splits if_splits)
  let ?k = "seed_config cfg key (sn_pid sn)
    (seed_interpreter_inodes (sn_open sn) (sn_insert_ok sn) (ec_interpreters cfg) k2)"
  obtain D soak where D: "hashdb_open E (sn_db_dir_ok sn) (fs (ec_hash_db cfg)) (sn_db_append_ok sn)
      (hk0 key) (hk1 key) = Inr D"
    and dm: "dm = \<lparr>dm_kernel = ?k, dm_key = key, dm_control = control_new (ec_allowlist cfg) (hk0 key) (hk1 key),
      dm_hs = \<lparr>hs_db = D, hs_soak = soak, hs_marks = INODE_MARKS ?k, hs_xattrs = (\<lambda>i. None),
        hs_blocks = blocks (control_new (ec_allowlist cfg) (hk0 key) (hk1 key)), hs_sent = [], hs_log = []\<rparr>,
      dm_files = fs, dm_qfs = qf\<rparr>"
    using assms k1 k2 by (auto simp: daemon_setup_def Let_def split: prod.splits if_splits option.splits sum.splits)
  have "active_rules k2 = map (pack (hk0 key) (hk1 key)) (take MAX_RULES (rule_list R))"
    using seed_interpreters_frame(2) [of "sn_interp_ok sn" "ec_interpreters cfg" k1] k2 seed_rules_active(1) [OF k1]
    by simp
  then show ?thesis
    using hashdb_open_keys [OF D] blocks_inv_new
    by (simp add: dm daemon_inv_def seed_config_keys seed_inodes_frame control_new_def) (simp add: blocks_new_def)
qed

lemma record_keys [simp]:
  "bt_k0 (fst (blocks_record kd l t c d i T)) = bt_k0 T" "bt_k1 (fst (blocks_record kd l t c d i T)) = bt_k1 T"
  "bt_k0 (fst (blocks_remove tok T)) = bt_k0 T" "bt_k1 (fst (blocks_remove tok T)) = bt_k1 T"
  by (auto simp: blocks_record_def blocks_remove_def Let_def split: option.split list.split)

text \<open>What an event leaves of the database keys and of the table.\<close>

definition hs_keeps :: "handler_state \<Rightarrow> handler_state \<Rightarrow> bool" where
  "hs_keeps st st' \<longleftrightarrow>
    db_k0 (hs_db st') = db_k0 (hs_db st) \<and> db_k1 (hs_db st') = db_k1 (hs_db st) \<and>
    bt_k0 (hs_blocks st') = bt_k0 (hs_blocks st) \<and> bt_k1 (hs_blocks st') = bt_k1 (hs_blocks st) \<and>
    (blocks_inv (hs_blocks st) \<longrightarrow> blocks_inv (hs_blocks st'))"

lemma db_all_keys: "db_k0 (db_all E h ss D) = db_k0 D" "db_k1 (db_all E h ss D) = db_k1 D"
  by (induction ss arbitrary: D) (simp_all add: audit.rec_all.simps)

lemma on_file_marked_keeps: "hs_keeps st (on_file_marked E h ev derived st)"
  by (simp add: on_file_marked_def augment_eq [OF refl] hs_keeps_def db_all_keys Let_def split: option.split)

lemma blocks_record_keeps:
  "blocks_record kd l tg c d i T = (T', t) \<Longrightarrow>
    bt_k0 T' = bt_k0 T \<and> bt_k1 T' = bt_k1 T \<and> (blocks_inv T \<longrightarrow> blocks_inv T')"
  using blocks_inv_record [of T kd l tg c d i] record_keys(1,2) [of kd l tg c d i T] by auto

lemma record_block_token_keeps:
  "record_block_token E h kd ev st = (st', t) \<Longrightarrow> hs_keeps st st'"
  by (auto simp: record_block_token_def hs_keeps_def Let_def split: prod.splits dest: blocks_record_keeps)

lemma hs_keeps_log: "hs_keeps st st' \<Longrightarrow> hs_keeps st (st'\<lparr>hs_log := l\<rparr>)"
  by (simp add: hs_keeps_def)

lemma hs_keeps_refl: "hs_keeps st st" "hs_keeps st (st\<lparr>hs_log := l\<rparr>)"
  by (simp_all add: hs_keeps_def)

lemma maybe_soak_keeps: "hs_keeps st (maybe_soak E h md ev (st\<lparr>hs_log := l\<rparr>))"
  by (simp add: maybe_soak_def hs_keeps_def Let_def split: option.split prod.split)

lemma dispatch_keeps: "hs_keeps st (dispatch_event E h md ev st)"
  by (auto simp: dispatch_event_def on_execve_marked_def on_script_exec_def Let_def on_file_marked_keeps
    maybe_soak_keeps hs_keeps_refl split: prod.split intro: hs_keeps_log dest: record_block_token_keeps)

lemma handle_event_keeps: "hs_keeps st (handle_event E h md c raw st)"
  by (simp add: handle_event_def dispatch_keeps hs_keeps_refl split: option.split)

lemma handle_item_inv:
  assumes "daemon_inv md dm"
  shows "daemon_inv md (handle_item de md' item dm)"
proof -
  have "hs_keeps (handler_view dm) (handle_event (de_b64 de) (de_henv de) md' (snd item) (fst item) (handler_view dm))"
    by (rule handle_event_keeps)
  then show ?thesis
    using assms by (simp add: handle_item_def after_handler_def daemon_inv_def hs_keeps_def handler_view_def hash_key_def)
qed

lemma seed_rules_frame: "hash_key (fst (seed_rules err specs a b k)) = hash_key k"
  "CONFIG (fst (seed_rules err specs a b k)) = CONFIG k"
  by (simp_all add: seed_rules_def hash_key_def Let_def split: prod.split)

lemma reseed_inv: "daemon_inv md dm \<Longrightarrow> daemon_inv md (fst (reseed_from_control de dm))"
  using seed_rules_frame
  by (auto simp: reseed_from_control_def daemon_inv_def split: sum.split prod.split)
    (metis fst_conv)+

lemma resolve_token_inv: "daemon_inv md dm \<Longrightarrow> daemon_inv md (resolve_token t dm)"
  by (simp add: resolve_token_def daemon_inv_def blocks_inv_remove)

lemma say_inv [simp]: "daemon_inv md (say l dm) \<longleftrightarrow> daemon_inv md dm"
  by (simp add: say_def daemon_inv_def)

lemma apply_blocks:
  "apply_with_dims E ok err token once dims fs C = (fs', C', res) \<Longrightarrow>
    blocks C' = blocks C \<and> allowlist_path C' = allowlist_path C"
  by (auto simp: apply_with_dims_def split: option.splits sum.splits if_splits prod.splits)


text \<open>The budget aside, a wake-up handles the entries of the ring one after another.\<close>

lemma drain_from:
  "n < DRAIN_BUDGET \<Longrightarrow> drain de md n ring dm =
    (fold (handle_item de md) (take (DRAIN_BUDGET - n) ring) dm, drop (DRAIN_BUDGET - n) ring, length ring < DRAIN_BUDGET - n)"
proof (induction de md n ring dm rule: drain.induct)
  case (2 de md n item ring dm)
  show ?case
  proof (cases "DRAIN_BUDGET \<le> Suc n")
    case True
    with "2.prems" have "DRAIN_BUDGET - n = 1" by simp
    with True show ?thesis by simp
  next
    case False
    then have "DRAIN_BUDGET - n = Suc (DRAIN_BUDGET - Suc n)" by simp
    with False "2.IH" [OF refl] show ?thesis by (simp add: Let_def)
  qed
qed simp

lemma drain_fold:
  "drain de md 0 ring dm = (fold (handle_item de md) (take DRAIN_BUDGET ring) dm, drop DRAIN_BUDGET ring, length ring < DRAIN_BUDGET)"
  using drain_from [of 0 de md ring dm] by (simp add: DRAIN_BUDGET_def)

text \<open>
  What every turn keeps: a property \<open>I\<close> of the daemon that the handling of an event, a reseed, a decision
  and a log line keep is kept by the loop, as long as the entries of the ring are as \<open>J\<close> says.
\<close>

locale loop_invariant =
  fixes E :: b64_engine and I :: "daemon \<Rightarrow> bool" and J :: "ring_item \<Rightarrow> bool"
  assumes I_item: "de_b64 de = E \<Longrightarrow> J item \<Longrightarrow> I dm \<Longrightarrow> I (handle_item de md item dm)"
    and I_reseed: "I dm \<Longrightarrow> I (fst (reseed_from_control de dm))"
    and I_resolve: "I dm \<Longrightarrow> I (resolve_token t dm)"
    and I_say: "I dm \<Longrightarrow> I (say l dm)"
    and I_apply: "I dm \<Longrightarrow> blocks C = blocks (dm_control dm) \<Longrightarrow> allowlist_path C = allowlist_path (dm_control dm) \<Longrightarrow>
      I (dm\<lparr>dm_files := fs, dm_control := C\<rparr>)"
    and I_qfs: "I dm \<Longrightarrow> I (dm\<lparr>dm_qfs := qf\<rparr>)"
begin

lemma request_allow_inv: "I dm \<Longrightarrow> I (fst (request_allow de once token arg dm))"
proof (cases token)
  case (Some t)
  assume inv: "I dm"
  show ?thesis
  proof (cases "parse_dims arg")
    case (Inr dims)
    obtain fs C res where a: "apply_with_dims (de_b64 de) (de_append_ok de) (de_append_err de) t once dims
        (dm_files dm) (dm_control dm) = (fs, C, res)" using prod_cases3 by blast
    let ?dm = "dm\<lparr>dm_files := fs, dm_control := C\<rparr>"
    have inv': "I ?dm" using I_apply [OF inv] apply_blocks [OF a] by simp
    obtain dm2 err where r: "reseed_from_control de ?dm = (dm2, err)" by fastforce
    from I_reseed [OF inv', of de] r have "I dm2" by simp
    with inv' show ?thesis
      using Some Inr a r I_resolve I_say by (auto simp: request_allow_def Let_def split: sum.split option.split)
  qed (use inv Some in \<open>simp add: request_allow_def\<close>)
qed (simp add: request_allow_def)

lemma request_quarantine_inv: "I dm \<Longrightarrow> I (fst (request_quarantine de token dm))"
  by (simp add: request_quarantine_def Let_def I_qfs I_resolve I_say split: option.split prod.split sum.split)

lemma request_inv: "I dm \<Longrightarrow> I (fst (process_control_request de req dm))"
  by (simp add: process_control_request_def Let_def request_allow_inv request_quarantine_inv
    request_dismiss_def I_resolve I_say split: option.split)

lemma conn_inv: "I dm \<Longrightarrow> I (fst (handle_control_conn de rd dm))"
  using request_inv [of dm de]
  by (auto simp: handle_control_conn_def Let_def I_say split: conn_read.split prod.split) (metis fst_conv)

lemma fold_inv: "de_b64 de = E \<Longrightarrow> \<forall>it \<in> set ring. J it \<Longrightarrow> I dm \<Longrightarrow> I (fold (handle_item de md) ring dm)"
  by (induction ring arbitrary: dm) (simp_all add: I_item)

lemma loop_step_inv:
  assumes "loop_step de md ev ring dm = Some (dm', ring')" "de_b64 de = E" "\<forall>it \<in> set ring. J it" "I dm"
  shows "I dm'" "\<forall>it \<in> set ring'. J it"
proof -
  have "\<forall>it \<in> set (take n ring). J it" "\<forall>it \<in> set (drop n ring). J it" for n
    using assms(3) by (meson in_set_takeD, meson in_set_dropD)
  then show "I dm'" "\<forall>it \<in> set ring'. J it"
    using assms I_reseed conn_inv fold_inv
    by (auto simp: loop_step_def on_sighup_def drain_fold split: loop_event.splits)
qed

end

interpretation one_key: loop_invariant E "daemon_inv md" "\<lambda>it. True" for E md
proof
  fix de :: daemon_env and dm md' item
  show "daemon_inv md dm \<Longrightarrow> daemon_inv md (handle_item de md' item dm)" by (rule handle_item_inv)
qed (simp_all add: reseed_inv resolve_token_inv, simp_all add: daemon_inv_def)

lemma daemon_start_inv:
  assumes "daemon_start E sn cfg k fs qf = (fs', Inr dm)"
  shows "daemon_inv (ec_mode cfg) dm"
proof -
  obtain key R where "daemon_setup E sn cfg key R k fs' qf = Inr dm"
    using assms by (auto simp: daemon_start_def Let_def split: if_splits prod.splits sum.splits)
  then show ?thesis using daemon_setup_inv by blast
qed

definition quiet_config :: effective_config where
  "quiet_config = (config_resolve
     \<lparr>co_mode = None, co_allowlist = None, co_log_file = None, co_log_level = None, co_mark_localhost = None,
      co_soak = None, co_hash_db = None, co_quarantine_dir = None, co_interpreters = Some [], co_notifications = None\<rparr>
     default_file_config)"

definition quiet_start :: start_env where
  "quiet_start = \<lparr>sn_urandom = None, sn_key_dir_ok = True, sn_key_create_ok = True, sn_key_write_err = None,
     sn_seed_err = None, sn_interp_ok = (\<lambda>h. True), sn_open = (\<lambda>p. FdFailed), sn_insert_ok = (\<lambda>i. True),
     sn_pid = 1, sn_db_dir_ok = True, sn_db_append_ok = True\<rparr>"

definition key_files :: file_system where
  "key_files = (\<lambda>p. FileAbsent)(DEFAULT_KEY_PATH := FileBytes (key_bytes \<lparr>hk0 = 3, hk1 = 4\<rparr>))"

lemma quiet_starts:
  "\<exists>dm fs'. daemon_start rfc4648_engine quiet_start quiet_config sample_kernel key_files sample_fs = (fs', Inr dm)"
  by (simp add: daemon_start_def daemon_setup_def quiet_start_def quiet_config_def config_resolve_def opt_or_def
    unwrap_or_def default_file_config_def key_files_def key_load_or_create_def key_from_key_bytes
    rules_default_def seed_rules_def sample_kernel_def seed_interpreter_inodes_def hashdb_open_def
    DEFAULT_KEY_PATH_def DEFAULT_HASHDB_PATH_def Let_def)

section \<open>The log of a request\<close>

lemma stash_path:
  assumes "stash e tm token target dev ino fs = (fs', Inr s)"
  shows "st_original_path s = target"
proof -
  obtain d base fd st fs1 where "finish_stash e tm token target dev ino d base fd st fs1 = (fs', Inr s)"
    using stash_checked [OF assms] by blast
  then show ?thesis by (auto simp: finish_stash_def Let_def split: if_splits option.splits prod.splits)
qed

text \<open>
  C39: A quarantine request writes the raw path of the blocked file to the log. Whether it succeeds or
  fails, it adds one line, and a newline in the name of the file is in that line as it is, so that
  the part of the name after it reads as a line of its own; the event handler escapes the same path.
\<close>

theorem quarantine_log_is_raw:
  assumes "record_for (blocks (dm_control dm)) token = Some rec" "CHR 0x0A \<in> set (b_target rec)"
  shows "\<exists>l. hs_log (dm_hs (fst (request_quarantine de (Some token) dm))) = hs_log (dm_hs dm) @ [l] \<and>
    CHR 0x0A \<in> set (log_text l)"
proof -
  obtain qf res where r: "stash (de_qenv de) (de_toml de) token (b_target rec) (b_dev rec) (b_ino rec) (dm_qfs dm) =
    (qf, res)" by fastforce
  show ?thesis
  proof (cases res)
    case (Inl e)
    with r assms show ?thesis by (simp add: request_quarantine_def Let_def say_def)
  next
    case (Inr s)
    with stash_path r have "st_original_path s = b_target rec" by blast
    with r Inr assms show ?thesis by (simp add: request_quarantine_def Let_def say_def resolve_token_def)
  qed
qed

definition forged_rec :: block_record where
  "forged_rec = \<lparr>b_token = ''t'', b_kind = ''exec'', b_rule_line = ''creator_uid=7'',
     b_target = ''/tmp/x'' @ [CHR 0x0A] @ ''PROVENANCE-EXEC'', b_creator = ''curl'', b_dev = 1, b_ino = 3\<rparr>"

theorem quarantine_log_is_raw_witness:
  "\<exists>l. hs_log (dm_hs (fst (request_quarantine curl_env (Some ''t'')
      (curl_daemon\<lparr>dm_control := (dm_control curl_daemon)\<lparr>blocks := (blocks_new 1 2)\<lparr>bt_map := [''t'' \<mapsto> forged_rec]\<rparr>\<rparr>\<rparr>))))
      = [l] \<and> CHR 0x0A \<in> set (log_text l)"
proof -
  let ?dm = "curl_daemon\<lparr>dm_control := (dm_control curl_daemon)\<lparr>blocks := (blocks_new 1 2)\<lparr>bt_map := [''t'' \<mapsto> forged_rec]\<rparr>\<rparr>\<rparr>"
  have "record_for (blocks (dm_control ?dm)) ''t'' = Some forged_rec" "CHR 0x0A \<in> set (b_target forged_rec)"
    by (simp_all add: record_for_def forged_rec_def)
  moreover have "hs_log (dm_hs ?dm) = []" by (simp add: curl_daemon_def sample_handler_def)
  ultimately show ?thesis using quarantine_log_is_raw [of ?dm "''t''" forged_rec curl_env] by simp
qed

section \<open>The ring buffer\<close>

fun wakes :: "daemon_env \<Rightarrow> mode \<Rightarrow> nat \<Rightarrow> ring_item list \<Rightarrow> daemon \<Rightarrow> daemon \<times> ring_item list" where
  "wakes de md 0 ring dm = (dm, ring)"
| "wakes de md (Suc n) ring dm =
    (case loop_step de md RingReadable ring dm of
       Some (dm, ring) \<Rightarrow> wakes de md n ring dm | None \<Rightarrow> (dm, ring))"

lemma wakes_fold:
  "wakes de md n ring dm = (fold (handle_item de md) (take (n * DRAIN_BUDGET) ring) dm, drop (n * DRAIN_BUDGET) ring)"
proof (induction n arbitrary: ring dm)
  case (Suc n)
  have "take (DRAIN_BUDGET + n * DRAIN_BUDGET) ring = take DRAIN_BUDGET ring @ take (n * DRAIN_BUDGET) (drop DRAIN_BUDGET ring)"
    by (rule take_add)
  then show ?case using Suc by (simp add: loop_step_def drain_fold add.commute [of "n * DRAIN_BUDGET"])
qed simp

lemma enough_wakes: "length ring \<le> (length ring div 256 + 1) * 256"
  using dividend_less_div_times [of 256 "length ring"] by (simp add: add_mult_distrib)

text \<open>
  C28: The ring buffer is emptied, in order. One wake-up handles at most 256 entries and then gives the
  other branches their turn; entries are handled one after another as they came, each once, whatever the
  turns they fall into, and after one wake-up per started 256 entries nothing is left.
\<close>

theorem ring_is_emptied:
  "wakes de md n ring dm = (fold (handle_item de md) (take (n * 256) ring) dm, drop (n * 256) ring) \<and>
    wakes de md (length ring div 256 + 1) ring dm = (fold (handle_item de md) ring dm, [])"
  using enough_wakes [of ring] by (simp add: wakes_fold DRAIN_BUDGET_def)

end
