(* ===== verification/Ring.thy ===== *)
theory Ring
  imports Kernel_Steps Daemon_Props
begin

text \<open>
  The ring buffer between the kernel and the daemon: the bytes of an event as \<open>linprov-common/src/lib.rs\<close>
  lays it out, what \<open>handler.rs\<close> reads from them, and what the handling of an entry that the kernel wrote
  keeps. The kernel writes the name of the file over a zeroed slot, so the bytes after it are NUL.
\<close>

section \<open>The bytes of an event\<close>

definition pad_path :: "bytes \<Rightarrow> bytes" where
  "pad_path p = take EXEC_PATH_LEN (p @ replicate EXEC_PATH_LEN NUL)"

definition bytes_of_event :: "event \<Rightarrow> bytes" where
  "bytes_of_event ev =
     to_le_bytes 4 (unat (e_kind ev)) @ to_le_bytes 4 (unat (e_pid ev)) @
     to_le_bytes 4 (unat (e_tgid ev)) @ to_le_bytes 4 (unat (e_status ev)) @
     e_comm ev @ bytes_of_origin (e_origin ev) @ pad_path (e_filename ev)"

lemma length_pad_path [simp]: "length (pad_path p) = EXEC_PATH_LEN"
  by (simp add: pad_path_def)

lemma takeWhile_nul: "takeWhile (\<lambda>b. b \<noteq> NUL) (take n (p @ replicate m NUL)) = takeWhile (\<lambda>b. b \<noteq> NUL) (take n p)"
proof (induction p arbitrary: n)
  case Nil
  show ?case by (cases "min n m") simp_all
next
  case (Cons b p)
  then show ?case by (cases n) simp_all
qed

lemma c_str_pad_path: "c_str (pad_path p) = c_str (take EXEC_PATH_LEN p)"
  by (simp only: pad_path_def c_str_def takeWhile_nul)

lemma event_ok_sizes:
  assumes "event_ok ev"
  shows "length (e_comm ev) = 16" "length (bytes_of_origin (e_origin ev)) = 320"
    "origin_of_bytes (bytes_of_origin (e_origin ev)) = e_origin ev"
  using assms length_bytes_of_origin origin_bytes_roundtrip_aux
  by (simp_all add: event_ok_def record_ok_def size_consts)

lemma length_bytes_of_event: "event_ok ev \<Longrightarrow> length (bytes_of_event ev) = EVENT_SIZE"
  using event_ok_sizes [of ev] by (simp add: bytes_of_event_def EVENT_SIZE_def)

text \<open>What is read is what was written, with the name of the file padded.\<close>

lemma event_of_bytes_of_event:
  assumes "event_ok ev"
  shows "event_of_bytes (bytes_of_event ev) = ev\<lparr>e_filename := pad_path (e_filename ev)\<rparr>"
  using event_ok_sizes [OF assms]
  by (intro event.equality) (simp_all add: event_of_bytes_def bytes_of_event_def field_at_def)

lemma event_ok_pad [simp]: "event_ok (ev\<lparr>e_filename := p\<rparr>) \<longleftrightarrow> event_ok ev"
  by (simp add: event_ok_def)

text \<open>An entry of the kernel is never too short, and its kind is known.\<close>

definition sound_entry :: "ring_item \<Rightarrow> bool" where
  "sound_entry it \<longleftrightarrow> (\<exists>ev. event_ok ev \<and> fst it = bytes_of_event ev)"

lemma handle_sound_entry:
  assumes "event_ok ev"
  shows "handle_event E h md c (bytes_of_event ev) st =
    (case c of
       Some e \<Rightarrow> st\<lparr>hs_log := hs_log st @ [Warn (''failed to cast ring-buf record to Event: '' @ e)]\<rparr>
     | None \<Rightarrow> dispatch_event E h md (ev\<lparr>e_filename := pad_path (e_filename ev)\<rparr>) st)"
  using length_bytes_of_event [OF assms] event_of_bytes_of_event [OF assms]
  by (simp add: handle_event_def split: option.split)

section \<open>What the kernel appends\<close>

text \<open>The hooks only ever append to the ring.\<close>

definition appends :: "kernel \<Rightarrow> kernel \<Rightarrow> bool" where
  "appends k k' \<longleftrightarrow> (\<exists>evs. EVENTS k' = EVENTS k @ evs)"

lemma appends_refl [simp]: "EVENTS k' = EVENTS k \<Longrightarrow> appends k k'"
  by (simp add: appends_def)

lemma appends_trans: "appends k k' \<Longrightarrow> appends k' k'' \<Longrightarrow> appends k k''"
  by (auto simp: appends_def)

lemma emit_appends: "EVENTS h = EVENTS k \<Longrightarrow> appends k (emit_event e kd p r st h)"
  by (simp add: appends_def emit_event_def)

lemma gate_read_appends:
  assumes "gate_read e rec k = (k', v)"
  shows "appends k k'"
proof -
  obtain permit ks where s: "script_permit e rec k = (permit, ks)" by fastforce
  have "EVENTS ks = EVENTS k" using script_permit_same [OF s] by simp
  then show ?thesis
    using assms s by (auto simp: gate_read_def Let_def taint_def emit_event_def appends_def split: if_splits)
qed

lemma file_open_appends: "appends k (fst (file_open e fp k))"
proof -
  have "appends k (fst (file_open_read e fl k))" for fl
  proof -
    have "appends k k'" if "load_mark e ino (note_copy e fl ino k) = Some (rec, k1)" "gate_read e rec k1 = (k', v)" for ino rec k1 k' v
      using load_mark_same [OF that(1)] gate_read_appends [OF that(2)] by (simp add: appends_def)
    then show ?thesis
      by (auto simp: file_open_read_def Let_def split: option.split) (metis prod.collapse)
  qed
  moreover have "appends k (fst (file_open_write e fl k))" for fl
    by (auto simp: file_open_write_def Let_def emit_event_def appends_def split: option.split prod.split)
  ultimately show ?thesis by (simp add: file_open_def split: option.split)
qed

lemma kstep_appends: "kstep l k k' \<Longrightarrow> appends k k'"
proof (induction rule: kstep.induct)
  case (connect e rv a k k' v)
  then show ?case by (auto simp: socket_connect_def Let_def split: if_splits option.splits)
next
  case (opened e fp k k' v)
  then show ?case using file_open_appends [of k e fp] by simp
next
  case (check e rv b k k' v)
  then show ?case by (auto simp: bprm_check_security_def Let_def appends_def split: if_splits option.splits)
next
  case (committed e b k k' v)
  then show ?case by (auto simp: bprm_committed_creds_def Let_def split: option.splits)
next
  case (exited e k k' v)
  then show ?case using exit_frame by simp
qed simp_all

section \<open>Records\<close>

text \<open>Both stores of records that the handler writes: inode storage and the xattrs.\<close>

definition xattr_ok :: "bytes \<Rightarrow> bool" where
  "xattr_ok v \<longleftrightarrow> (\<exists>r. record_ok r \<and> v = bytes_of_origin r)"

definition stores_ok :: "handler_state \<Rightarrow> bool" where
  "stores_ok st \<longleftrightarrow> (\<forall>r \<in> ran (hs_marks st). record_ok r) \<and> (\<forall>v \<in> ran (hs_xattrs st). xattr_ok v)"

lemma augment_ok: "record_ok (e_origin ev) \<Longrightarrow> record_ok (snd (augment E h ev derived D))"
  by (simp add: augment_eq [OF refl] landed_by_def record_ok_def record_shape_def ancestor_hashes_def size_consts)

lemma on_file_marked_ok:
  assumes "stores_ok st" "record_ok (e_origin ev)"
  shows "stores_ok (on_file_marked E h ev derived st)"
proof -
  obtain D r where a: "augment E h ev derived (hs_db st) = (D, r)" by fastforce
  with augment_ok [OF assms(2)] have r: "record_ok r" by (metis snd_conv)
  then have "xattr_ok (bytes_of_origin r)" by (auto simp: xattr_ok_def)
  then have "stores_ok (st\<lparr>hs_db := D, hs_xattrs := set_origin_xattr h i (bytes_of_origin r) (hs_xattrs st),
      hs_marks := backfill h i r (hs_marks st)\<rparr>)" for i
    using assms(1) r ran_update [of "hs_marks st" i r] ran_update [of "hs_xattrs st" i "bytes_of_origin r"]
    by (auto simp: stores_ok_def set_origin_xattr_def backfill_def)
  moreover have "stores_ok (st\<lparr>hs_db := D\<rparr>)" using assms(1) by (simp add: stores_ok_def)
  ultimately show ?thesis using assms(1) a by (simp add: on_file_marked_def Let_def split: option.split)
qed

text \<open>An execution leaves both stores alone.\<close>

lemma exec_stores:
  "hs_marks (on_execve_marked E h md ev st) = hs_marks st" "hs_xattrs (on_execve_marked E h md ev st) = hs_xattrs st"
  "hs_marks (on_script_exec E h md ev st) = hs_marks st" "hs_xattrs (on_script_exec E h md ev st) = hs_xattrs st"
  by (simp_all add: on_execve_marked_def on_script_exec_def record_block_token_def maybe_soak_def Let_def case_prod_beta
    split: option.split)

lemma stores_ok_cong: "hs_marks st' = hs_marks st \<Longrightarrow> hs_xattrs st' = hs_xattrs st \<Longrightarrow> stores_ok st' = stores_ok st"
  by (simp add: stores_ok_def)

lemma dispatch_ok:
  assumes "stores_ok st" "record_ok (e_origin ev)"
  shows "stores_ok (dispatch_event E h md ev st)"
  using assms on_file_marked_ok stores_ok_cong [OF exec_stores(1,2)] stores_ok_cong [OF exec_stores(3,4)]
    stores_ok_cong [of "st\<lparr>hs_log := l\<rparr>" st for l]
  by (simp add: dispatch_event_def)

lemma handle_sound_ok:
  assumes "stores_ok st" "sound_entry it"
  shows "stores_ok (handle_event E h md (snd it) (fst it) st)"
proof -
  obtain ev where ev: "event_ok ev" "fst it = bytes_of_event ev" using assms(2) by (auto simp: sound_entry_def)
  have "record_ok (e_origin ev)" using ev(1) by (simp add: event_ok_def)
  then have "stores_ok (dispatch_event E h md (ev\<lparr>e_filename := pad_path (e_filename ev)\<rparr>) st)"
    using assms(1) dispatch_ok by simp
  then show ?thesis using assms(1) ev by (simp add: handle_sound_entry stores_ok_def split: option.split)
qed

definition records_inv :: "daemon \<Rightarrow> bool" where
  "records_inv dm \<longleftrightarrow> kernel_inv (dm_kernel dm) \<and> (\<forall>v \<in> ran (hs_xattrs (dm_hs dm)). xattr_ok v)"

lemma records_item:
  assumes "sound_entry it" "records_inv dm"
  shows "records_inv (handle_item de md it dm)"
proof -
  have "stores_ok (handler_view dm)"
    using assms(2) by (simp add: stores_ok_def records_inv_def kernel_inv_def handler_view_def)
  from handle_sound_ok [OF this assms(1)] assms(2) show ?thesis
    by (simp add: handle_item_def after_handler_def records_inv_def kernel_inv_def stores_ok_def)
qed

lemma reseed_keeps_records: "records_inv dm \<Longrightarrow> records_inv (fst (reseed_from_control de dm))"
  by (simp add: reseed_from_control_def seed_rules_def records_inv_def kernel_inv_def Let_def split: sum.split prod.split)

interpretation records: loop_invariant E records_inv sound_entry for E
  by unfold_locales
    (simp_all add: records_item reseed_keeps_records, simp_all add: records_inv_def resolve_token_def say_def)

section \<open>Denials\<close>

text \<open>What the daemon does with a denial: one line of the log, one message, and the block is pending.\<close>

definition block_pending :: "string \<Rightarrow> string \<Rightarrow> string \<Rightarrow> daemon \<Rightarrow> bool" where
  "block_pending kind target token dm \<longleftrightarrow>
    (\<exists>rec. record_for (blocks (dm_control dm)) token = Some rec \<and> b_target rec = target) \<and>
    (\<exists>b bs. hs_sent (dm_hs dm) = bs @ [Block b] \<and> be_kind b = kind \<and> be_token b = token \<and> be_target b = target)"

lemma record_block_pends:
  assumes "record_block_token E h kind ev st = (st', token)"
  shows "\<exists>rec. record_for (hs_blocks st') token = Some rec \<and> b_target rec = c_str_to_string (e_filename ev)"
    "\<exists>b. hs_sent st' = hs_sent st @ [Block b] \<and> be_kind b = kind \<and> be_token b = token \<and>
      be_target b = c_str_to_string (e_filename ev)"
  using assms
  by (auto simp: record_block_token_def event_ctx_def record_for_def blocks_record_def Let_def split: prod.splits option.splits)

lemma denied_event_pends:
  assumes "event_ok ev" "e_status ev \<noteq> 0"
  shows "\<exists>token l. token = block_token (blocks (dm_control dm)) (to_line (de_b64 de) (rule_from_context
      (event_ctx (de_henv de) (ev\<lparr>e_filename := pad_path (e_filename ev)\<rparr>) (hs_db (dm_hs dm))) ALLOW_DIMS)) \<and>
    block_pending (if e_kind ev = EVENT_KIND_EXECVE then ''exec'' else ''script'')
      (c_str_to_string (take EXEC_PATH_LEN (e_filename ev))) token (handle_item de md (bytes_of_event ev, None) dm) \<and>
    hs_log (dm_hs (handle_item de md (bytes_of_event ev, None) dm)) = hs_log (dm_hs dm) @
      [Warn (l @ verdict_text ev token)]"
proof -
  let ?ev = "ev\<lparr>e_filename := pad_path (e_filename ev)\<rparr>"
  let ?kind = "if e_kind ev = EVENT_KIND_EXECVE then ''exec'' else ''script''"
  have target: "c_str_to_string (pad_path (e_filename ev)) = c_str_to_string (take EXEC_PATH_LEN (e_filename ev))"
    by (simp add: c_str_to_string_def c_str_pad_path)
  have kind: "e_kind ev = EVENT_KIND_EXECVE \<or> e_kind ev = EVENT_KIND_SCRIPT_EXEC"
    using assms by (auto simp: event_ok_def)
  obtain st' token where r: "record_block_token (de_b64 de) (de_henv de) ?kind ?ev (handler_view dm) = (st', token)"
    by fastforce
  note pend = record_block_pends [OF r]
  have log: "hs_log st' = hs_log (dm_hs dm)" using record_block_token_eq(1) [OF r] by (simp add: handler_view_def)
  have tok: "token = block_token (blocks (dm_control dm)) (to_line (de_b64 de) (rule_from_context
      (event_ctx (de_henv de) ?ev (hs_db (dm_hs dm))) ALLOW_DIMS))"
    using record_block_token_eq(2) [OF r] by (simp add: handler_view_def)
  have "\<exists>l. dispatch_event (de_b64 de) (de_henv de) md ?ev (handler_view dm) =
      st'\<lparr>hs_log := hs_log st' @ [Warn (l @ verdict_text ev token)]\<rparr>"
  proof
    let ?ctx = "event_ctx (de_henv de) ?ev (hs_db (handler_view dm))"
    let ?l = "if e_kind ev = EVENT_KIND_EXECVE then ''BLOCKED-EXEC'' @ exec_text ?ev ?ctx else ''BLOCKED-SCRIPT'' @ script_text ?ev ?ctx"
    have v: "verdict_text ?ev token = verdict_text ev token" by (simp add: verdict_text_def)
    show "dispatch_event (de_b64 de) (de_henv de) md ?ev (handler_view dm) =
      st'\<lparr>hs_log := hs_log st' @ [Warn (?l @ verdict_text ev token)]\<rparr>"
      using kind assms(2) r
      by (elim disjE) (simp_all add: dispatch_event_def on_execve_marked_def on_script_exec_def v Let_def)
  qed
  then obtain l where d: "dispatch_event (de_b64 de) (de_henv de) md ?ev (handler_view dm) =
      st'\<lparr>hs_log := hs_log st' @ [Warn (l @ verdict_text ev token)]\<rparr>" by blast
  show ?thesis
    using pend log d target tok
    by (intro exI [of _ token] exI [of _ l]) (auto simp: handle_item_def handle_sound_entry [OF assms(1)] after_handler_def block_pending_def handler_view_def)
qed

text \<open>
  Which denials the kernel reports: every denied execution, as its entry is reserved before the decision,
  and every denied open for which there was room.
\<close>

lemma exec_denial_event:
  assumes "bprm_check_security e 0 bprm k = (k', v)" "v \<noteq> 0"
  shows "\<exists>ev. EVENTS k' = EVENTS k @ [ev] \<and> e_kind ev = EVENT_KIND_EXECVE \<and> e_status ev = v \<and> e_filename ev = d_path e []"
  using assms by (auto simp: bprm_check_security_def Let_def split: option.splits if_splits)

lemma open_denial_event:
  assumes "file_open e fp k = (k', v)" "v \<noteq> 0" "reserve_ok e"
  shows "\<exists>ev. EVENTS k' = EVENTS k @ [ev] \<and> e_kind ev = EVENT_KIND_SCRIPT_EXEC \<and> e_status ev = v \<and> e_filename ev = d_path e []"
proof -
  obtain fl where fp: "fp = Some fl" using assms by (cases fp) (simp_all add: file_open_def)
  note den = file_open_denied [OF assms(1) [unfolded fp] assms(2)]
  then obtain ino rec k1 where ino: "f_inode fl = Some ino"
    and m: "load_mark e ino (note_copy e fl ino k) = Some (rec, k1)" by blast
  have g: "gate_read e rec k1 = (k', v)"
    using assms(1,2) fp den ino m by (auto simp: file_open_def file_open_read_def Let_def split: if_splits)
  obtain permit ks where s: "script_permit e rec k1 = (permit, ks)" by fastforce
  have "EVENTS ks = EVENTS k" using script_permit_same [OF s] load_mark_same [OF m] by simp
  then show ?thesis
    using g s assms(2,3) by (auto simp: gate_read_def Let_def emit_event_def taint_def split: if_splits)
qed

end
