(* ===== verification/Clients.thy ===== *)
theory Clients
  imports Daemon
begin

text \<open>
  The programs on the other side of the control socket: the tray agent (\<open>linprov/src/notify.rs\<close>), the
  review window (\<open>linprov/src/review.rs\<close>), \<open>linprov allow\<close> (\<open>linprov/src/allow.rs\<close>) and the command
  line of \<open>linprov/src/quarantine.rs\<close>.

  What a connection returns is an argument: the bytes of the reply, or \<open>None\<close> when connecting, writing
  or reading failed. The tray and window libraries are left out; what the code hands to them (menu
  entries, tool tip, status, notifications) is a value.
\<close>

section \<open>What the daemon writes back\<close>

text \<open>
  The bytes of an answer; \<open>msg\<close> prints the error chain of a failed request, to which a suspected
  tamper adds its marker.
\<close>

definition reply_bytes :: "(request_error \<Rightarrow> string) \<Rightarrow> conn_reply \<Rightarrow> bytes" where
  "reply_bytes msg r =
    (case r of
       NoReply \<Rightarrow> []
     | Text s \<Rightarrow> s
     | Subscribed \<Rightarrow> stream_blocks []
     | Answer (Inr rule) \<Rightarrow> ''OK '' @ rule @ [CHR 0x0A]
     | Answer (Inl e) \<Rightarrow>
         ''ERR '' @ (case e of PossibleTamper c \<Rightarrow> TAMPER_MARKER @ '' '' @ msg e | _ \<Rightarrow> msg e) @ [CHR 0x0A])"

text \<open>One request answered by the daemon.\<close>

definition ask :: "daemon_env \<Rightarrow> (request_error \<Rightarrow> string) \<Rightarrow> bytes \<Rightarrow> daemon \<Rightarrow> daemon \<times> bytes" where
  "ask de msg req dm =
    (case handle_control_conn de (ConnBytes req) dm of (dm, r) \<Rightarrow> (dm, reply_bytes msg r))"

text \<open>\<open>splitn\<close>: at most \<open>n\<close> pieces, the last with the rest.\<close>

fun str_splitn :: "nat \<Rightarrow> char \<Rightarrow> string \<Rightarrow> string list" where
  "str_splitn 0 c s = []"
| "str_splitn (Suc 0) c s = [s]"
| "str_splitn (Suc (Suc n)) c s =
    (case str_split_once c s of None \<Rightarrow> [s] | Some (a, b) \<Rightarrow> a # str_splitn (Suc n) c b)"

text \<open>\<open>read_to_string\<close> and \<open>trim\<close>; bytes that are not UTF-8 are an error.\<close>

definition read_reply :: "bytes option \<Rightarrow> string option" where
  "read_reply r = (case r of Some bs \<Rightarrow> if utf8_valid bs then Some (str_trim bs) else None | None \<Rightarrow> None)"

section \<open>Tray agent\<close>

definition MAX_RECENT :: nat where "MAX_RECENT = 20"

record recent_block =
  rb_token :: string
  rb_kind :: string
  rb_target :: string
  rb_creator :: string

datatype action_kind = Once | Always | Quarantine | Dismiss

record action =
  ac_kind :: action_kind
  ac_token :: string
  ac_target :: string

record linprov_tray =
  recent :: "recent_block list"
  tx :: "action list"
  connected :: bool

definition tray_new :: linprov_tray where
  "tray_new = \<lparr>recent = [], tx = [], connected = False\<rparr>"

definition tray_push :: "recent_block \<Rightarrow> linprov_tray \<Rightarrow> linprov_tray" where
  "tray_push b t =
    t\<lparr>recent := take MAX_RECENT (b # filter (\<lambda>x. rb_token x \<noteq> rb_token b) (recent t))\<rparr>"

definition tray_retain :: "string \<Rightarrow> linprov_tray \<Rightarrow> linprov_tray" where
  "tray_retain token t = t\<lparr>recent := filter (\<lambda>x. rb_token x \<noteq> token) (recent t)\<rparr>"

definition tray_dispatch :: "action_kind \<Rightarrow> string \<Rightarrow> linprov_tray \<Rightarrow> linprov_tray" where
  "tray_dispatch kind token t =
    (let t = (case find (\<lambda>x. rb_token x = token) (recent t) of
                Some b \<Rightarrow> t\<lparr>tx := tx t @ [\<lparr>ac_kind = kind, ac_token = token, ac_target = rb_target b\<rparr>]\<rparr>
              | None \<Rightarrow> t)
     in tray_retain token t)"

datatype launch_error = NoDisplay | NoExe | LaunchFailed

definition launch_review :: "bool \<Rightarrow> bool \<Rightarrow> bool \<Rightarrow> bool \<Rightarrow> launch_error option" where
  "launch_review wayland display exe_ok spawn_ok =
    (if \<not> wayland \<and> \<not> display then Some NoDisplay
     else if \<not> exe_ok then Some NoExe
     else if \<not> spawn_ok then Some LaunchFailed
     else None)"

fun launch_text :: "launch_error \<Rightarrow> string" where
  "launch_text NoDisplay =
    ''no WAYLAND_DISPLAY/DISPLAY in the tray agent's environment, so the review window can't open. '' @
    ''Import it into the systemd user manager and restart the agent: `systemctl --user import-environment '' @
    ''WAYLAND_DISPLAY DISPLAY && systemctl --user restart linprov-notify.service`.''"
| "launch_text NoExe = ''locating the linprov binary''"
| "launch_text LaunchFailed = ''launching `linprov review`''"

definition plural :: "nat \<Rightarrow> string" where
  "plural n = (if n = 1 then [] else ''s'')"

text \<open>Body and icon of the fallback notification, \<open>None\<close> when the window was started.\<close>

definition tray_activate :: "launch_error option \<Rightarrow> linprov_tray \<Rightarrow> (string \<times> string) option" where
  "tray_activate res t =
    map_option (\<lambda>e.
      (if recent t = [] then ''No pending blocks.''
       else let n = length (recent t) in
         show_radix 10 n @ '' pending decision'' @ plural n @
         ''. Right-click this icon for Allow / Quarantine / Dismiss.'' @ [CHR 0x0A] @
         ''(review window unavailable: '' @ launch_text e @ '')'',
       if recent t = [] then ''security-high'' else ''security-low'')) res"

datatype tray_status = Active | NeedsAttention

definition tray_status_of :: "linprov_tray \<Rightarrow> tray_status" where
  "tray_status_of t = (if recent t = [] then Active else NeedsAttention)"

definition tool_tip :: "linprov_tray \<Rightarrow> string" where
  "tool_tip t =
    (if \<not> connected t then
       ''not connected to the linprov daemon (is linprov.service running with notifications = '' @
       [CHR 0x22] @ ''tray'' @ [CHR 0x22] @ ''?)''
     else if recent t = [] then ''no pending blocks''
     else let n = length (recent t) in
       show_radix 10 n @ '' pending decision'' @ plural n @ '' '' @ EM_DASH @
       '' right-click the icon to allow or dismiss'')"

definition client_basename :: "string \<Rightarrow> string" where
  "client_basename path = (case str_rsplit_once SLASH path of Some (_, b) \<Rightarrow> b | None \<Rightarrow> path)"

datatype menu_item = Disabled string | SubMenu string "(string \<times> action_kind \<times> string) list" | Separator | Quit string

definition MIDDLE_DOT :: string where "MIDDLE_DOT = [CHR 0xC2, CHR 0xB7]"

definition block_menu :: "recent_block \<Rightarrow> menu_item" where
  "block_menu b =
    SubMenu (client_basename (rb_target b) @ '' '' @ MIDDLE_DOT @ '' '' @ rb_creator b)
      [(''Allow once'', Once, rb_token b), (''Allow always'', Always, rb_token b),
       (''Quarantine'', Quarantine, rb_token b), (''Dismiss'', Dismiss, rb_token b)]"

definition tray_menu :: "linprov_tray \<Rightarrow> menu_item list" where
  "tray_menu t =
    (if recent t = [] then [Disabled ''No recent blocks''] else map block_menu (recent t)) @
    [Separator, Quit ''Quit linprov tray'']"

text \<open>\<open>gid\<close> of the group \<open>linprov\<close> and the text of \<open>/proc/self/status\<close>.\<close>

fun group_line :: "u32 \<Rightarrow> string list \<Rightarrow> bool" where
  "group_line gid [] = False"
| "group_line gid (l # ls) =
    (case str_strip_prefix ''Groups:'' l of
       Some rest \<Rightarrow> \<not> list_ex (\<lambda>g. parse_u32 g = Some gid) (str_split_whitespace rest)
     | None \<Rightarrow> group_line gid ls)"

definition lacks_linprov_group :: "u32 option \<Rightarrow> bytes option \<Rightarrow> bool" where
  "lacks_linprov_group gid status =
    (case gid of
       None \<Rightarrow> False
     | Some g \<Rightarrow>
        (case status of
           None \<Rightarrow> False
         | Some s \<Rightarrow> if utf8_valid s then group_line g (str_lines s) else False))"

subsection \<open>Reading the socket\<close>

definition entry_block :: "string list \<Rightarrow> recent_block option" where
  "entry_block fs =
    (case fs of
       f0 # token # kind # target # creator # _ \<Rightarrow>
         if f0 = ''ENTRY'' then Some \<lparr>rb_token = token, rb_kind = kind, rb_target = target, rb_creator = creator\<rparr>
         else None
     | _ \<Rightarrow> None)"

fun list_lines :: "string option list \<Rightarrow> recent_block list option" where
  "list_lines [] = Some []"
| "list_lines (None # ls) = None"
| "list_lines (Some l # ls) =
    (if l = ''END'' then Some []
     else case entry_block (str_splitn 6 TAB l) of
       None \<Rightarrow> list_lines ls
     | Some b \<Rightarrow> map_option ((#) b) (list_lines ls))"

definition list_pending :: "bytes option \<Rightarrow> recent_block list option" where
  "list_pending reply = (case reply of None \<Rightarrow> None | Some bs \<Rightarrow> list_lines (read_lines bs))"

definition parse_block :: "string \<Rightarrow> recent_block option" where
  "parse_block line =
    (case str_split TAB line of
       f0 # token # kind # target # rest \<Rightarrow>
         if f0 = ''BLOCK'' then Some \<lparr>rb_token = token, rb_kind = kind, rb_target = target,
           rb_creator = (case rest of [] \<Rightarrow> [] | c # _ \<Rightarrow> c)\<rparr>
         else None
     | _ \<Rightarrow> None)"

text \<open>One line of the subscribed stream: the tray after it and the block to notify about.\<close>

definition stream_line :: "string \<Rightarrow> linprov_tray \<Rightarrow> linprov_tray \<times> recent_block option" where
  "stream_line l t =
    (case str_strip_prefix (''RESOLVED'' @ [TAB]) l of
       Some token \<Rightarrow> (tray_retain token t, None)
     | None \<Rightarrow>
        (case parse_block l of
           Some b \<Rightarrow> (tray_push b t, Some b)
         | None \<Rightarrow> (t, None)))"

datatype subscribe_error = SubConnectFailed | SubWriteFailed | SubReadFailed | SubClosed

fun follow_stream :: "string option list \<Rightarrow> linprov_tray \<Rightarrow> linprov_tray \<times> recent_block list \<times> subscribe_error" where
  "follow_stream [] t = (t, [], SubClosed)"
| "follow_stream (None # ls) t = (t, [], SubReadFailed)"
| "follow_stream (Some l # ls) t =
    (case stream_line l t of (t, nb) \<Rightarrow>
     case follow_stream ls t of (t, ns, e) \<Rightarrow> (t, (case nb of Some b \<Rightarrow> b # ns | None \<Rightarrow> ns), e))"

definition subscribe_once ::
    "bool \<Rightarrow> bool \<Rightarrow> bytes option \<Rightarrow> string option list \<Rightarrow> linprov_tray \<Rightarrow>
      linprov_tray \<times> recent_block list \<times> subscribe_error" where
  "subscribe_once connect_ok write_ok reply stream t =
    (if \<not> connect_ok then (t, [], SubConnectFailed)
     else if \<not> write_ok then (t, [], SubWriteFailed)
     else let t = t\<lparr>connected := True\<rparr>;
              t = (case list_pending reply of Some bs \<Rightarrow> fold tray_push bs t | None \<Rightarrow> t)
       in follow_stream stream t)"

text \<open>One turn of \<open>subscribe_loop\<close>.\<close>

definition subscribe_turn ::
    "bool \<Rightarrow> bool \<Rightarrow> bytes option \<Rightarrow> string option list \<Rightarrow> linprov_tray \<Rightarrow> linprov_tray" where
  "subscribe_turn connect_ok write_ok reply stream t =
    (fst (subscribe_once connect_ok write_ok reply stream t))\<lparr>connected := False\<rparr>"

subsection \<open>Acting on a click\<close>

fun action_verb :: "action_kind \<Rightarrow> string" where
  "action_verb Once = ''once''"
| "action_verb Always = ''allow''"
| "action_verb Quarantine = ''quarantine''"
| "action_verb Dismiss = ''dismiss''"

definition command_bytes :: "string \<Rightarrow> string \<Rightarrow> bytes" where
  "command_bytes verb token = verb @ '' '' @ token @ [CHR 0x0A]"

fun str_contains :: "string \<Rightarrow> string \<Rightarrow> bool" where
  "str_contains p [] \<longleftrightarrow> p = []"
| "str_contains p (c # s) \<longleftrightarrow> str_starts_with p (c # s) \<or> str_contains p s"

record notification =
  nt_summary :: string
  nt_body :: string
  nt_critical :: bool

definition WARNING_SIGN :: string where "WARNING_SIGN = [CHR 0xE2, CHR 0x9A, CHR 0xA0]"

definition notify_result :: "action_kind \<Rightarrow> string \<Rightarrow> bool \<Rightarrow> string \<Rightarrow> notification" where
  "notify_result kind target ok detail =
    (let tamper = (\<not> ok \<and> kind = Quarantine \<and> str_contains TAMPER_MARKER detail);
         summary =
           (case kind of
              Quarantine \<Rightarrow>
                if ok then ''linprov: quarantined''
                else if tamper then WARNING_SIGN @ '' linprov: POSSIBLE TAMPER '' @ EM_DASH @ '' quarantine failed''
                else ''linprov: quarantine failed''
            | Dismiss \<Rightarrow> ''linprov: dismissed''
            | _ \<Rightarrow> if ok then ''linprov: allowed'' else ''linprov: allow failed'')
     in \<lparr>nt_summary = summary, nt_body = target @ [CHR 0x0A] @ detail, nt_critical = tamper\<rparr>)"

definition notify_block :: "recent_block \<Rightarrow> notification" where
  "notify_block b =
    \<lparr>nt_summary = ''linprov blocked an exec'',
     nt_body = rb_target b @ [CHR 0x0A] @ rb_kind b @ '' '' @ MIDDLE_DOT @ '' created by '' @ rb_creator b @
       [CHR 0x0A] @ ''Right-click the linprov tray icon to allow.'',
     nt_critical = False\<rparr>"

text \<open>What the worker shows for one click; \<open>err\<close> is the text of a failed exchange.\<close>

definition action_result :: "bytes option \<Rightarrow> string \<Rightarrow> action \<Rightarrow> notification" where
  "action_result reply err a =
    (case read_reply reply of
       Some r \<Rightarrow> notify_result (ac_kind a) (ac_target a) (str_strip_prefix ''OK '' r \<noteq> None) r
     | None \<Rightarrow> notify_result (ac_kind a) (ac_target a) False err)"

section \<open>Review window\<close>

record comp =
  cp_dim :: dim
  cp_value :: string
  cp_checked :: bool

record review_row =
  rw_token :: string
  rw_kind :: string
  rw_target :: string
  rw_creator :: string
  rw_selected :: bool
  rw_comps :: "comp list"
  rw_status :: "string option"
  rw_done :: bool

datatype review_action = ReviewOnce | ReviewAlways | ReviewQuarantine | ReviewDismiss

record review_app =
  ra_rows :: "review_row list"
  ra_banner :: "string option"

definition row_comps :: "b64_engine \<Rightarrow> string \<Rightarrow> comp list" where
  "row_comps E rule_line =
    (case rule_parse E rule_line of
       Inr spec \<Rightarrow> map (\<lambda>(d, v). \<lparr>cp_dim = d, cp_value = v, cp_checked = True\<rparr>) (components spec)
     | Inl e \<Rightarrow> [])"

definition entry_row :: "b64_engine \<Rightarrow> string list \<Rightarrow> review_row option" where
  "entry_row E fs =
    (case fs of
       f0 # token # kind # target # creator # rule_line # _ \<Rightarrow>
         if f0 = ''ENTRY'' then
           Some \<lparr>rw_token = token, rw_kind = kind, rw_target = target, rw_creator = creator,
             rw_selected = True, rw_comps = row_comps E rule_line, rw_status = None, rw_done = False\<rparr>
         else None
     | _ \<Rightarrow> None)"

fun row_lines :: "b64_engine \<Rightarrow> string option list \<Rightarrow> review_row list option" where
  "row_lines E [] = Some []"
| "row_lines E (None # ls) = None"
| "row_lines E (Some l # ls) =
    (if l = ''END'' then Some []
     else case entry_row E (str_splitn 6 TAB l) of
       None \<Rightarrow> row_lines E ls
     | Some r \<Rightarrow> map_option ((#) r) (row_lines E ls))"

definition fetch_pending :: "b64_engine \<Rightarrow> bytes option \<Rightarrow> review_row list option" where
  "fetch_pending E reply = (case reply of None \<Rightarrow> None | Some bs \<Rightarrow> row_lines E (read_lines bs))"

definition review_refresh :: "b64_engine \<Rightarrow> bytes option \<Rightarrow> string \<Rightarrow> review_app \<Rightarrow> review_app" where
  "review_refresh E reply err a =
    (case fetch_pending E reply of
       Some rows \<Rightarrow> \<lparr>ra_rows = rows, ra_banner = None\<rparr>
     | None \<Rightarrow> a\<lparr>ra_banner := Some (''refresh failed: '' @ err)\<rparr>)"

definition select_all :: "review_app \<Rightarrow> review_app" where
  "select_all a = a\<lparr>ra_rows := map (\<lambda>r. if rw_done r then r else r\<lparr>rw_selected := True\<rparr>) (ra_rows a)\<rparr>"

definition select_none :: "review_app \<Rightarrow> review_app" where
  "select_none a = a\<lparr>ra_rows := map (\<lambda>r. r\<lparr>rw_selected := False\<rparr>) (ra_rows a)\<rparr>"

definition row_title :: "review_row \<Rightarrow> string" where
  "row_title r =
    ''['' @ rw_kind r @ '']  '' @ client_basename (rw_target r) @ ''  '' @ MIDDLE_DOT @ ''  '' @ rw_creator r"

definition comp_label :: "comp \<Rightarrow> string" where
  "comp_label c = as_key (cp_dim c) @ '' = '' @ cp_value c"

text \<open>The request for one row; \<open>None\<close> when no component is checked.\<close>

definition row_command :: "review_action \<Rightarrow> review_row \<Rightarrow> string option" where
  "row_command a r =
    (let dims = map (\<lambda>c. as_key (cp_dim c)) (filter cp_checked (rw_comps r));
         allow = (\<lambda>verb. if dims = [] then None
                         else Some (verb @ '' '' @ rw_token r @ '' dims='' @ str_join '','' dims))
     in case a of
          ReviewOnce \<Rightarrow> allow ''once''
        | ReviewAlways \<Rightarrow> allow ''allow''
        | ReviewQuarantine \<Rightarrow> Some (''quarantine '' @ rw_token r)
        | ReviewDismiss \<Rightarrow> Some (''dismiss '' @ rw_token r))"

text \<open>\<open>trim_start_matches\<close>: the prefix is removed as often as it is there.\<close>

function trim_start_matches :: "string \<Rightarrow> string \<Rightarrow> string" where
  "trim_start_matches p s =
    (if p \<noteq> [] \<and> str_starts_with p s then trim_start_matches p (drop (length p) s) else s)"
  by pat_completeness auto
termination
proof (relation "measure (\<lambda>(p, s). length s)", goal_cases)
  case (2 p s)
  then have "length p \<le> length s" by (auto simp: str_starts_with_def dest!: arg_cong [where f = length])
  with 2 show ?case by (cases p) auto
qed simp

declare trim_start_matches.simps [simp del]

definition row_result :: "string option \<Rightarrow> string \<Rightarrow> review_row \<Rightarrow> review_row" where
  "row_result reply err r =
    (case reply of
       Some t \<Rightarrow>
         if str_starts_with ''OK'' t then r\<lparr>rw_done := True, rw_selected := False, rw_status := None\<rparr>
         else r\<lparr>rw_status := Some (trim_start_matches ''ERR '' t)\<rparr>
     | None \<Rightarrow> r\<lparr>rw_status := Some err\<rparr>)"

text \<open>
  \<open>apply\<close>: every selected row that is not done, in order. \<open>srv\<close> is the exchange with the daemon:
  its new state, and the bytes of the reply or the text of the failure.
\<close>

definition apply_row ::
    "(bytes \<Rightarrow> 's \<Rightarrow> 's \<times> (string + bytes)) \<Rightarrow> review_action \<Rightarrow> review_row \<Rightarrow> 's \<Rightarrow> review_row \<times> 's" where
  "apply_row srv a r st =
    (if \<not> (rw_selected r \<and> \<not> rw_done r) then (r, st)
     else case row_command a r of
       None \<Rightarrow> (r\<lparr>rw_status := Some ''select at least one component to allowlist''\<rparr>, st)
     | Some cmd \<Rightarrow>
        (case srv (cmd @ [CHR 0x0A]) st of (st, res) \<Rightarrow>
           (case res of
              Inr bs \<Rightarrow> row_result (read_reply (Some bs)) ''stream did not contain valid UTF-8'' r
            | Inl err \<Rightarrow> row_result None err r, st)))"

fun apply_rows ::
    "(bytes \<Rightarrow> 's \<Rightarrow> 's \<times> (string + bytes)) \<Rightarrow> review_action \<Rightarrow> review_row list \<Rightarrow> 's \<Rightarrow> review_row list \<times> 's" where
  "apply_rows srv a [] st = ([], st)"
| "apply_rows srv a (r # rs) st =
    (case apply_row srv a r st of (r, st) \<Rightarrow>
     case apply_rows srv a rs st of (rs, st) \<Rightarrow> (r # rs, st))"

section \<open>Command line\<close>

datatype allow_error = AllowConnectFailed | AllowRejected string | AllowUnexpected string

definition allow_command :: "bool \<Rightarrow> string \<Rightarrow> bytes" where
  "allow_command once token = (if once then ''once'' else ''allow'') @ '' '' @ token @ [CHR 0x0A]"

definition allow_run :: "bool \<Rightarrow> bytes option \<Rightarrow> allow_error + string" where
  "allow_run once reply =
    (case read_reply reply of
       None \<Rightarrow> Inl AllowConnectFailed
     | Some r \<Rightarrow>
        (case str_strip_prefix ''OK '' r of
           Some rule \<Rightarrow>
             Inr (''allowed, '' @ (if once then ''in memory (transient '' @ EM_DASH @ '' gone on daemon restart)''
                                  else ''persisted to the allowlist'') @ '':'' @ [CHR 0x0A] @ ''  '' @ rule)
         | None \<Rightarrow>
            (case str_strip_prefix ''ERR '' r of
               Some m \<Rightarrow> Inl (AllowRejected m)
             | None \<Rightarrow> Inl (AllowUnexpected r))))"

datatype apply_error = ApplyConnectFailed | ApplyTamper string | ApplyRejected string | ApplyUnexpected string

definition apply_via_daemon :: "bytes option \<Rightarrow> apply_error + string" where
  "apply_via_daemon reply =
    (case read_reply reply of
       None \<Rightarrow> Inl ApplyConnectFailed
     | Some r \<Rightarrow>
        (case str_strip_prefix ''OK '' r of
           Some detail \<Rightarrow> Inr detail
         | None \<Rightarrow>
            (case str_strip_prefix ''ERR '' r of
               Some m \<Rightarrow>
                 (case str_strip_prefix TAMPER_MARKER m of
                    Some detail \<Rightarrow> Inl (ApplyTamper detail)
                  | None \<Rightarrow> Inl (ApplyRejected m))
             | None \<Rightarrow> Inl (ApplyUnexpected r))))"

text \<open>\<open>{:<28}\<close> pads by characters; the ids are ASCII.\<close>

definition pad_id :: "string \<Rightarrow> string" where
  "pad_id s = s @ replicate (28 - length s) (CHR '' '')"

definition print_list :: "string \<Rightarrow> manifest list \<Rightarrow> string list" where
  "print_list dir es =
    (if es = [] then [''no quarantined files under '' @ dir]
     else (pad_id ''ID'' @ ''  ORIGINAL PATH'') #
       map (\<lambda>m. pad_id (m_id m) @ ''  '' @ m_original_path m) es)"

end
