(* ===== verification/Clients_Props.thy ===== *)
theory Clients_Props
  imports Clients Daemon_Props
begin

text \<open>
  Properties of the clients of the control socket, with the daemon on the other side: the tray shows
  what is pending and nothing that was decided, and the review window hides a row only when the
  daemon has decided the block.
\<close>

section \<open>The list reply\<close>

definition pending_view :: "block_record \<Rightarrow> recent_block" where
  "pending_view r = \<lparr>rb_token = b_token r, rb_kind = b_kind r, rb_target = escape (b_target r),
     rb_creator = escape (b_creator r)\<rparr>"

text \<open>The fields that go on the wire without escaping have no control bytes, and all are text.\<close>

definition wire_ok :: "block_record \<Rightarrow> bool" where
  "wire_ok r \<longleftrightarrow>
    (\<forall>c \<in> set (b_token r @ b_kind r @ b_rule_line r). \<not> control_byte c) \<and>
    utf8_valid (b_token r) \<and> utf8_valid (b_kind r) \<and> utf8_valid (b_rule_line r) \<and>
    utf8_valid (b_target r) \<and> utf8_valid (b_creator r)"

definition entry_text :: "block_record \<Rightarrow> string" where
  "entry_text r =
    ''ENTRY'' @ [TAB] @ b_token r @ [TAB] @ b_kind r @ [TAB] @ escape (b_target r) @ [TAB] @
    escape (b_creator r) @ [TAB] @ b_rule_line r"

lemma list_entry_text: "list_entry r = entry_text r @ [CHR 0x0A]"
  by (simp add: list_entry_def entry_text_def)

lemma no_control_tab: "\<forall>c \<in> set x. \<not> control_byte c \<Longrightarrow> TAB \<notin> set x"
  using tab_control by blast

lemma escape_no_tab: "TAB \<notin> set (escape s)"
  using escape_printable tab_control by blast

lemma entry_text_bytes:
  assumes "wire_ok r" "c \<in> set (entry_text r)" "control_byte c"
  shows "c = TAB"
proof (rule ccontr)
  assume "c \<noteq> TAB"
  have "\<forall>c \<in> set ''ENTRY''. \<not> control_byte c" by (simp add: control_byte_def)
  with \<open>c \<noteq> TAB\<close> assms show False
    using escape_printable unfolding entry_text_def wire_ok_def set_append by auto
qed

lemma entry_line:
  assumes "wire_ok r"
  shows "CHR 0x0A \<notin> set (entry_text r)" "line_of (entry_text r) = Some (entry_text r)"
proof -
  have cr: "control_byte (CHR 0x0A)" "CHR 0x0A \<noteq> TAB" "control_byte (CHR 0x0D)" "CHR 0x0D \<noteq> TAB"
    by (simp_all add: control_byte_def TAB_def)
  then show "CHR 0x0A \<notin> set (entry_text r)" using entry_text_bytes [OF assms] by blast
  have "CHR 0x0D \<notin> set (entry_text r)" using entry_text_bytes [OF assms] cr by blast
  moreover have "entry_text r \<noteq> []" by (simp add: entry_text_def)
  ultimately have "\<not> str_ends_with_char (CHR 0x0D) (entry_text r)"
    using last_in_set unfolding str_ends_with_char_def by metis
  moreover have "utf8_valid (entry_text r)"
    using assms unfolding entry_text_def wire_ok_def
    by (intro utf8_valid_append escape_utf8) (simp_all add: utf8_valid_ascii TAB_def)
  ultimately show "line_of (entry_text r) = Some (entry_text r)"
    by (simp add: line_of_def str_strip_suffix_char_def)
qed

lemma read_entries:
  assumes "\<forall>r \<in> set rs. wire_ok r"
  shows "read_lines (concat (map list_entry rs)) = map (\<lambda>r. Some (entry_text r)) rs"
    "concat (map list_entry rs) = [] \<or> last (concat (map list_entry rs)) = CHR 0x0A"
proof -
  show ends: "concat (map list_entry rs) = [] \<or> last (concat (map list_entry rs)) = CHR 0x0A" for rs
    by (cases rs rule: rev_cases) (simp_all add: list_entry_text)
  show "read_lines (concat (map list_entry rs)) = map (\<lambda>r. Some (entry_text r)) rs"
    using assms
  proof (induction rs rule: rev_induct)
    case (snoc r rs)
    then show ?case
      using read_lines_append [OF ends [of rs] entry_line(1) [of r]] entry_line(2) [of r]
      by (simp add: list_entry_text [of r])
  qed (simp add: read_lines_def)
qed

lemma read_list_reply:
  assumes "\<forall>r \<in> set (blocks_list T). wire_ok r"
  shows "read_lines (list_reply T) = map (\<lambda>r. Some (entry_text r)) (blocks_list T) @ [Some ''END'']"
proof -
  have "line_of ''END'' = Some ''END''"
    by (simp add: line_of_def str_strip_suffix_char_def str_ends_with_char_def utf8_valid_ascii)
  then show ?thesis
    using read_lines_append [OF read_entries(2), of "blocks_list T" "''END''"] read_entries(1) [OF assms] assms
    by (simp add: list_reply_def)
qed

lemma splitn_six:
  assumes "x \<notin> set a" "x \<notin> set b" "x \<notin> set c" "x \<notin> set d" "x \<notin> set e"
  shows "str_splitn 6 x (a @ x # b @ x # c @ x # d @ x # e @ x # f) = [a, b, c, d, e, f]"
  using assms by (simp add: eval_nat_numeral str_split_once_append)

lemma entry_fields:
  assumes "wire_ok r"
  shows "str_splitn 6 TAB (entry_text r) =
    [''ENTRY'', b_token r, b_kind r, escape (b_target r), escape (b_creator r), b_rule_line r]"
proof -
  have "TAB \<notin> set ''ENTRY''" by (simp add: TAB_def)
  moreover have "TAB \<notin> set (b_token r)" "TAB \<notin> set (b_kind r)"
    using assms no_control_tab unfolding wire_ok_def set_append by blast+
  ultimately show ?thesis
    using splitn_six [of TAB "''ENTRY''" "b_token r" "b_kind r" "escape (b_target r)" "escape (b_creator r)"
      "b_rule_line r"] escape_no_tab by (simp add: entry_text_def)
qed

lemma entry_not_end: "entry_text r \<noteq> ''END''"
  by (simp add: entry_text_def)

lemma list_lines_entries:
  assumes "\<forall>r \<in> set rs. wire_ok r"
  shows "list_lines (map (\<lambda>r. Some (entry_text r)) rs @ [Some ''END'']) = Some (map pending_view rs)"
  using assms
proof (induction rs)
  case (Cons r rs)
  then show ?case
    by (simp add: entry_not_end entry_fields entry_block_def pending_view_def)
qed simp

lemma list_pending_reply:
  assumes "\<forall>r \<in> set (blocks_list T). wire_ok r"
  shows "list_pending (Some (list_reply T)) = Some (map pending_view (blocks_list T))"
  using assms by (simp add: list_pending_def read_list_reply list_lines_entries)

section \<open>The tray\<close>

lemma recent_retain [simp]: "recent (tray_retain tok t) = filter (\<lambda>x. rb_token x \<noteq> tok) (recent t)"
  by (simp add: tray_retain_def)

lemma recent_push [simp]:
  "recent (tray_push b t) = take MAX_RECENT (b # filter (\<lambda>x. rb_token x \<noteq> rb_token b) (recent t))"
  by (simp add: tray_push_def)

lemma recent_dispatch [simp]: "recent (tray_dispatch k tok t) = filter (\<lambda>x. rb_token x \<noteq> tok) (recent t)"
  by (simp add: tray_dispatch_def Let_def split: option.split)

lemma push_all:
  assumes "distinct (map rb_token bs)" "recent t = []"
  shows "recent (fold tray_push bs t) = take MAX_RECENT (rev bs)"
  using assms(1)
proof (induction bs rule: rev_induct)
  case (snoc b bs)
  have "filter (\<lambda>x. rb_token x \<noteq> rb_token b) (take MAX_RECENT (rev bs)) = take MAX_RECENT (rev bs)"
    using snoc.prems by (auto intro!: filter_True dest!: in_set_takeD) (metis image_eqI)
  with snoc show ?case by (simp add: MAX_RECENT_def take_Cons')
qed (simp add: assms(2))

section \<open>Requests over the socket\<close>

lemma trimmed_ends:
  assumes "x \<noteq> []" "solid (hd x)" "solid (last x)"
  shows "trimmed x"
proof -
  have "\<forall>w \<in> set (map rev white_space). last x \<notin> set w" using assms(3) by (auto simp: solid_def)
  from ws_head_solid [OF this, of "[]" "rev (butlast x)"]
  have "ws_head (map rev white_space) (last x # rev (butlast x)) = None" by (simp add: ws_head_None)
  moreover have "last x # rev (butlast x) = rev x" using assms(1) by (cases x rule: rev_cases) simp_all
  moreover have "ws_head white_space x = None"
    using ws_head_solid [of white_space "hd x" "[]" "tl x"] assms(1,2) by (simp add: solid_def ws_head_None)
  ultimately show ?thesis by (simp add: trimmed_def)
qed

lemma trim_newline:
  assumes "trimmed x" "x \<noteq> []"
  shows "str_trim (x @ [CHR 0x0A]) = x"
proof -
  have "ws_head white_space (x @ [CHR 0x0A]) = None"
  proof (rule ccontr)
    assume "ws_head white_space (x @ [CHR 0x0A]) \<noteq> None"
    then obtain w where w: "w \<in> set white_space" "w \<noteq> []" "take (length w) (x @ [CHR 0x0A]) = w"
      using ws_head_SomeD by blast
    have nw: "take (length w) x \<noteq> w" using assms(1) w by (auto simp: trimmed_def ws_head_None)
    show False
    proof (cases "length w \<le> length x")
      case True
      with w(3) nw show ?thesis by simp
    next
      case False
      with w(3) have "w = x @ [CHR 0x0A]" by (cases "length w - length x") auto
      then have "last w = CHR 0x0A" "1 < length w" using assms(2) by (simp_all add: Suc_lessI)
      with w(1) show ?thesis by (auto simp: white_space_def)
    qed
  qed
  then have s: "str_trim_start (x @ [CHR 0x0A]) = x @ [CHR 0x0A]"
    unfolding str_trim_start_def by (rule trim_left_None)
  have "ws_head (map rev white_space) (CHR 0x0A # rev x) = Some [CHR 0x0A]"
    by (simp add: ws_head_def white_space_def)
  then have "trim_left (map rev white_space) (CHR 0x0A # rev x) = trim_left (map rev white_space) (rev x)"
    by (subst trim_left.simps) simp
  also have "\<dots> = rev x" using assms(1) by (intro trim_left_None) (simp add: trimmed_def)
  finally show ?thesis unfolding str_trim_def s str_trim_end_def by simp
qed

text \<open>A line the daemon reads whole.\<close>

lemma conn_request:
  assumes "trimmed req" "req \<noteq> []" "utf8_valid req" "length req < 4096"
  shows "str_trim (from_utf8_lossy (take 4096 (req @ [CHR 0x0A]))) = req"
proof -
  have "utf8_valid (req @ [CHR 0x0A])" using assms(3) by (intro utf8_valid_append) (simp_all add: utf8_valid_ascii)
  moreover have "take 4096 (req @ [CHR 0x0A]) = req @ [CHR 0x0A]" using assms(4) by simp
  ultimately show ?thesis using trim_newline [OF assms(1,2)] by (simp add: from_utf8_lossy_valid)
qed

lemma list_request: "ask de msg (''list'' @ [CHR 0x0A]) dm = (dm, list_reply (blocks (dm_control dm)))"
proof -
  have "str_trim (from_utf8_lossy (take 4096 (''list'' @ [CHR 0x0A]))) = ''list''"
    by (intro conn_request trimmed_ends) (simp_all add: solid_ascii utf8_valid_ascii)
  then show ?thesis
    unfolding ask_def handle_control_conn_def by (simp only: conn_read.case Let_def) (simp add: reply_bytes_def)
qed

text \<open>
  C27: A tray that connects shows what is pending. The reply to \<open>list\<close>, whatever the names of the blocked
  files are, is read back entry by entry: the menu holds the newest twenty pending blocks, newest
  first, with the escaped names, and asking changes nothing in the daemon.
\<close>

theorem tray_shows_pending:
  assumes "blocks_inv (blocks (dm_control dm))" "\<forall>r \<in> set (blocks_list (blocks (dm_control dm))). wire_ok r"
    and "ask de msg (''list'' @ [CHR 0x0A]) dm = (dm', reply)"
  shows "dm' = dm \<and>
    recent (fst (subscribe_once True True (Some reply) [] tray_new)) =
      take 20 (rev (map pending_view (blocks_list (blocks (dm_control dm)))))"
proof -
  let ?T = "blocks (dm_control dm)"
  have r: "dm' = dm" "reply = list_reply ?T" using assms(3) unfolding list_request by (simp, auto)
  have "distinct (map rb_token (map pending_view (blocks_list ?T)))"
    using blocks_list_order [OF assms(1)] assms(1)
    by (simp add: pending_view_def comp_def blocks_inv_def)
  then have "recent (fold tray_push (map pending_view (blocks_list ?T)) (tray_new\<lparr>connected := True\<rparr>)) =
      take MAX_RECENT (rev (map pending_view (blocks_list ?T)))"
    by (intro push_all) (simp_all add: tray_new_def)
  then show ?thesis
    using r list_pending_reply [OF assms(2)] by (simp add: subscribe_once_def MAX_RECENT_def)
qed

section \<open>Keeping in step\<close>

lemma token_plain:
  "\<forall>c \<in> set (block_token T l). \<not> control_byte c" "utf8_valid (block_token T l)" "TAB \<notin> set (block_token T l)"
proof -
  have d: "c \<in> set (block_token T l) \<Longrightarrow> c \<in> digit_char ` {..<16}" for c
    using set_show_hex [of 8] unfolding block_token_def by (meson subsetD)
  show "\<forall>c \<in> set (block_token T l). \<not> control_byte c" using digits_plain(1) [OF d] by simp
  then show "TAB \<notin> set (block_token T l)" by (rule no_control_tab)
  show "utf8_valid (block_token T l)" using digits_plain(2) [OF d] by (intro utf8_valid_ascii) simp
qed

lemma block_line:
  assumes "TAB \<notin> set (be_token b)" "TAB \<notin> set (be_kind b)"
  shows "stream_line (event_to_wire (Block b)) t =
    (let v = \<lparr>rb_token = be_token b, rb_kind = be_kind b, rb_target = escape (be_target b),
       rb_creator = escape (be_creator b)\<rparr> in (tray_push v t, Some v))"
proof -
  have "str_split TAB (''BLOCK'' @ TAB # be_token b @ TAB # be_kind b @ TAB # escape (be_target b) @ TAB #
      escape (be_creator b)) = [''BLOCK'', be_token b, be_kind b, escape (be_target b), escape (be_creator b)]"
    using assms escape_no_tab by (simp only: str_split_append str_split_none TAB_def) (simp add: str_split_append str_split_none)
  then have "parse_block (block_to_wire b) = Some \<lparr>rb_token = be_token b, rb_kind = be_kind b,
      rb_target = escape (be_target b), rb_creator = escape (be_creator b)\<rparr>"
    by (simp add: parse_block_def block_to_wire_def)
  moreover have "str_strip_prefix (''RESOLVED'' @ [TAB]) (block_to_wire b) = None"
    by (simp add: str_strip_prefix_def block_to_wire_def)
  ultimately show ?thesis by (simp add: stream_line_def Let_def)
qed

lemma resolved_line: "stream_line (event_to_wire (Resolved token)) t = (tray_retain token t, None)"
  using str_strip_prefix_append [of "''RESOLVED'' @ [TAB]" token] by (simp add: stream_line_def)

lemma recorded:
  assumes "length (bt_order T) < MAX_BLOCKS" "blocks_record kind line target creator dev ino T = (T', token)"
  shows "\<exists>r. record_for T' token = Some r \<and> b_target r = target \<and> b_creator r = creator"
    "t \<noteq> token \<Longrightarrow> record_for T' t = record_for T t"
  using assms by (auto simp: blocks_record_def record_for_def Let_def split: option.splits)

text \<open>
  A tray and the pending table it follows: it connects and reads the list, every recording and every
  decision reaches it as a line of the stream, and the user clicks on its entries. Recordings that
  push the oldest block out of a full table are left out: no line announces them.
\<close>

inductive tray_follows :: "blocks_table \<Rightarrow> linprov_tray \<Rightarrow> bool" where
  connect: "blocks_inv T \<Longrightarrow> \<forall>r \<in> set (blocks_list T). wire_ok r \<Longrightarrow>
    tray_follows T (fst (subscribe_once True True (Some (list_reply T)) [] tray_new))"
| blocked: "tray_follows T t \<Longrightarrow> length (bt_order T) < MAX_BLOCKS \<Longrightarrow> TAB \<notin> set kind \<Longrightarrow>
    blocks_record kind line target creator dev ino T = (T', token) \<Longrightarrow>
    tray_follows T' (fst (stream_line (event_to_wire (Block \<lparr>be_kind = kind, be_token = token,
      be_target = target, be_creator = creator\<rparr>)) t))"
| decided: "tray_follows T t \<Longrightarrow>
    tray_follows (fst (blocks_remove token T)) (fst (stream_line (event_to_wire (Resolved token)) t))"
| clicked: "tray_follows T t \<Longrightarrow> tray_follows T (tray_dispatch kind token t)"

definition shown :: "blocks_table \<Rightarrow> recent_block \<Rightarrow> bool" where
  "shown T b \<longleftrightarrow> (\<exists>r. record_for T (rb_token b) = Some r \<and>
    rb_target b = escape (b_target r) \<and> rb_creator b = escape (b_creator r))"

lemma shown_connect:
  assumes "blocks_inv T" "\<forall>r \<in> set (blocks_list T). wire_ok r"
    and "b \<in> set (recent (fst (subscribe_once True True (Some (list_reply T)) [] tray_new)))"
  shows "shown T b"
proof -
  have d: "distinct (map rb_token (map pending_view (blocks_list T)))"
    using blocks_list_order [OF assms(1)] assms(1) by (simp add: pending_view_def comp_def blocks_inv_def)
  have "b \<in> set (take MAX_RECENT (rev (map pending_view (blocks_list T))))"
    using assms(3) push_all [OF d, of "tray_new\<lparr>connected := True\<rparr>"] list_pending_reply [OF assms(2)]
    by (simp add: subscribe_once_def tray_new_def)
  then obtain r where r: "r \<in> set (blocks_list T)" "b = pending_view r" by (auto dest!: in_set_takeD)
  then have "record_for T (b_token r) = Some r"
    using blocks_list_order [OF assms(1)] assms(1) by (auto simp: blocks_inv_def ran_def record_for_def)
  with r show ?thesis by (simp add: shown_def pending_view_def)
qed


section \<open>The review window\<close>

lemma split_request_more:
  assumes "\<forall>c \<in> set v. solid c" "\<forall>c \<in> set t. solid c" "v \<noteq> []" "t \<noteq> []"
  shows "str_split_whitespace (v @ '' '' @ t @ '' '' @ s) = v # t # str_split_whitespace s"
  using assms split_ws_solid [OF assms(1), of "[]" "'' '' @ t @ '' '' @ s"] split_ws_solid [OF assms(2), of "[]" "'' '' @ s"]
  by (simp add: str_split_whitespace_def split_ws_space)

text \<open>Whatever the verb, a request that succeeds takes its token out of the pending table.\<close>

lemma request_decides:
  assumes "process_control_request de req dm = (dm', Inr x)" "nth_part 1 (str_split_whitespace req) = Some token"
  shows "record_for (blocks (dm_control dm')) token = None"
proof -
  have r: "record_for (blocks (dm_control (resolve_token token d))) token = None"
    "blocks (dm_control (say l d)) = blocks (dm_control d)" for d l
    using pending.look_rem by (simp_all add: resolve_token_def say_def)
  have "request_allow de once (Some token) arg dm = (dm', Inr x) \<Longrightarrow> ?thesis" for once arg
    using r by (auto simp: request_allow_def Let_def split: sum.splits option.splits prod.splits)
  moreover have "request_dismiss (Some token) dm = (dm', Inr x) \<Longrightarrow> ?thesis"
    using r by (auto simp: request_dismiss_def split: if_splits)
  moreover have "request_quarantine de (Some token) dm = (dm', Inr x) \<Longrightarrow> ?thesis"
    using r by (auto simp: request_quarantine_def Let_def split: sum.splits option.splits prod.splits if_splits)
  ultimately show ?thesis
    using assms by (simp add: process_control_request_def Let_def split: if_splits)
qed

lemma as_key_solid: "\<forall>c \<in> set (as_key d). solid c \<and> (of_char c :: nat) < 0x80" "as_key d \<noteq> []"
  by (cases d; simp add: solid_ascii)+

lemma join_solid:
  assumes "\<forall>k \<in> set ks. \<forall>c \<in> set k. solid c \<and> (of_char c :: nat) < 0x80"
  shows "\<forall>c \<in> set (str_join '','' ks). solid c \<and> (of_char c :: nat) < 0x80"
proof -
  have "solid (CHR '','') \<and> (of_char (CHR '','') :: nat) < 0x80" by (simp add: solid_ascii)
  then show ?thesis using assms set_str_join [of "'',''" ks] by fastforce
qed

fun review_verb :: "review_action \<Rightarrow> string" where
  "review_verb ReviewOnce = ''once''"
| "review_verb ReviewAlways = ''allow''"
| "review_verb ReviewQuarantine = ''quarantine''"
| "review_verb ReviewDismiss = ''dismiss''"

lemma review_verb_plain:
  "\<forall>c \<in> set (review_verb a). solid c" "review_verb a \<noteq> []" "utf8_valid (review_verb a)"
  by (cases a; simp add: solid_ascii utf8_valid_ascii)+

lemma row_command_shape:
  assumes "row_command a r = Some cmd" "rw_token r = block_token T l"
  shows "nth_part 1 (str_split_whitespace cmd) = Some (rw_token r)" "trimmed cmd" "cmd \<noteq> []" "utf8_valid cmd"
    "CHR '' '' \<in> set cmd"
proof -
  let ?ks = "map (\<lambda>c. as_key (cp_dim c)) (filter cp_checked (rw_comps r))"
  let ?t = "rw_token r"
  have t: "\<forall>c \<in> set ?t. solid c" "?t \<noteq> []" "utf8_valid ?t"
    using token_solid token_plain(2) assms(2) by simp_all
  define tail where "tail = ''dims='' @ str_join '','' ?ks"
  have "\<forall>k \<in> set ?ks. \<forall>c \<in> set k. solid c \<and> (of_char c :: nat) < 0x80" using as_key_solid by auto
  from join_solid [OF this] have tl: "\<forall>c \<in> set tail. solid c \<and> (of_char c :: nat) < 0x80" "tail \<noteq> []"
    by (auto simp: tail_def solid_ascii)
  define v where "v = review_verb a"
  have c: "cmd = v @ '' '' @ ?t \<or> cmd = v @ '' '' @ ?t @ '' '' @ tail"
    using assms(1) by (cases a) (simp_all add: row_command_def Let_def tail_def v_def split: if_splits)
  have vs: "\<forall>c \<in> set v. solid c" "v \<noteq> []" "utf8_valid v"
    using review_verb_plain by (simp_all add: v_def)
  show "nth_part 1 (str_split_whitespace cmd) = Some ?t"
    using c split_request [OF vs(1) t(1) vs(2) t(2)] split_request_more [OF vs(1) t(1) vs(2) t(2), of tail]
    by (auto simp: nth_part_def)
  show "cmd \<noteq> []" "CHR '' '' \<in> set cmd" using c by auto
  have u: "utf8_valid tail" "utf8_valid '' ''" using tl by (simp_all add: utf8_valid_ascii)
  from c show "utf8_valid cmd" by (elim disjE; simp only: u vs(3) t(3) utf8_valid_append)
  have "solid (hd v)" "solid (last ?t)" "solid (last tail)"
    using vs t tl by (simp_all add: hd_in_set last_in_set)
  then show "trimmed cmd" using c vs(2) t(2) tl(2) by (intro trimmed_ends) auto
qed

lemma length_show_radix: "2 \<le> r \<Longrightarrow> n < r ^ Suc k \<Longrightarrow> length (show_radix r n) \<le> Suc k"
proof (induction k arbitrary: n)
  case 0
  then show ?case by (subst show_radix.simps) simp
next
  case (Suc k)
  show ?case
  proof (cases "n < r")
    case False
    have "n div r < r ^ Suc k" using Suc.prems by (intro less_mult_imp_div_less) (simp add: mult.commute)
    with Suc.IH Suc.prems(1) have "length (show_radix r (n div r)) \<le> Suc k" by blast
    then show ?thesis using False Suc.prems(1) by (subst show_radix.simps) simp
  qed (subst show_radix.simps, simp)
qed

lemma length_token: "length (block_token T l) \<le> 8"
proof -
  let ?n = "unat (ucast (siphash (bt_k0 T) (bt_k1 T) l) :: u32)"
  have "?n < 16 ^ Suc 7" using unsigned_less [of "ucast (siphash (bt_k0 T) (bt_k1 T) l) :: u32"] by simp
  then have "length (show_radix 16 ?n) \<le> Suc 7" by (intro length_show_radix) simp_all
  then show ?thesis by (simp add: block_token_def show_hex_padded_def Let_def)
qed

lemma length_str_join: "\<forall>k \<in> set ks. length k \<le> n \<Longrightarrow> length (str_join '','' ks) \<le> Suc n * length ks"
  by (induction "'',''" ks rule: str_join.induct) auto

lemma row_command_length:
  assumes "row_command a r = Some cmd" "length (rw_token r) \<le> 8" "length (rw_comps r) \<le> 8"
  shows "length cmd < 4096"
proof -
  let ?ks = "map (\<lambda>c. as_key (cp_dim c)) (filter cp_checked (rw_comps r))"
  have "length (as_key d) \<le> 16" for d by (cases d) simp_all
  then have "length (str_join '','' ?ks) \<le> Suc 16 * length ?ks" by (intro length_str_join) simp
  moreover have "length ?ks \<le> 8" using assms(3) by (simp add: le_trans [OF length_filter_le])
  ultimately have "length (str_join '','' ?ks) \<le> 136"
    using mult_le_mono2 [of "length ?ks" 8 "Suc 16"] by simp
  then show ?thesis using assms(1,2) by (cases a) (auto simp: row_command_def Let_def split: if_splits)
qed

lemma trim_prefix:
  assumes "s \<noteq> []" "solid (hd s)"
  shows "\<exists>q. s = str_trim s @ q"
proof -
  have "ws_head white_space s = None"
    using ws_head_solid [of white_space "hd s" "[]" "tl s"] assms by (simp add: solid_def ws_head_None)
  then have "str_trim_start s = s" unfolding str_trim_start_def by (rule trim_left_None)
  moreover obtain p where "rev s = p @ trim_left (map rev white_space) (rev s)" using trim_left_suffix by blast
  then have "s = str_trim_end s @ rev p" unfolding str_trim_end_def by (metis rev_append rev_rev_ident)
  ultimately show ?thesis unfolding str_trim_def by metis
qed

lemma err_not_ok: "\<not> str_starts_with ''OK'' (str_trim (''ERR '' @ m))"
proof
  assume "str_starts_with ''OK'' (str_trim (''ERR '' @ m))"
  then have "hd (str_trim (''ERR '' @ m)) = CHR ''O''" "str_trim (''ERR '' @ m) \<noteq> []"
    unfolding str_starts_with_def by (cases "str_trim (''ERR '' @ m)"; simp)+
  moreover obtain q where "''ERR '' @ m = str_trim (''ERR '' @ m) @ q"
    using trim_prefix [of "''ERR '' @ m"] by (auto simp: solid_ascii)
  then have "hd (''ERR '' @ m) = hd (str_trim (''ERR '' @ m))"
    using calculation(2) by (metis hd_append2)
  ultimately show False by simp
qed

text \<open>The daemon reads the selected components as they were selected.\<close>

lemma dims_loop_keys: "dims_loop (map as_key ds) = Inr ds"
  by (induction ds) simp_all

lemma parse_dims_keys:
  assumes "ds \<noteq> []"
  shows "parse_dims (Some (''dims='' @ str_join '','' (map as_key ds))) = Inr (Some ds)"
proof -
  have "CHR '','' \<notin> set (as_key d)" for d by (cases d) simp_all
  then have "str_split (CHR '','') (str_join '','' (map as_key ds)) = map as_key ds"
    using assms by (intro str_split_join) auto
  moreover have "filter (\<lambda>s. s \<noteq> []) (map as_key ds) = map as_key ds"
    using as_key_solid(2) by (auto intro!: filter_True)
  ultimately show ?thesis
    using str_strip_prefix_append [of "''dims=''"] by (simp only: parse_dims_def option.case dims_loop_keys sum.case)
qed

definition checked_dims :: "review_row \<Rightarrow> dim list" where
  "checked_dims r = map cp_dim (filter cp_checked (rw_comps r))"

lemma row_command_dims:
  assumes "row_command a r = Some cmd" "rw_token r = block_token T l" "a = ReviewOnce \<or> a = ReviewAlways"
  shows "parse_dims (nth_part 2 (str_split_whitespace cmd)) = Inr (Some (checked_dims r))"
proof -
  let ?tail = "''dims='' @ str_join '','' (map as_key (checked_dims r))"
  have k: "map (\<lambda>c. as_key (cp_dim c)) (filter cp_checked (rw_comps r)) = map as_key (checked_dims r)"
    by (simp add: checked_dims_def)
  have c: "checked_dims r \<noteq> []" "cmd = review_verb a @ '' '' @ rw_token r @ '' '' @ ?tail"
    using assms(1,3) unfolding row_command_def k by (auto simp: Let_def split: if_splits)
  have t: "\<forall>c \<in> set (rw_token r). solid c" "rw_token r \<noteq> []" using token_solid assms(2) by simp_all
  have "\<forall>k \<in> set (map as_key (checked_dims r)). \<forall>c \<in> set k. solid c \<and> (of_char c :: nat) < 0x80"
    using as_key_solid(1) by simp
  from join_solid [OF this] have "\<forall>c \<in> set ?tail. solid c" by (simp add: solid_ascii)
  then have "str_split_whitespace ?tail = [?tail]"
    using split_ws_solid [of ?tail "[]" "[]"] by (simp add: str_split_whitespace_def split_ws_end)
  then have "str_split_whitespace cmd = [review_verb a, rw_token r, ?tail]"
    using split_request_more [OF review_verb_plain(1) t(1) review_verb_plain(2) t(2)] unfolding c(2) by simp
  then have "nth_part 2 (str_split_whitespace cmd) = Some ?tail" by (simp add: nth_part_def)
  then show ?thesis by (simp only: parse_dims_keys [OF c(1)])
qed

text \<open>The exchange of the window with the daemon.\<close>

definition daemon_srv :: "daemon_env \<Rightarrow> (request_error \<Rightarrow> string) \<Rightarrow> bytes \<Rightarrow> daemon \<Rightarrow> daemon \<times> (string + bytes)" where
  "daemon_srv de msg req dm = (case ask de msg req dm of (dm, bs) \<Rightarrow> (dm, Inr bs))"

text \<open>
  C26: The review window hides a row only when the block was decided. If a bulk action (allow once or
  always with any selection of components, quarantine, dismiss) marks a row as done, the block of its
  token is no longer pending in the daemon, and for an allow the daemon has read from the request
  exactly the components that were checked.
\<close>

theorem review_hides_only_decided:
  assumes "rw_token r = block_token T l" "\<not> rw_done r"
    and "length (rw_comps r) \<le> 8"
    and "apply_row (daemon_srv de msg) a r dm = (r', dm')" "rw_done r'"
  shows "record_for (blocks (dm_control dm')) (rw_token r) = None \<and>
    (\<exists>cmd. row_command a r = Some cmd \<and> (a = ReviewOnce \<or> a = ReviewAlways \<longrightarrow>
      parse_dims (nth_part 2 (str_split_whitespace cmd)) = Inr (Some (checked_dims r))))"
proof -
  obtain cmd where cmd: "row_command a r = Some cmd"
    using assms(2,4,5) by (auto simp: apply_row_def split: if_splits option.splits)
  note shape = row_command_shape [OF cmd assms(1)]
  let ?req = "cmd @ [CHR 0x0A]"
  have "cmd \<noteq> ''subscribe''" "cmd \<noteq> ''list''" using shape(5) by auto
  then have conn: "handle_control_conn de (ConnBytes ?req) dm =
      (case process_control_request de cmd dm of (dm, res) \<Rightarrow> (dm, Answer res))"
    using conn_request [OF shape(2-4)] row_command_length [OF cmd _ assms(3)] length_token assms(1)
    by (simp add: handle_control_conn_def)
  obtain dm1 res where p: "process_control_request de cmd dm = (dm1, res)" by fastforce
  have "rw_selected r" using assms(2,4,5) by (auto simp: apply_row_def split: if_splits)
  with assms(2,4) cmd conn p have dm1: "dm' = dm1"
    and r': "r' = row_result (read_reply (Some (reply_bytes msg (Answer res)))) ''stream did not contain valid UTF-8'' r"
    by (simp_all add: apply_row_def daemon_srv_def ask_def)
  show ?thesis
  proof (cases res)
    case (Inr x)
    with p dm1 show ?thesis using request_decides [OF _ shape(1), of de dm dm1 x]
      cmd row_command_dims [OF cmd assms(1)] by simp
  next
    case (Inl e)
    obtain m where "reply_bytes msg (Answer res) = ''ERR '' @ m"
      using Inl by (simp add: reply_bytes_def split: request_error.split)
    then have "\<not> rw_done r'"
      using r' assms(2) err_not_ok [of m]
      by (simp add: row_result_def read_reply_def)
    with assms(5) show ?thesis by simp
  qed
qed

section \<open>Witnesses\<close>

definition one_rec :: block_record where
  "one_rec = \<lparr>b_token = block_token (blocks_new 1 2) ''creator_uid=7'', b_kind = ''exec'',
     b_rule_line = ''creator_uid=7'', b_target = ''/tmp/a'' @ [CHR 0x0A] @ ''b'', b_creator = ''curl'',
     b_dev = 4, b_ino = 3\<rparr>"

definition one_table :: blocks_table where
  "one_table = fst (blocks_record ''exec'' ''creator_uid=7'' (b_target one_rec) ''curl'' 4 3 (blocks_new 1 2))"

definition one_daemon :: daemon where
  "one_daemon = curl_daemon\<lparr>dm_control := (dm_control curl_daemon)\<lparr>blocks := one_table\<rparr>\<rparr>"

lemma one_table: "blocks_list one_table = [one_rec]" "blocks_inv one_table"
  "bt_map one_table = [b_token one_rec \<mapsto> one_rec]"
proof -
  show "blocks_inv one_table" unfolding one_table_def by (intro blocks_inv_record blocks_inv_new)
  show m: "bt_map one_table = [b_token one_rec \<mapsto> one_rec]"
    by (simp add: one_table_def blocks_record_def blocks_new_def one_rec_def Let_def MAX_BLOCKS_def)
  have "bt_order one_table = [b_token one_rec]"
    by (simp add: one_table_def blocks_record_def blocks_new_def one_rec_def Let_def MAX_BLOCKS_def)
  with m show "blocks_list one_table = [one_rec]" by (simp add: blocks_list_def List.map_filter_simps)
qed

lemma one_wire_ok: "wire_ok one_rec"
proof -
  have "b_token one_rec = block_token (blocks_new 1 2) ''creator_uid=7''" by (simp add: one_rec_def)
  moreover have "utf8_valid (b_target one_rec)" "utf8_valid (b_creator one_rec)" "utf8_valid (b_kind one_rec)"
    "utf8_valid (b_rule_line one_rec)" by (simp_all add: one_rec_def utf8_valid_ascii)
  moreover have "\<forall>c \<in> set (b_kind one_rec @ b_rule_line one_rec). \<not> control_byte c"
    by (simp add: one_rec_def control_byte_def)
  ultimately show ?thesis using token_plain [of "blocks_new 1 2" "''creator_uid=7''"]
    by (simp add: wire_ok_def ball_Un)
qed

theorem tray_shows_pending_witness:
  "recent (fst (subscribe_once True True (Some (snd (ask curl_env (\<lambda>e. ''failed'') (''list'' @ [CHR 0x0A]) one_daemon)))
    [] tray_new)) = [pending_view one_rec]"
proof -
  have b: "blocks (dm_control one_daemon) = one_table" by (simp add: one_daemon_def)
  obtain dm' reply where a: "ask curl_env (\<lambda>e. ''failed'') (''list'' @ [CHR 0x0A]) one_daemon = (dm', reply)" by fastforce
  from tray_shows_pending [OF _ _ this] show ?thesis
    unfolding a by (simp add: b one_table one_wire_ok)
qed


definition one_row :: review_row where
  "one_row = \<lparr>rw_token = b_token one_rec, rw_kind = ''exec'', rw_target = ''x'', rw_creator = ''curl'',
     rw_selected = True, rw_comps = [], rw_status = None, rw_done = False\<rparr>"

theorem review_hides_only_decided_witness:
  "\<exists>r' dm'. apply_row (daemon_srv curl_env (\<lambda>e. ''failed'')) ReviewDismiss one_row one_daemon = (r', dm') \<and>
    rw_done r' \<and> record_for (blocks (dm_control one_daemon)) (rw_token one_row) \<noteq> None \<and>
    record_for (blocks (dm_control dm')) (rw_token one_row) = None"
proof -
  let ?tok = "block_token (blocks_new 1 2) ''creator_uid=7''"
  let ?cmd = "''dismiss '' @ ?tok"
  have t: "rw_token one_row = ?tok" "b_token one_rec = ?tok" by (simp_all add: one_row_def one_rec_def)
  have cmd: "row_command ReviewDismiss one_row = Some ?cmd" by (simp add: row_command_def t)
  note shape = row_command_shape [OF cmd t(1)]
  have "length ?cmd < 4096" using length_token [of "blocks_new 1 2" "''creator_uid=7''"] by simp
  then have req: "str_trim (from_utf8_lossy (take 4096 (?cmd @ [CHR 0x0A]))) = ?cmd"
    by (intro conn_request shape(2-4))
  have p: "process_control_request curl_env ?cmd one_daemon = request_dismiss (Some ?tok) one_daemon"
    using split_request [OF verbs_solid(3) token_solid(1) _ token_solid(2), of "blocks_new 1 2" "''creator_uid=7''"]
    by (simp add: process_control_request_def nth_part_def)
  have pend: "record_for (blocks (dm_control one_daemon)) ?tok = Some one_rec"
    by (simp add: one_daemon_def record_for_def one_table(3) t(2))
  then have q: "\<exists>dm'. request_dismiss (Some ?tok) one_daemon = (dm', Inr (''dismissed '' @ ?tok))"
    by (simp add: request_dismiss_def blocks_remove_def record_for_def)
  let ?rep = "''OK dismissed '' @ ?tok"
  have "utf8_valid (?rep @ [CHR 0x0A])" "utf8_valid ?rep"
    using token_plain(2) by (intro utf8_valid_append; simp add: utf8_valid_ascii)+
  moreover have "trimmed ?rep"
    using token_solid [of "blocks_new 1 2" "''creator_uid=7''"]
    by (intro trimmed_ends) (simp_all add: solid_ascii last_append last_in_set)
  ultimately have rep: "read_reply (Some (?rep @ [CHR 0x0A])) = Some ?rep"
    using trim_newline [of ?rep] by (simp add: read_reply_def)
  obtain dm' where "request_dismiss (Some ?tok) one_daemon = (dm', Inr (''dismissed '' @ ?tok))" using q by blast
  then have "ask curl_env (\<lambda>e. ''failed'') (?cmd @ [CHR 0x0A]) one_daemon = (dm', ?rep @ [CHR 0x0A])"
    unfolding ask_def handle_control_conn_def conn_read.case req Let_def
    by (simp add: p [simplified]) (simp add: reply_bytes_def)
  then have a: "apply_row (daemon_srv curl_env (\<lambda>e. ''failed'')) ReviewDismiss one_row one_daemon =
      (row_result (Some ?rep) ''stream did not contain valid UTF-8'' one_row, dm')"
    unfolding apply_row_def cmd option.case daemon_srv_def by (simp only: rep prod.case sum.case) (simp add: one_row_def)
  moreover have d: "rw_done (row_result (Some ?rep) ''stream did not contain valid UTF-8'' one_row)"
    by (simp add: row_result_def str_starts_with_def)
  moreover have "\<not> rw_done one_row" "length (rw_comps one_row) \<le> 8" by (simp_all add: one_row_def)
  ultimately show ?thesis using review_hides_only_decided [OF t(1) _ _ a d] pend t(1) by auto
qed

end
