(* ===== verification/Wire_Types.thy ===== *)
theory Wire_Types
  imports Clients_Props
begin

text \<open>
  The strings the daemon keeps are well-formed: paths that come as bytes from the kernel, from other
  processes or from its own files are valid UTF-8 once stored, and a pending block can go over the
  control socket. The invariant is carried through the loop by the locale \<open>loop_invariant\<close>.
\<close>

section \<open>The audit database\<close>

lemma utf8_split_once:
  assumes "str_split_once c s = Some (a, b)" "(of_char c :: nat) < 0x80" "utf8_valid s"
  shows "utf8_valid a" "utf8_valid b"
  using str_split_once_SomeD [OF assms(1)] utf8_valid_split [OF _ assms(2), of a b] assms(3) by auto

lemma read_lines_valid: "Some l \<in> set (read_lines s) \<Longrightarrow> utf8_valid l"
  by (auto simp: read_lines_def line_of_def Let_def split: if_splits)

definition db_typed :: "hash_db \<Rightarrow> bool" where
  "db_typed D \<longleftrightarrow> (\<forall>h p. db_map D h = Some p \<longrightarrow> utf8_valid p)"

lemma db_row_valid:
  assumes "db_row E line = Some (h, p)" "utf8_valid line"
  shows "utf8_valid p"
proof -
  have t: "(of_char TAB :: nat) < 0x80" by (simp add: TAB_def)
  from assms(1) obtain hx rest where r: "str_split_once TAB line = Some (hx, rest)"
    "(case str_split_once TAB rest of Some (c, _) \<Rightarrow> unb64 E c = Some p | None \<Rightarrow> p = rest)"
    by (auto simp: db_row_def split: option.splits)
  have "utf8_valid rest" using utf8_split_once [OF r(1) t assms(2)] by simp
  with r(2) show ?thesis by (auto simp: unb64_def lossy_valid split: option.splits)
qed

lemma load_rows_valid:
  assumes "\<forall>l. Some l \<in> set ls \<longrightarrow> utf8_valid l" "\<forall>h p. m h = Some p \<longrightarrow> utf8_valid p"
  shows "load_rows E ls m h = Some p \<Longrightarrow> utf8_valid p"
  using assms
proof (induction E ls m rule: load_rows.induct)
  case (3 E line ls m)
  show ?case
  proof (cases "db_row E line")
    case (Some hp)
    obtain a b where ab: "hp = (a, b)" by fastforce
    have "utf8_valid b" using db_row_valid [of E line a b] Some ab "3.prems" by simp
    then have "\<forall>h p. (m(a \<mapsto> b)) h = Some p \<longrightarrow> utf8_valid p" using "3.prems"(3) by simp
    moreover have "load_rows E ls (m(a \<mapsto> b)) h = Some p" using "3.prems"(1) Some ab by simp
    ultimately show ?thesis using "3.IH" "3.prems"(2) Some ab by (simp del: fun_upd_apply)
  qed (use 3 in auto)
qed auto

lemma hashdb_open_typed: "hashdb_open E d f ap a b = Inr D \<Longrightarrow> db_typed D"
  using load_rows_valid [of "read_lines _" "\<lambda>h. None"] read_lines_valid
  by (auto simp: hashdb_open_def db_typed_def Let_def split: if_splits file_open_result.splits)

lemma db_all_typed: "db_typed D \<Longrightarrow> \<forall>s \<in> set ss. utf8_valid s \<Longrightarrow> db_typed (db_all E h ss D)"
proof (induction ss arbitrary: D)
  case (Cons s ss)
  have "db_typed (fst (db_record E h s D))"
    using Cons.prems by (auto simp: db_record_def hashdb_record_def db_typed_def Let_def)
  with Cons show ?case by (simp add: audit.rec_all.simps db_record_def)
qed (simp add: audit.rec_all.simps)

lemma prefixes_acc_slash: "x \<in> set (prefixes_acc acc p) \<Longrightarrow> \<exists>b c. x = acc @ b @ [SLASH] \<and> p = b @ SLASH # c"
proof (induction acc p rule: prefixes_acc.induct)
  case (2 acc d bs)
  then consider "d = SLASH" "x = acc @ [d]" | "x \<in> set (prefixes_acc (acc @ [d]) bs)" by (auto split: if_splits)
  then show ?case
  proof cases
    case 1
    then show ?thesis by (intro exI [of _ "[]"] exI [of _ bs]) simp
  next
    case 2
    from "2.IH" [OF this] obtain b c where "x = (acc @ [d]) @ b @ [SLASH]" "bs = b @ SLASH # c" by blast
    then show ?thesis by (intro exI [of _ "d # b"] exI [of _ c]) simp
  qed
qed simp

lemma slash_ascii: "(of_char SLASH :: nat) < 0x80"
  by simp

lemma slash_prefix_valid:
  assumes "utf8_valid p" "x \<in> set (slash_prefixes p)"
  shows "utf8_valid x"
proof -
  from prefixes_acc_slash assms(2) obtain b c where x: "x = b @ [SLASH]" "p = b @ SLASH # c"
    unfolding slash_prefixes_def by fastforce
  then have "utf8_valid b" using utf8_valid_split [OF _ slash_ascii] assms(1) by blast
  then show ?thesis unfolding x by (rule utf8_valid_append) (rule utf8_valid_ascii, simp)
qed

lemma basename_valid: "utf8_valid p \<Longrightarrow> basename_of p = Some b \<Longrightarrow> utf8_valid b"
proof (cases "str_split_once SLASH (rev p)")
  case (Some ab)
  assume p: "utf8_valid p" "basename_of p = Some b"
  obtain x y where ab: "ab = (x, y)" by fastforce
  from Some ab have "rev p = x @ SLASH # y" using str_split_once_SomeD by blast
  then have "p = rev y @ SLASH # rev x" by (metis append.assoc append_Cons append_Nil rev.simps(2) rev_append rev_rev_ident)
  then have "utf8_valid (rev x)" using utf8_valid_split [OF _ slash_ascii] p(1) by blast
  with p(2) Some ab show ?thesis by (auto simp: basename_of_def str_rsplit_once_def Let_def split: if_splits)
qed (auto simp: basename_of_def str_rsplit_once_def Let_def split: if_splits)

lemma event_strings_valid: "\<forall>s \<in> set (event_strings h ev derived). utf8_valid s"
proof -
  let ?p = "c_str_to_string (e_filename ev)"
  have p: "utf8_valid ?p" by (simp add: c_str_to_string_def lossy_valid)
  have "\<forall>s \<in> set (opt_strings (if derived then None else read_creator_exe h (e_pid ev))). utf8_valid s"
    by (cases "h_exe h (e_pid ev)") (simp_all add: opt_strings_def read_creator_exe_def lossy_valid)
  moreover have "\<forall>s \<in> set (opt_strings (basename_of ?p)). utf8_valid s"
    using basename_valid [OF p] by (simp add: opt_strings_def split: option.split)
  ultimately show ?thesis
    unfolding event_strings_def set_append ball_Un using slash_prefix_valid [OF p] by simp
qed

section \<open>Rules and blocks\<close>

lemma utf8_butlast: "utf8_valid s \<Longrightarrow> str_strip_suffix_char c s = Some r \<Longrightarrow> (of_char c :: nat) < 0x80 \<Longrightarrow> utf8_valid r"
  using utf8_valid_split [of "butlast s" c "[]"]
  by (auto simp: str_strip_suffix_char_def str_ends_with_char_def split: if_splits)

lemma utf8_folder: "utf8_valid v \<Longrightarrow> utf8_valid (normalize_folder (fst (split_recursive v)))"
proof -
  assume v: "utf8_valid v"
  have "utf8_valid (fst (split_recursive v))"
    using v utf8_butlast [OF v, of "CHR ''*''"] by (simp add: split_recursive_def split: option.split)
  then show ?thesis by (simp add: normalize_folder_def utf8_valid_append utf8_valid_ascii)
qed

lemma rule_set_utf8: "utf8_valid v \<Longrightarrow> spec_utf8 spec \<Longrightarrow> spec_utf8 (fst (rule_set d v spec))"
  using utf8_folder [of v]
  by (cases d) (auto simp: rule_set_def Let_def spec_utf8_def utf8_opt_def split: prod.splits option.splits)

definition ctx_typed :: "origin_context \<Rightarrow> bool" where
  "ctx_typed ctx \<longleftrightarrow> utf8_valid (c_target_filename ctx) \<and> utf8_opt (c_landing_folder ctx) \<and>
    utf8_opt (c_landing_basename ctx) \<and> utf8_opt (c_creator_path ctx) \<and> utf8_valid (c_creator_comm ctx)"

lemma context_value_valid: "ctx_typed ctx \<Longrightarrow> context_value ctx d = Some v \<Longrightarrow> utf8_valid v"
  using folder_of_ok(2)
  by (cases d) (auto simp: ctx_typed_def utf8_opt_def non_empty_def show_u32_utf8 split: if_splits)

lemma rule_from_context_utf8:
  assumes "ctx_typed ctx"
  shows "spec_utf8 (rule_from_context ctx dims)"
proof -
  have "spec_utf8 (context_step ctx spec d)" if "spec_utf8 spec" for spec d
    using that rule_set_utf8 context_value_valid [OF assms] by (simp add: context_step_def split: option.split)
  then have "spec_utf8 spec \<Longrightarrow> spec_utf8 (foldl (context_step ctx) spec dims)" for spec
    by (induction dims arbitrary: spec) simp_all
  moreover have "spec_utf8 default_spec" by (simp add: default_spec_def spec_utf8_def utf8_opt_def)
  ultimately show ?thesis by (simp add: rule_from_context_def)
qed

context base64_standard
begin

lemma dim_line_printable: "dim_line E spec d = Some v \<Longrightarrow> \<forall>b \<in> set v. \<not> control_byte b"
proof -
  have e: "\<forall>b \<in> set (encode_value E x). \<not> control_byte b" for x
    using encode_value_safe by (simp add: line_safe_def line_byte_def)
  have "\<not> control_byte (CHR ''*'')" by (simp add: control_byte_def)
  then show "dim_line E spec d = Some v \<Longrightarrow> \<forall>b \<in> set v. \<not> control_byte b"
    using e show_u32_safe by (cases d) (auto simp: folder_line_def Let_def line_safe_def line_byte_def split: if_splits)
qed

lemma line_parts_printable: "\<forall>p \<in> set (line_parts E spec ds). \<forall>b \<in> set p. \<not> control_byte b"
proof (induction ds)
  case (Cons d ds)
  have "\<forall>b \<in> set (as_key d @ ''=''). \<not> control_byte b" by (cases d) (simp_all add: control_byte_def)
  with Cons dim_line_printable [of spec d] show ?case by (simp split: option.split) blast
qed simp

lemma line_printable:
  assumes "spec_utf8 spec"
  shows "utf8_valid (to_line E spec)" "\<forall>b \<in> set (to_line E spec). \<not> control_byte b"
proof -
  have "utf8_valid '';''" by (intro utf8_valid_ascii) simp
  then show "utf8_valid (to_line E spec)"
    unfolding to_line_def by (rule utf8_valid_join) (rule line_parts_utf8 [OF assms])
  show "\<forall>b \<in> set (to_line E spec). \<not> control_byte b"
  proof
    fix b assume "b \<in> set (to_line E spec)"
    then have "b = CHR '';'' \<or> (\<exists>p \<in> set (line_parts E spec DIM_ORDER). b \<in> set p)"
      using set_str_join [of "'';''" "line_parts E spec DIM_ORDER"] unfolding to_line_def by auto
    then show "\<not> control_byte b" using line_parts_printable by (elim disjE bexE) (simp add: control_byte_def, blast)
  qed
qed

end

text \<open>Every block of the table can go over the wire.\<close>

definition blocks_typed :: "blocks_table \<Rightarrow> bool" where
  "blocks_typed T \<longleftrightarrow> (\<forall>t r. bt_map T t = Some r \<longrightarrow> wire_ok r)"

lemma blocks_list_typed: "blocks_typed T \<Longrightarrow> \<forall>r \<in> set (blocks_list T). wire_ok r"
  by (auto simp: blocks_typed_def blocks_list_def List.map_filter_def)

lemma blocks_remove_typed: "blocks_typed T \<Longrightarrow> blocks_typed (fst (blocks_remove t T))"
  by (auto simp: blocks_typed_def blocks_remove_def split: option.splits)

lemma blocks_record_typed:
  assumes "blocks_typed T" "utf8_valid kind" "\<forall>c \<in> set kind. \<not> control_byte c"
    and "utf8_valid line" "\<forall>c \<in> set line. \<not> control_byte c" "utf8_valid target" "utf8_valid creator"
  shows "blocks_typed (fst (blocks_record kind line target creator dev ino T))"
proof -
  have new: "wire_ok \<lparr>b_token = block_token T line, b_kind = kind, b_rule_line = line, b_target = target,
      b_creator = creator, b_dev = dev, b_ino = ino\<rparr>"
    using assms token_plain [of T line] by (simp add: wire_ok_def ball_Un)
  have old: "wire_ok (r\<lparr>b_target := target, b_creator := creator, b_dev := dev, b_ino := ino\<rparr>)" if "wire_ok r" for r
    using that assms(6,7) by (simp add: wire_ok_def)
  show ?thesis
    using assms(1) new old
    by (auto simp: blocks_typed_def blocks_record_def Let_def split: option.splits list.splits)
qed

definition hs_typed :: "handler_state \<Rightarrow> bool" where
  "hs_typed st \<longleftrightarrow> db_typed (hs_db st) \<and> blocks_typed (hs_blocks st)"

lemma event_ctx_typed: "db_typed D \<Longrightarrow> ctx_typed (event_ctx h ev D)"
  by (auto simp: ctx_typed_def event_ctx_def c_str_to_string_def comm_to_string_def lossy_valid hashdb_resolve_def
      db_typed_def utf8_opt_def split: option.splits)

lemma on_file_marked_typed: "hs_typed st \<Longrightarrow> hs_typed (on_file_marked E h ev derived st)"
  by (simp add: on_file_marked_def augment_eq [OF refl] hs_typed_def db_all_typed event_strings_valid Let_def split: option.split)

context base64_standard
begin

lemma record_block_token_typed:
  assumes "hs_typed st" "utf8_valid kind" "\<forall>c \<in> set kind. \<not> control_byte c"
  shows "hs_typed (fst (record_block_token E h kind ev st))"
proof -
  have ctx: "ctx_typed (event_ctx h ev (hs_db st))" using assms(1) by (simp add: event_ctx_typed hs_typed_def)
  note line = line_printable [OF rule_from_context_utf8 [OF ctx, of ALLOW_DIMS]]
  let ?c = "event_ctx h ev (hs_db st)"
  let ?cr = "case c_creator_path ?c of Some s \<Rightarrow> if s \<noteq> [] then s else c_creator_comm ?c | None \<Rightarrow> c_creator_comm ?c"
  have cr: "utf8_valid ?cr" "utf8_valid (c_target_filename ?c)"
    using ctx by (auto simp: ctx_typed_def utf8_opt_def split: option.splits)
  have "blocks_typed (fst (blocks_record kind (to_line E (rule_from_context ?c ALLOW_DIMS)) (c_target_filename ?c) ?cr dev ino (hs_blocks st)))" for dev ino
    using assms by (intro blocks_record_typed line cr) (simp_all add: hs_typed_def)
  then show ?thesis
    using assms(1) by (simp add: record_block_token_def hs_typed_def Let_def case_prod_beta)
qed

lemma kinds_plain: "utf8_valid ''exec''" "\<forall>c \<in> set ''exec''. \<not> control_byte c" "utf8_valid ''script''" "\<forall>c \<in> set ''script''. \<not> control_byte c"
  by (simp_all add: utf8_valid_ascii control_byte_def)

lemma hs_typed_log: "hs_typed (st\<lparr>hs_log := l\<rparr>) = hs_typed st"
  by (simp add: hs_typed_def)

lemma maybe_soak_typed: "hs_typed st \<Longrightarrow> hs_typed (maybe_soak E h md ev st)"
  by (simp add: maybe_soak_def hs_typed_def Let_def split: option.split prod.split)

lemma handle_event_typed: "hs_typed st \<Longrightarrow> hs_typed (handle_event E h md c raw st)"
  using record_block_token_typed [OF _ kinds_plain(1,2)] record_block_token_typed [OF _ kinds_plain(3,4)]
  by (simp add: handle_event_def dispatch_event_def on_execve_marked_def on_script_exec_def Let_def on_file_marked_typed
      maybe_soak_typed hs_typed_log case_prod_beta split: option.split)

end

section \<open>The daemon\<close>

definition daemon_typed :: "daemon \<Rightarrow> bool" where
  "daemon_typed dm \<longleftrightarrow> db_typed (hs_db (dm_hs dm)) \<and> blocks_typed (blocks (dm_control dm))"

lemma typed_invariant:
  assumes "base64_standard E"
  shows "loop_invariant E daemon_typed (\<lambda>it. True)"
proof
  fix de :: daemon_env and dm md item
  assume "de_b64 de = E" "daemon_typed dm"
  then show "daemon_typed (handle_item de md item dm)"
    using base64_standard.handle_event_typed [OF assms, of "handler_view dm"]
    by (simp add: handle_item_def after_handler_def daemon_typed_def hs_typed_def handler_view_def)
next
  fix de dm assume "daemon_typed dm"
  then show "daemon_typed (fst (reseed_from_control de dm))"
    by (simp add: reseed_from_control_def daemon_typed_def split: sum.split prod.split)
qed (simp_all add: resolve_token_def say_def daemon_typed_def blocks_remove_typed)

lemma daemon_start_typed: "daemon_start E sn cfg k fs qf = (fs', Inr dm) \<Longrightarrow> daemon_typed dm"
  using hashdb_open_typed
  by (auto simp: daemon_start_def daemon_setup_def daemon_typed_def blocks_typed_def control_new_def blocks_new_def Let_def
      split: if_splits prod.splits sum.splits option.splits)

interpretation typed: loop_invariant rfc4648_engine daemon_typed "\<lambda>it. True"
  by (rule typed_invariant) (rule rfc4648.base64_standard_axioms)

end
