(* ===== verification/Install.thy ===== *)
theory Install
  imports Daemon
begin

text \<open>
  Installing and upgrading: \<open>linprov/src/install.rs\<close> (copying the binary, finding and vetting an upgrade
  source), \<open>linprov/src/upgrade.rs\<close> and the test for root of \<open>linprov/src/privilege.rs\<close>.

  The password database, the environment variables, the outputs of the programs that are run and
  the results of the file operations that can fail are in \<open>install_env\<close>. A file system maps the names
  of directory entries to files and symbolic links; \<open>dir_entry\<close> is the entry a path names once the links
  among its directories are followed, and a link holds the path at which the walk goes on. Printed text
  and log lines are left out; a command that is run is recorded with its arguments.
\<close>

section \<open>Files and accounts\<close>

record inst_file =
  i_data :: bytes
  i_mode :: u32
  i_uid :: u32
  i_regular :: bool

datatype fs_node = FileNode inst_file | LinkNode string

record inst_fs =
  nodes :: "string \<rightharpoonup> fs_node"
  dir_entry :: "string \<Rightarrow> string"

record passwd =
  pw_name :: "bytes option"
  pw_uid :: u32
  pw_gid :: u32
  pw_dir :: "bytes option"

record install_env =
  ie_getpwnam :: "string \<Rightarrow> passwd option"
  ie_getpwuid :: "u32 \<Rightarrow> passwd option"
  ie_var :: "string \<Rightarrow> string option"
  ie_logname :: "(bool \<times> bytes) option"
  ie_euid :: u32
  ie_exe :: "string option"
  ie_argv :: "string list"
  ie_umask :: u32
  ie_probe :: "string list \<Rightarrow> (bool \<times> bytes) option"
  ie_read_err :: "string \<Rightarrow> bool"
  ie_mkdir_ok :: "string \<Rightarrow> bool"
  ie_remove_ok :: bool
  ie_create_ok :: bool
  ie_open_ok :: bool
  ie_copy_err :: "nat option"
  ie_chmod_ok :: bool
  ie_rename_ok :: bool
  ie_pid :: u32
  ie_run :: "string list \<Rightarrow> bool option"

text \<open>A walk follows at most \<open>MAXSYMLINKS\<close> links, as in the kernel; its end need not exist.\<close>

definition MAXSYMLINKS :: nat where "MAXSYMLINKS = 40"

fun resolve :: "inst_fs \<Rightarrow> nat \<Rightarrow> string \<Rightarrow> string option" where
  "resolve fs 0 p =
    (case nodes fs (dir_entry fs p) of Some (LinkNode t) \<Rightarrow> None | _ \<Rightarrow> Some (dir_entry fs p))"
| "resolve fs (Suc n) p =
    (case nodes fs (dir_entry fs p) of Some (LinkNode t) \<Rightarrow> resolve fs n t | _ \<Rightarrow> Some (dir_entry fs p))"

definition follow_links :: "inst_fs \<Rightarrow> string \<Rightarrow> string option" where
  "follow_links fs p = resolve fs MAXSYMLINKS p"

text \<open>\<open>fs::metadata\<close>, \<open>canonicalize\<close>, \<open>exists\<close> and \<open>fs::read\<close> follow_links links.\<close>

definition metadata :: "inst_fs \<Rightarrow> string \<Rightarrow> inst_file option" where
  "metadata fs p =
    (case follow_links fs p of
       None \<Rightarrow> None
     | Some q \<Rightarrow> (case nodes fs q of Some (FileNode f) \<Rightarrow> Some f | _ \<Rightarrow> None))"

definition canon :: "inst_fs \<Rightarrow> string \<Rightarrow> string option" where
  "canon fs p = (if metadata fs p = None then None else follow_links fs p)"

definition path_exists :: "inst_fs \<Rightarrow> string \<Rightarrow> bool" where
  "path_exists fs p \<longleftrightarrow> metadata fs p \<noteq> None"

definition read_file :: "inst_fs \<Rightarrow> string \<Rightarrow> bytes option" where
  "read_file fs p = map_option i_data (metadata fs p)"

definition read_to_string :: "install_env \<Rightarrow> inst_fs \<Rightarrow> string \<Rightarrow> file_open_result" where
  "read_to_string ie fs p =
    (if ie_read_err ie p \<or> follow_links fs p = None then FileError
     else case read_file fs p of None \<Rightarrow> FileAbsent | Some bs \<Rightarrow> FileBytes bs)"

section \<open>Privileges\<close>

datatype root_result = IsRoot | ExeUnknown | SudoFailed "string list"

text \<open>When \<open>sudo\<close> starts, this process is replaced and nothing more happens in it.\<close>

definition require_root :: "install_env \<Rightarrow> root_result" where
  "require_root ie =
    (if ie_euid ie = 0 then IsRoot
     else case ie_exe ie of
       None \<Rightarrow> ExeUnknown
     | Some exe \<Rightarrow> SudoFailed (''sudo'' # ''--'' # exe # ie_argv ie))"

section \<open>The invoking user\<close>

definition pw_home :: "passwd option \<Rightarrow> string option" where
  "pw_home pw =
    (case pw of
       None \<Rightarrow> None
     | Some p \<Rightarrow> (case pw_dir p of None \<Rightarrow> None | Some d \<Rightarrow> if utf8_valid d then Some d else None))"

record invoking_user_row =
  iu_name :: string
  iu_uid :: u32
  iu_gid :: u32
  iu_home :: string

text \<open>A name with a NUL is no C string.\<close>

definition lookup_user :: "install_env \<Rightarrow> string \<Rightarrow> invoking_user_row option" where
  "lookup_user ie name =
    (if NUL \<in> set name then None
     else case ie_getpwnam ie name of
       None \<Rightarrow> None
     | Some pw \<Rightarrow>
        (case pw_home (Some pw) of
           None \<Rightarrow> None
         | Some home \<Rightarrow> Some \<lparr>iu_name = name, iu_uid = pw_uid pw, iu_gid = pw_gid pw, iu_home = home\<rparr>))"

definition home_dir_for :: "install_env \<Rightarrow> string \<Rightarrow> string option" where
  "home_dir_for ie user = (if NUL \<in> set user then None else pw_home (ie_getpwnam ie user))"

definition home_dir_for_uid :: "install_env \<Rightarrow> u32 \<Rightarrow> string option" where
  "home_dir_for_uid ie uid = pw_home (ie_getpwuid ie uid)"

definition username_for_uid :: "install_env \<Rightarrow> u32 \<Rightarrow> string option" where
  "username_for_uid ie uid =
    (case ie_getpwuid ie uid of
       None \<Rightarrow> None
     | Some p \<Rightarrow> (case pw_name p of None \<Rightarrow> None | Some n \<Rightarrow> if utf8_valid n then Some n else None))"

definition run_logname :: "install_env \<Rightarrow> string option" where
  "run_logname ie =
    (case ie_logname ie of
       None \<Rightarrow> None
     | Some (ok, out) \<Rightarrow>
        if \<not> ok then None
        else if \<not> utf8_valid out then None
        else let t = str_trim out in if t = [] then None else Some t)"

definition push_user :: "string \<Rightarrow> string list \<Rightarrow> string list" where
  "push_user s v = (if s \<noteq> [] \<and> s \<noteq> ''root'' \<and> s \<notin> set v then v @ [s] else v)"

definition push_opt :: "string option \<Rightarrow> string list \<Rightarrow> string list" where
  "push_opt s v = (case s of None \<Rightarrow> v | Some s \<Rightarrow> push_user s v)"

definition candidate_users :: "install_env \<Rightarrow> string list" where
  "candidate_users ie =
    (let v = push_opt (ie_var ie ''SUDO_USER'') [];
         v = push_opt (ie_var ie ''DOAS_USER'') v;
         v = (case ie_var ie ''PKEXEC_UID'' of
                None \<Rightarrow> v
              | Some s \<Rightarrow> (case parse_u32 s of None \<Rightarrow> v | Some uid \<Rightarrow> push_opt (username_for_uid ie uid) v))
     in push_opt (run_logname ie) v)"

fun find_map :: "('a \<Rightarrow> 'b option) \<Rightarrow> 'a list \<Rightarrow> 'b option" where
  "find_map f [] = None"
| "find_map f (x # xs) = (case f x of Some y \<Rightarrow> Some y | None \<Rightarrow> find_map f xs)"

definition invoking_user :: "install_env \<Rightarrow> invoking_user_row option" where
  "invoking_user ie = find_map (lookup_user ie) (candidate_users ie)"

section \<open>The upgrade source\<close>

definition cargo_bin :: "string \<Rightarrow> string" where
  "cargo_bin home = path_join (path_join (path_join home ''.cargo'') ''bin'') ''linprov''"

definition cargo_bin_for_user :: "install_env \<Rightarrow> inst_fs \<Rightarrow> string \<Rightarrow> string option" where
  "cargo_bin_for_user ie fs user =
    (case home_dir_for ie user of
       None \<Rightarrow> None
     | Some home \<Rightarrow> if path_exists fs (cargo_bin home) then Some (cargo_bin home) else None)"

definition cargo_install_source :: "install_env \<Rightarrow> inst_fs \<Rightarrow> string option" where
  "cargo_install_source ie fs =
    (case find_map (cargo_bin_for_user ie fs) (candidate_users ie) of
       Some p \<Rightarrow> Some p
     | None \<Rightarrow>
        (case home_dir_for_uid ie (ie_euid ie) of
           None \<Rightarrow> None
         | Some home \<Rightarrow> if path_exists fs (cargo_bin home) then Some (cargo_bin home) else None))"

definition trusted_owner_uids :: "install_env \<Rightarrow> u32 list" where
  "trusted_owner_uids ie =
    0 # ie_euid ie # map iu_uid (List.map_filter (lookup_user ie) (candidate_users ie))"

datatype install_error = SourceMissing | SourceNotRegular | SourceWritable u32 | SourceOwner u32
  | NoSource | NoCurrentExe | ResolveFailed | InstallDirFailed | TmpCreateFailed | SourceOpenFailed
  | CopyBinaryFailed | ChmodFailed | RenameFailed | DistroOwned string string
  | UnitReadFailed | CommandFailed "string list" | CommandExit "string list" | NeedsRoot

definition ensure_trusted_source :: "install_env \<Rightarrow> inst_fs \<Rightarrow> string \<Rightarrow> bool \<Rightarrow> install_error option" where
  "ensure_trusted_source ie fs source explicit =
    (case metadata fs source of
       None \<Rightarrow> Some SourceMissing
     | Some meta \<Rightarrow>
        if \<not> i_regular meta then Some SourceNotRegular
        else if i_mode meta AND 0x12 \<noteq> 0 then Some (SourceWritable (i_mode meta AND 0xFFF))
        else if explicit then None
        else if i_uid meta = 0 \<or> i_uid meta \<in> set (trusted_owner_uids ie) then None
        else Some (SourceOwner (i_uid meta)))"

definition same_path :: "inst_fs \<Rightarrow> string \<Rightarrow> string \<Rightarrow> bool" where
  "same_path fs a b =
    (case (canon fs a, canon fs b) of (Some ac, Some bc) \<Rightarrow> ac = bc | _ \<Rightarrow> False)"

definition resolve_source :: "install_env \<Rightarrow> inst_fs \<Rightarrow> string option \<Rightarrow> string \<Rightarrow> install_error + string" where
  "resolve_source ie fs explicit install_path =
    (case explicit of
       Some p \<Rightarrow> (case ensure_trusted_source ie fs p True of Some e \<Rightarrow> Inl e | None \<Rightarrow> Inr p)
     | None \<Rightarrow>
      (case cargo_install_source ie fs of
         Some p \<Rightarrow> (case ensure_trusted_source ie fs p False of Some e \<Rightarrow> Inl e | None \<Rightarrow> Inr p)
       | None \<Rightarrow>
        (case ie_exe ie of
           None \<Rightarrow> Inl NoCurrentExe
         | Some current \<Rightarrow>
            if same_path fs current install_path then Inl NoSource
            else (case ensure_trusted_source ie fs current True of Some e \<Rightarrow> Inl e | None \<Rightarrow> Inr current))))"

section \<open>Installing\<close>

datatype outcome = Installed | AlreadyCurrent

definition fs_read :: "install_env \<Rightarrow> inst_fs \<Rightarrow> string \<Rightarrow> bytes option" where
  "fs_read ie fs p = (if ie_read_err ie p then None else read_file fs p)"

definition dest_matches_running :: "install_env \<Rightarrow> inst_fs \<Rightarrow> string \<Rightarrow> string \<Rightarrow> bool" where
  "dest_matches_running ie fs sp dest =
    (case (metadata fs sp, metadata fs dest) of
       (Some s, Some d) \<Rightarrow>
         length (i_data s) = length (i_data d) \<and> fs_read ie fs sp = fs_read ie fs dest
     | _ \<Rightarrow> False)"

text \<open>\<open>with_file_name\<close> keeps a path that has no file name whole.\<close>

definition tmp_path :: "install_env \<Rightarrow> string \<Rightarrow> string" where
  "tmp_path ie dest =
    (let name = ''.linprov-new.'' @ show_u32 (ie_pid ie) in
     case path_file_name dest of
       None \<Rightarrow> path_join dest name
     | Some _ \<Rightarrow>
        (case path_parent dest of
           Some parent \<Rightarrow> if parent = [] then name else path_join parent name
         | None \<Rightarrow> name))"

text \<open>Creating, replacing and removing an entry does not follow_links a link there.\<close>

definition put_node :: "string \<Rightarrow> fs_node \<Rightarrow> inst_fs \<Rightarrow> inst_fs" where
  "put_node p n fs = fs\<lparr>nodes := (nodes fs)(dir_entry fs p \<mapsto> n)\<rparr>"

definition drop_node :: "string \<Rightarrow> inst_fs \<Rightarrow> inst_fs" where
  "drop_node p fs = fs\<lparr>nodes := (nodes fs)(dir_entry fs p := None)\<rparr>"

text \<open>
  The copy goes to a new sibling file which is then renamed over \<open>dest\<close>; a step that fails leaves the
  sibling as it is. The file is created with the umask applied, and \<open>fchmod\<close> sets 0755.
\<close>

definition install_to :: "install_env \<Rightarrow> string \<Rightarrow> string \<Rightarrow> inst_fs \<Rightarrow> inst_fs \<times> (install_error + outcome)" where
  "install_to ie orig dest fs =
    (case canon fs orig of
       None \<Rightarrow> (fs, Inl ResolveFailed)
     | Some s \<Rightarrow>
      if dest_matches_running ie fs s dest then (fs, Inr AlreadyCurrent)
      else if (case path_parent dest of Some parent \<Rightarrow> parent \<noteq> [] \<and> \<not> ie_mkdir_ok ie parent | None \<Rightarrow> False)
      then (fs, Inl InstallDirFailed)
      else let tmp = tmp_path ie dest;
               fs = (if ie_remove_ok ie then drop_node tmp fs else fs)
        in if nodes fs (dir_entry fs tmp) \<noteq> None \<or> \<not> ie_create_ok ie then (fs, Inl TmpCreateFailed)
           else let new = \<lparr>i_data = [], i_mode = 0x1ED AND NOT (ie_umask ie), i_uid = ie_euid ie, i_regular = True\<rparr>;
                    fs = put_node tmp (FileNode new) fs
             in case read_file fs s of
                  None \<Rightarrow> (fs, Inl SourceOpenFailed)
                | Some data \<Rightarrow>
                   if \<not> ie_open_ok ie then (fs, Inl SourceOpenFailed)
                   else case ie_copy_err ie of
                     Some n \<Rightarrow> (put_node tmp (FileNode (new\<lparr>i_data := take n data\<rparr>)) fs, Inl CopyBinaryFailed)
                   | None \<Rightarrow>
                      let new = new\<lparr>i_data := data\<rparr>; fs = put_node tmp (FileNode new) fs in
                      if \<not> ie_chmod_ok ie then (fs, Inl ChmodFailed)
                      else let new = new\<lparr>i_mode := 0x1ED\<rparr>; fs = put_node tmp (FileNode new) fs in
                      if \<not> ie_rename_ok ie then (fs, Inl RenameFailed)
                      else (put_node dest (FileNode new) (drop_node tmp fs), Inr Installed))"

text \<open>The three package managers; a probe that is not installed is skipped.\<close>

definition PROBES :: "(string \<times> string \<times> string) list" where
  "PROBES = [(''/usr/bin/dpkg'', ''-S'', ''dpkg''), (''/usr/bin/rpm'', ''-qf'', ''rpm''),
    (''/usr/bin/pacman'', ''-Qo'', ''pacman'')]"

fun probe_loop :: "install_env \<Rightarrow> string \<Rightarrow> (string \<times> string \<times> string) list \<Rightarrow> install_error option" where
  "probe_loop ie dest [] = None"
| "probe_loop ie dest ((tool, arg, name) # ps) =
    (case ie_probe ie [tool, arg, dest] of
       None \<Rightarrow> probe_loop ie dest ps
     | Some (ok, out) \<Rightarrow>
        if ok then Some (DistroOwned name (str_trim (from_utf8_lossy out))) else probe_loop ie dest ps)"

definition refuse_distro_owned :: "install_env \<Rightarrow> string \<Rightarrow> inst_fs \<Rightarrow> install_error option" where
  "refuse_distro_owned ie dest fs = (if \<not> path_exists fs dest then None else probe_loop ie dest PROBES)"

section \<open>Upgrading\<close>

datatype exec_start = UnitMissing | NoExecStart | ExecStartDiffers string | ExecStartMatches

text \<open>Comparing paths compares their components.\<close>

definition path_eq :: "string \<Rightarrow> string \<Rightarrow> bool" where
  "path_eq p q \<longleftrightarrow> path_absolute p = path_absolute q \<and> path_comps p = path_comps q"

definition exec_binary :: "string \<Rightarrow> string option" where
  "exec_binary text =
    map_option (\<lambda>l. case str_split_whitespace (str_trim l) of [] \<Rightarrow> [] | b # _ \<Rightarrow> b)
      (find_map (str_strip_prefix ''ExecStart='') (str_lines text))"

definition check_exec_start_matches ::
    "install_env \<Rightarrow> inst_fs \<Rightarrow> string \<Rightarrow> string \<Rightarrow> install_error + exec_start" where
  "check_exec_start_matches ie fs unit_file install_path =
    (case read_to_string ie fs unit_file of
       FileAbsent \<Rightarrow> Inr UnitMissing
     | FileError \<Rightarrow> Inl UnitReadFailed
     | FileBytes bs \<Rightarrow>
        if \<not> utf8_valid bs then Inl UnitReadFailed
        else (case exec_binary bs of
                None \<Rightarrow> Inr NoExecStart
              | Some b \<Rightarrow> Inr (if path_eq b install_path then ExecStartMatches else ExecStartDiffers b)))"

fun run_commands :: "install_env \<Rightarrow> string list list \<Rightarrow> string list list \<times> install_error option" where
  "run_commands ie [] = ([], None)"
| "run_commands ie (cmd # cmds) =
    (case ie_run ie cmd of
       None \<Rightarrow> ([cmd], Some (CommandFailed cmd))
     | Some ok \<Rightarrow>
        if \<not> ok then ([cmd], Some (CommandExit cmd))
        else case run_commands ie cmds of (cs, e) \<Rightarrow> (cmd # cs, e))"

definition systemctl :: "install_env \<Rightarrow> string \<Rightarrow> bool \<Rightarrow> string list list \<times> install_error option" where
  "systemctl ie u dry_run =
    (let cmds = [[''systemctl'', ''daemon-reload''], [''systemctl'', ''restart'', u]] in
     if dry_run then ([], None) else run_commands ie cmds)"

record upgrade_args =
  ua_unit :: string
  ua_unit_file :: string
  ua_install_path :: string
  ua_source :: "string option"
  ua_no_install :: bool
  ua_dry_run :: bool

text \<open>The state, the commands that were run, and the error if there was one.\<close>

definition upgrade_install :: "install_env \<Rightarrow> upgrade_args \<Rightarrow> inst_fs \<Rightarrow> inst_fs \<times> (install_error + bool)" where
  "upgrade_install ie args fs =
    (if ua_no_install args then (fs, Inr True)
     else case resolve_source ie fs (ua_source args) (ua_install_path args) of
       Inl e \<Rightarrow> (fs, Inl e)
     | Inr source \<Rightarrow>
        if ua_dry_run args then (fs, Inr True)
        else case refuse_distro_owned ie (ua_install_path args) fs of
          Some e \<Rightarrow> (fs, Inl e)
        | None \<Rightarrow>
           (case install_to ie source (ua_install_path args) fs of (fs, res) \<Rightarrow>
              (fs, case res of Inl e \<Rightarrow> Inl e | Inr Installed \<Rightarrow> Inr True | Inr AlreadyCurrent \<Rightarrow> Inr False)))"

definition upgrade_run ::
    "install_env \<Rightarrow> upgrade_args \<Rightarrow> inst_fs \<Rightarrow>
      inst_fs \<times> string list list \<times> install_error option" where
  "upgrade_run ie args fs =
    (if \<not> ua_dry_run args \<and> require_root ie \<noteq> IsRoot then (fs, [], Some NeedsRoot)
     else case upgrade_install ie args fs of (fs, res) \<Rightarrow>
       (case res of
          Inl e \<Rightarrow> (fs, [], Some e)
        | Inr changed \<Rightarrow>
           (case check_exec_start_matches ie fs (ua_unit_file args) (ua_install_path args) of
              Inl e \<Rightarrow> (fs, [], Some e)
            | Inr _ \<Rightarrow>
               if \<not> changed then (fs, [], None)
               else case systemctl ie (ua_unit args) (ua_dry_run args) of (cmds, e) \<Rightarrow> (fs, cmds, e))))"

end
