(* ===== verification/Setup.thy ===== *)
theory Setup
  imports Install
begin

text \<open>
  \<open>linprov/src/setup.rs\<close>: the first-time installer. It writes the configuration, an empty allowlist and a
  systemd unit, and on a terminal asks before it enables the tray for the invoking user.

  The state is the file system of \<open>Install\<close> and the commands that were run, with the identity they ran
  under. An answer of the user is a line, \<open>None\<close> when reading it failed; at the end of the input it is
  empty. What is printed is in \<open>Reports\<close>.
\<close>

section \<open>Text\<close>

definition unlines :: "string list \<Rightarrow> string" where
  "unlines ls = concat (map (\<lambda>l. l @ [CHR 0x0A]) ls)"

definition ascii_lower :: "char \<Rightarrow> char" where
  "ascii_lower c = (let n = (of_char c :: nat) in if 65 \<le> n \<and> n \<le> 90 then char_of (n + 32) else c)"

definition parse_yes_no :: "string \<Rightarrow> bool \<Rightarrow> bool" where
  "parse_yes_no input default_yes =
    (let s = map ascii_lower (str_trim input) in
     if s = ''y'' \<or> s = ''yes'' then True
     else if s = ''n'' \<or> s = ''no'' then False
     else default_yes)"

definition RIGHT_ARROW :: string where "RIGHT_ARROW = [CHR 0xE2, CHR 0x86, CHR 0x92]"

definition TRAY_LINE :: string where
  \<open>TRAY_LINE = ''notifications = "tray"''\<close>

text \<open>A line that mentions the setting, commented or not.\<close>

definition mentions_tray :: "string \<Rightarrow> bool" where
  "mentions_tray line \<longleftrightarrow>
    str_starts_with ''notifications'' (str_trim_start (dropWhile (\<lambda>c. c = CHR ''#'') (str_trim_start line)))"

fun tray_lines :: "string list \<Rightarrow> bool \<Rightarrow> string list \<times> bool" where
  "tray_lines [] seen = ([], seen)"
| "tray_lines (l # ls) seen =
    (if \<not> seen \<and> mentions_tray l
     then (case tray_lines ls True of (out, seen) \<Rightarrow> (TRAY_LINE # out, seen))
     else (case tray_lines ls seen of (out, seen) \<Rightarrow> (l # out, seen)))"

definition ensure_tray_line :: "string \<Rightarrow> string" where
  "ensure_tray_line text =
    (case tray_lines (str_lines text) False of (ls, seen) \<Rightarrow>
       let out = unlines ls in
       if seen then out
       else (if out \<noteq> [] \<and> \<not> str_ends_with_char (CHR 0x0A) out then out @ [CHR 0x0A] else out) @
         TRAY_LINE @ [CHR 0x0A])"

text \<open>The configuration file that is written, with its own path and the path of the allowlist.\<close>

definition config_body :: "string \<Rightarrow> string \<Rightarrow> string" where
  \<open>config_body a0 a1 = unlines
    [''# linprov config. Loaded by `linprov run --config '' @ a0 @ ''` and by'',
     ''# the systemd unit that `linprov setup` drops. Re-run `linprov setup'',
     ''# --force` to regenerate; edit by hand any time.'',
     [],
     ''# observe = log only (safe default '' @ EM_DASH @ '' never blocks)'',
     ''# soak    = log + append a rule to `allowlist` for each marked execve'',
     ''# enforce = block any marked execve whose origin doesn't match a rule'',
     ''#'',
     ''# Suggested workflow:'',
     ''#   1. `sudo linprov run --mode soak` '' @ EM_DASH @ '' use your machine normally for'',
     ''#      a while; rules accumulate in the allowlist below.'',
     ''#   2. Skim the allowlist; trim anything you don't actually want'',
     ''#      permitted.'',
     ''#   3. Flip the line below to `mode = "enforce"`.'',
     ''#   4. Enable the systemd unit (`sudo systemctl enable --now'',
     ''#      linprov.service`) '' @ EM_DASH @ '' or `linprov upgrade` if it's already'',
     ''#      running.'',
     ''mode = "observe"'',
     [],
     ''# One rule per line; conditions within a line AND, lines OR.'',
     ''allowlist = "'' @ a1 @ ''"'',
     [],
     ''# trace | debug | info | warn | error'',
     ''log_level = "info"'',
     [],
     ''# By default, connect()s to 127.0.0.0/8 and ::1 don't mark the PID'',
     ''# as network-touched. Flip to `true` to include them.'',
     ''mark_localhost = false'',
     [],
     ''# Dimensions soak mode AND-joins into each emitted rule. Default keeps'',
     ''# things simple '' @ EM_DASH @ '' one rule per distinct creator binary '' @ EM_DASH @ '' but you can'',
     ''# mix `creator_uid`, `target_folder`, `landing_filename`, etc.'',
     ''soak = ["creator_process"]'',
     [],
     ''# Plaintext audit db mapping the FNV hashes stored in xattrs/records'',
     ''# back to their paths. Lets the daemon log readable paths, lets soak'',
     ''# emit plaintext rules, and lets you `grep` what's been marked. Persists'',
     ''# across reboots; enforcement never reads it. Default shown:'',
     ''# hash_db = "/var/lib/linprov/hashes.tsv"'',
     [],
     ''# Desktop tray agent. "off" (default) keeps the control socket root-only.'',
     ''# "tray" chmods it 0660 group `linprov` so a user-session `linprov notify`'',
     ''# tray agent can subscribe to blocks and apply allows. Easiest path: re-run'',
     ''# `linprov setup` on a desktop and accept the tray prompts '' @ EM_DASH @ '' it sets this,'',
     ''# adds you to the `linprov` group, and installs a `systemd --user` service'',
     ''# that autostarts the agent. By hand: add your user to the group'',
     ''# (`sudo usermod -aG linprov $USER`, re-login) and run `linprov notify` from'',
     ''# your session (needs a tray host like waybar's tray module).'',
     ''# notifications = "tray"'',
     [],
     ''# Script interpreters (by `comm`) whose reads of a marked file are'',
     ''# enforced like an execve '' @ EM_DASH @ '' so `bash foo.sh` / `python foo.py` /'',
     ''# `. foo.sh` honor the same policy as `./foo.sh`. A rule keyed on the'',
     ''# script (target_filename / target_folder) permits both forms. Defaults'',
     ''# to the common shells / runtimes (shown below). Set to `[]` to disable'',
     ''# script enforcement. Note: an interpreter reading a marked *data* file'',
     ''# is subject to the same check '' @ EM_DASH @ '' allowlist it or trim this list.'',
     ''# interpreters = ["sh", "bash", "dash", "zsh", "python", "python3", "perl", "ruby", "node", "php", "lua", "awk"]'',
     [],
     ''# Optional: append logs to a file instead of stderr. Leave commented'',
     ''# out under systemd '' @ EM_DASH @ '' journald captures stderr automatically. Useful'',
     ''# if you run linprov outside of systemd (`runit`, manual, container).'',
     ''# log_file = "/var/log/linprov.log"'']\<close>

text \<open>The systemd unit, with the binary and the configuration file.\<close>

definition unit_lines :: "string \<Rightarrow> string \<Rightarrow> string list" where
  \<open>unit_lines a0 a1 =
    [''[Unit]'',
     ''Description=linprov: eBPF mark-of-the-web for Linux'',
     ''Documentation=https://github.com/FridayOrtiz/linprov'',
     ''After=network.target'',
     [],
     ''[Service]'',
     ''Type=simple'',
     ''ExecStart='' @ a0 @ '' run --config '' @ a1,
     ''# `systemctl reload linprov` '' @ RIGHT_ARROW @ '' SIGHUP '' @ RIGHT_ARROW @ '' re-parse the allowlist and'',
     ''# re-seed the in-kernel rules live, without a restart.'',
     ''ExecReload=/bin/kill -HUP $MAINPID'',
     ''# systemd creates/owns /run/linprov for the control socket (cleaned up'',
     ''# when the unit stops). The daemon chowns it to the `linprov` group and'',
     ''# tightens/loosens perms per `notifications`; 0750 here lets the group'',
     ''# traverse in `tray` mode (a 0660 socket in a 0700 dir is unreachable).'',
     ''RuntimeDirectory=linprov'',
     ''RuntimeDirectoryMode=0750'',
     ''Restart=on-failure'',
     ''RestartSec=5s'',
     [],
     ''# linprov needs root to load the BPF program, attach LSM hooks, and'',
     ''# write `security.bpf.linprov.origin` xattrs across the filesystem.'',
     ''User=root'',
     [],
     ''[Install]'',
     ''WantedBy=multi-user.target'']\<close>

definition unit_body :: "string \<Rightarrow> string \<Rightarrow> string" where
  "unit_body a0 a1 = unlines (unit_lines a0 a1)"

definition allowlist_lines :: "string list" where
  "allowlist_lines =
    [''# linprov allowlist. One rule per line; conditions within a line'',
     ''# AND together; multiple lines OR. Example:'',
     ''#   creator_uid=1000;creator_comm=curl'',
     ''#   execution_uid=1000;creator_comm=firefox;target_folder=/home/user/.local/bin'']"

definition allowlist_body :: string where
  "allowlist_body = unlines allowlist_lines"

definition notify_unit_body :: "string \<Rightarrow> string" where
  "notify_unit_body binary = unlines
    [''[Unit]'', ''Description=linprov desktop tray agent'',
     ''Documentation=https://github.com/FridayOrtiz/linprov'', ''After=graphical-session.target'', [],
     ''[Service]'', ''Type=simple'', ''ExecStart='' @ binary @ '' notify'', ''Restart=on-failure'', ''RestartSec=2'', [],
     ''[Install]'', ''WantedBy=default.target'']"

section \<open>State\<close>

record setup_args =
  sa_config :: string
  sa_allowlist :: string
  sa_install_path :: string
  sa_no_install :: bool
  sa_systemd_unit :: string
  sa_no_systemd :: bool
  sa_force :: bool
  sa_yes :: bool

record setup_env =
  se_ie :: install_env
  se_tty :: bool
  se_open_ok :: "string \<Rightarrow> bool"
  se_write_err :: "string \<Rightarrow> nat option"
  se_run_user :: "u32 \<Rightarrow> string list option"
  se_display :: bool
  se_id_output :: "string \<Rightarrow> bytes option"
  se_fork_ok :: bool
  se_wait_ok :: bool
  se_exited :: bool
  se_initgroups_ok :: bool
  se_setgid_ok :: bool
  se_setuid :: "(u32 \<times> u32) option"
  se_user_mkdir_ok :: bool
  se_user_open :: "u32 \<Rightarrow> string \<Rightarrow> bool"

text \<open>Under which identity a command runs: the user and group, and the variables that are set for it.\<close>

datatype run_as = AsSelf | AsUser u32 u32 "(string \<times> string) list"

record setup_state =
  su_fs :: inst_fs
  su_cmds :: "(run_as \<times> string list) list"
  su_answers :: "string option list"

datatype setup_error = SetupInstall install_error | ParentFailed string | WriteFailed string
  | AnswerFailed | ConfigUnreadable | UsermodFailed | ForkFailed | WaitFailed | HelperExit "nat option" | SoakNotStarted

text \<open>The operator \<open>?\<close>: what was done before an error stays done.\<close>

definition and_then :: "'s \<times> 'e option \<Rightarrow> ('s \<Rightarrow> 's \<times> 'e option) \<Rightarrow> 's \<times> 'e option" where
  "and_then r f = (case r of (st, None) \<Rightarrow> f st | (st, Some e) \<Rightarrow> (st, Some e))"

definition on_fs :: "(inst_fs \<Rightarrow> inst_fs \<times> 'e option) \<Rightarrow> setup_state \<Rightarrow> setup_state \<times> 'e option" where
  "on_fs f st = (case f (su_fs st) of (fs, e) \<Rightarrow> (st\<lparr>su_fs := fs\<rparr>, e))"

section \<open>Files\<close>

text \<open>
  \<open>fs::write\<close> truncates the file the path leads to, or creates it, and writes; a write that fails after
  \<open>n\<close> bytes leaves these bytes.
\<close>

definition write_bytes :: "string \<Rightarrow> u32 \<Rightarrow> u32 \<Rightarrow> bytes \<Rightarrow> inst_fs \<Rightarrow> inst_fs" where
  "write_bytes q uid mode body fs =
    fs\<lparr>nodes := (nodes fs)(q \<mapsto> FileNode
      (case nodes fs q of
         Some (FileNode f) \<Rightarrow> f\<lparr>i_data := body\<rparr>
       | _ \<Rightarrow> \<lparr>i_data = body, i_mode = mode, i_uid = uid, i_regular = True\<rparr>))\<rparr>"

definition write_text :: "setup_env \<Rightarrow> string \<Rightarrow> string \<Rightarrow> inst_fs \<Rightarrow> inst_fs \<times> setup_error option" where
  "write_text se p body fs =
    (case follow_links fs p of
       None \<Rightarrow> (fs, Some (WriteFailed p))
     | Some q \<Rightarrow>
        let ie = se_ie se; mode = 0x1B6 AND NOT (ie_umask ie) in
        if \<not> se_open_ok se p then (fs, Some (WriteFailed p))
        else case se_write_err se p of
          Some n \<Rightarrow> (write_bytes q (ie_euid ie) mode (take n body) fs, Some (WriteFailed p))
        | None \<Rightarrow> (write_bytes q (ie_euid ie) mode body fs, None))"

definition set_mode :: "string \<Rightarrow> u32 \<Rightarrow> inst_fs \<Rightarrow> inst_fs" where
  "set_mode p mode fs =
    (case (follow_links fs p, metadata fs p) of
       (Some q, Some f) \<Rightarrow> fs\<lparr>nodes := (nodes fs)(q \<mapsto> FileNode (f\<lparr>i_mode := mode\<rparr>))\<rparr>
     | _ \<Rightarrow> fs)"

definition ensure_parent :: "setup_env \<Rightarrow> string \<Rightarrow> bool" where
  "ensure_parent se p =
    (case path_parent p of
       Some parent \<Rightarrow> parent = [] \<or> ie_mkdir_ok (se_ie se) parent
     | None \<Rightarrow> True)"

text \<open>
  The step the three files share: an existing file is left alone without \<open>--force\<close>, else the parent is
  created, the text is written and the mode is set, which may fail silently.
\<close>

definition write_new :: "setup_env \<Rightarrow> bool \<Rightarrow> string \<Rightarrow> string \<Rightarrow> u32 option \<Rightarrow> inst_fs \<Rightarrow> inst_fs \<times> setup_error option" where
  "write_new se force p body mode fs =
    (if path_exists fs p \<and> \<not> force then (fs, None)
     else if \<not> ensure_parent se p then (fs, Some (ParentFailed p))
     else and_then (write_text se p body fs) (\<lambda>fs.
       (case mode of Some m \<Rightarrow> if ie_chmod_ok (se_ie se) then set_mode p m fs else fs | None \<Rightarrow> fs, None)))"

definition write_config :: "setup_env \<Rightarrow> string \<Rightarrow> string \<Rightarrow> bool \<Rightarrow> inst_fs \<Rightarrow> inst_fs \<times> setup_error option" where
  "write_config se path allowlist force = write_new se force path (config_body (from_utf8_lossy path) (from_utf8_lossy allowlist)) None"

definition write_empty_allowlist :: "setup_env \<Rightarrow> string \<Rightarrow> bool \<Rightarrow> inst_fs \<Rightarrow> inst_fs \<times> setup_error option" where
  "write_empty_allowlist se path force = write_new se force path allowlist_body (Some 0x1A0)"

definition write_systemd_unit ::
    "setup_env \<Rightarrow> string \<Rightarrow> string \<Rightarrow> string \<Rightarrow> bool \<Rightarrow> inst_fs \<Rightarrow> inst_fs \<times> setup_error option" where
  "write_systemd_unit se unit_path binary config force =
    write_new se force unit_path (unit_body (from_utf8_lossy binary) (from_utf8_lossy config)) (Some 0x1A4)"

text \<open>Rewriting the configuration reads all of it first.\<close>

definition set_config_notifications_tray :: "setup_env \<Rightarrow> string \<Rightarrow> inst_fs \<Rightarrow> inst_fs \<times> setup_error option" where
  "set_config_notifications_tray se path fs =
    (case fs_read (se_ie se) fs path of
       None \<Rightarrow> (fs, Some ConfigUnreadable)
     | Some text \<Rightarrow>
        if \<not> utf8_valid text then (fs, Some ConfigUnreadable)
        else write_text se path (ensure_tray_line text) fs)"

section \<open>The tray of the invoking user\<close>

text \<open>A question: \<open>k\<close> goes on with the answer.\<close>

definition prompt_yes_no ::
    "bool \<Rightarrow> (bool \<Rightarrow> setup_state \<Rightarrow> setup_state \<times> setup_error option) \<Rightarrow> setup_state \<Rightarrow>
      setup_state \<times> setup_error option" where
  "prompt_yes_no default_yes k st =
    (case su_answers st of
       [] \<Rightarrow> k (parse_yes_no [] default_yes) st
     | None # as \<Rightarrow> (st\<lparr>su_answers := as\<rparr>, Some AnswerFailed)
     | Some a # as \<Rightarrow> k (parse_yes_no a default_yes) (st\<lparr>su_answers := as\<rparr>))"

definition graphical_session :: "setup_env \<Rightarrow> invoking_user_row \<Rightarrow> bool" where
  "graphical_session se user \<longleftrightarrow>
    (case se_run_user se (iu_uid user) of
       Some names \<Rightarrow> list_ex (\<lambda>n. str_starts_with ''wayland-'' (from_utf8_lossy n)) names
     | None \<Rightarrow> False) \<or> se_display se"

definition user_in_linprov_group :: "setup_env \<Rightarrow> string \<Rightarrow> bool" where
  "user_in_linprov_group se user =
    (case se_id_output se user of
       None \<Rightarrow> False
     | Some out \<Rightarrow> list_ex (\<lambda>g. g = ''linprov'') (str_split_whitespace (from_utf8_lossy out)))"

definition run_cmd :: "setup_env \<Rightarrow> string list \<Rightarrow> setup_state \<Rightarrow> setup_state \<times> bool option" where
  "run_cmd se cmd st = (st\<lparr>su_cmds := su_cmds st @ [(AsSelf, cmd)]\<rparr>, ie_run (se_ie se) cmd)"

definition systemd_unit_active :: "setup_env \<Rightarrow> setup_state \<Rightarrow> setup_state \<times> bool" where
  "systemd_unit_active se st =
    (case run_cmd se [''systemctl'', ''is-active'', ''--quiet'', ''linprov.service''] st of (st, res) \<Rightarrow> (st, res = Some True))"

definition restart_system_unit :: "setup_env \<Rightarrow> setup_state \<Rightarrow> setup_state" where
  "restart_system_unit se st = fst (run_cmd se [''systemctl'', ''restart'', ''linprov.service''] st)"

definition ensure_linprov_group :: "setup_env \<Rightarrow> setup_state \<Rightarrow> setup_state" where
  "ensure_linprov_group se st = fst (run_cmd se [''groupadd'', ''-f'', ''linprov''] st)"

definition add_user_to_group :: "setup_env \<Rightarrow> string \<Rightarrow> setup_state \<Rightarrow> setup_state \<times> setup_error option" where
  "add_user_to_group se user st =
    (case run_cmd se [''usermod'', ''-aG'', ''linprov'', user] st of (st, res) \<Rightarrow>
       (st, if res = Some True then None else Some UsermodFailed))"

text \<open>
  The child that becomes the user. Each step that fails gives its exit code; \<open>setuid\<close> gives the real and
  the effective user id it leaves, which are checked before anything is written. The kernel opens an
  existing file for writing only to root, to its owner and, if the mode lets them, to group and others;
  it may refuse for other reasons (\<open>se_user_open\<close>).
\<close>

definition may_write :: "u32 \<Rightarrow> inst_file \<Rightarrow> bool" where
  "may_write euid f \<longleftrightarrow> euid = 0 \<or> i_uid f = euid \<or> i_mode f AND 0x12 \<noteq> 0"

definition write_as :: "setup_env \<Rightarrow> u32 \<Rightarrow> string \<Rightarrow> string \<Rightarrow> inst_fs \<Rightarrow> inst_fs \<times> bool" where
  "write_as se euid p body fs =
    (case follow_links fs p of
       None \<Rightarrow> (fs, False)
     | Some q \<Rightarrow>
        if \<not> se_user_open se euid q \<or> (case nodes fs q of Some (FileNode f) \<Rightarrow> \<not> may_write euid f | _ \<Rightarrow> False)
        then (fs, False)
        else case se_write_err se p of
          Some n \<Rightarrow> (write_bytes q euid 0x180 (take n body) fs, False)
        | None \<Rightarrow> (write_bytes q euid 0x180 body fs, True))"

definition drop_to_user_and_write ::
    "setup_env \<Rightarrow> invoking_user_row \<Rightarrow> string \<Rightarrow> string \<Rightarrow> inst_fs \<Rightarrow> inst_fs \<times> nat" where
  "drop_to_user_and_write se user p body fs =
    (if NUL \<in> set (iu_name user) then (fs, 11)
     else if \<not> se_initgroups_ok se then (fs, 12)
     else if \<not> se_setgid_ok se then (fs, 13)
     else case se_setuid se of
       None \<Rightarrow> (fs, 14)
     | Some (uid, euid) \<Rightarrow>
        if uid \<noteq> iu_uid user \<or> euid \<noteq> iu_uid user then (fs, 15)
        else if \<not> se_user_mkdir_ok se then (fs, 16)
        else case write_as se euid p body fs of (fs, ok) \<Rightarrow> (fs, if ok then 0 else 17))"

definition write_user_tree_as_user ::
    "setup_env \<Rightarrow> invoking_user_row \<Rightarrow> string \<Rightarrow> string \<Rightarrow> inst_fs \<Rightarrow> inst_fs \<times> setup_error option" where
  "write_user_tree_as_user se user p body fs =
    (if \<not> se_fork_ok se then (fs, Some ForkFailed)
     else case drop_to_user_and_write se user p body fs of (fs, code) \<Rightarrow>
       (fs, if \<not> se_wait_ok se then Some WaitFailed
            else if \<not> se_exited se then Some (HelperExit None)
            else if code \<noteq> 0 then Some (HelperExit (Some code))
            else None))"

definition user_unit_path :: "invoking_user_row \<Rightarrow> string" where
  "user_unit_path user =
    path_join (path_join (path_join (path_join (iu_home user) ''.config'') ''systemd'') ''user'') ''linprov-notify.service''"

definition write_user_notify_unit :: "setup_env \<Rightarrow> invoking_user_row \<Rightarrow> string \<Rightarrow> inst_fs \<Rightarrow> inst_fs \<times> setup_error option" where
  "write_user_notify_unit se user binary =
    write_user_tree_as_user se user (user_unit_path user) (notify_unit_body (from_utf8_lossy binary))"

definition enable_user_unit :: "invoking_user_row \<Rightarrow> setup_state \<Rightarrow> setup_state" where
  "enable_user_unit user st =
    (let runtime = ''/run/user/'' @ show_u32 (iu_uid user);
         as = AsUser (iu_uid user) (iu_gid user)
           [(''XDG_RUNTIME_DIR'', runtime), (''DBUS_SESSION_BUS_ADDRESS'', ''unix:path='' @ runtime @ ''/bus''),
            (''HOME'', iu_home user)]
     in st\<lparr>su_cmds := su_cmds st @
          [(as, [''systemctl'', ''--user'', ''daemon-reload'']),
           (as, [''systemctl'', ''--user'', ''enable'', ''--now'', ''linprov-notify.service''])]\<rparr>)"

definition setup_tray_ui ::
    "setup_env \<Rightarrow> setup_args \<Rightarrow> string \<Rightarrow> invoking_user_row \<Rightarrow> setup_state \<Rightarrow> setup_state \<times> setup_error option" where
  "setup_tray_ui se args binary user st =
    and_then (prompt_yes_no True (\<lambda>yes st.
        if yes then on_fs (set_config_notifications_tray se (sa_config args)) st else (st, None)) st) (\<lambda>st.
    and_then (prompt_yes_no True (\<lambda>yes st.
        if yes \<and> \<not> user_in_linprov_group se (iu_name user) then add_user_to_group se (iu_name user) st
        else (st, None)) st) (\<lambda>st.
    prompt_yes_no True (\<lambda>yes st.
        if yes then and_then (on_fs (write_user_notify_unit se user binary) st) (\<lambda>st. (enable_user_unit user st, None))
        else (st, None)) st))"

section \<open>The walkthrough and the run\<close>

definition tray_step :: "setup_env \<Rightarrow> setup_args \<Rightarrow> string \<Rightarrow> setup_state \<Rightarrow> setup_state \<times> setup_error option" where
  "tray_step se args binary st =
    (case invoking_user (se_ie se) of
       Some user \<Rightarrow>
         if graphical_session se user
         then prompt_yes_no True (\<lambda>yes st. if yes then setup_tray_ui se args binary user st else (st, None)) st
         else (st, None)
     | None \<Rightarrow> (st, None))"

definition restart_step :: "setup_env \<Rightarrow> setup_state \<Rightarrow> setup_state \<times> setup_error option" where
  "restart_step se st =
    (case systemd_unit_active se st of (st, active) \<Rightarrow>
       if active
       then prompt_yes_no False (\<lambda>yes st. (if yes then restart_system_unit se st else st, None)) st
       else (st, None))"

text \<open>A soak that starts replaces the process, so that nothing of this run comes after it.\<close>

definition soak_step :: "setup_env \<Rightarrow> string \<Rightarrow> setup_state \<Rightarrow> setup_state \<times> setup_error option" where
  "soak_step se binary st =
    prompt_yes_no False (\<lambda>yes st.
      if yes then (case run_cmd se [binary, ''run'', ''--mode'', ''soak''] st of (st, res) \<Rightarrow>
                     (st, if res = None then Some SoakNotStarted else None))
      else (st, None)) st"

definition walkthrough :: "setup_env \<Rightarrow> setup_args \<Rightarrow> string \<Rightarrow> setup_state \<Rightarrow> setup_state \<times> setup_error option" where
  "walkthrough se args binary st =
    and_then (tray_step se args binary st) (\<lambda>st. and_then (restart_step se st) (soak_step se binary))"

definition setup_interactive :: "setup_env \<Rightarrow> bool \<Rightarrow> bool" where
  "setup_interactive se yes \<longleftrightarrow> \<not> yes \<and> se_tty se"

text \<open>The path the unit starts: where the binary was installed, or where it is.\<close>

definition setup_binary :: "setup_env \<Rightarrow> setup_args \<Rightarrow> inst_fs \<Rightarrow> inst_fs \<times> (setup_error + string)" where
  "setup_binary se args fs =
    (case ie_exe (se_ie se) of
       None \<Rightarrow> (fs, Inl (SetupInstall NoCurrentExe))
     | Some current \<Rightarrow>
        if sa_no_install args then (fs, Inr current)
        else case refuse_distro_owned (se_ie se) (sa_install_path args) fs of
          Some e \<Rightarrow> (fs, Inl (SetupInstall e))
        | None \<Rightarrow>
           (case install_to (se_ie se) current (sa_install_path args) fs of (fs, res) \<Rightarrow>
              (fs, case res of Inl e \<Rightarrow> Inl (SetupInstall e) | Inr _ \<Rightarrow> Inr (sa_install_path args))))"

definition setup_run :: "setup_env \<Rightarrow> setup_args \<Rightarrow> setup_state \<Rightarrow> setup_state \<times> setup_error option" where
  "setup_run se args st =
    (if require_root (se_ie se) \<noteq> IsRoot then (st, Some (SetupInstall NeedsRoot))
     else case setup_binary se args (su_fs st) of (fs, res) \<Rightarrow>
       let st = st\<lparr>su_fs := fs\<rparr> in
       (case res of
          Inl e \<Rightarrow> (st, Some e)
        | Inr binary \<Rightarrow>
           and_then (on_fs (write_config se (sa_config args) (sa_allowlist args) (sa_force args)) st) (\<lambda>st.
           and_then (on_fs (write_empty_allowlist se (sa_allowlist args) (sa_force args)) st) (\<lambda>st.
           let st = ensure_linprov_group se st in
           and_then (if sa_no_systemd args then (st, None)
                     else on_fs (write_systemd_unit se (sa_systemd_unit args) binary (sa_config args) (sa_force args)) st)
             (\<lambda>st. if setup_interactive se (sa_yes args) then walkthrough se args binary st else (st, None))))))"

end
