(* ===== verification/Commands.thy ===== *)
theory Commands
  imports Setup Clients
begin

text \<open>
  The entry points of the subcommands: \<open>execute\<close> of \<open>linprov/src/run.rs\<close> (command line, configuration
  file, log file and start), \<open>run\<close> of \<open>quarantine.rs\<close>, the registration loop of \<open>notify.rs\<close> and one frame of
  the window of \<open>review.rs\<close>.
\<close>

section \<open>linprov run\<close>

record run_args =
  rn_config :: string
  rn_mode :: "mode option"
  rn_allowlist :: "string option"
  rn_soak :: "dim list option"
  rn_mark_localhost :: "bool option"
  rn_log_level :: "string option"
  rn_log_file :: "string option"
  rn_hash_db :: "string option"
  rn_quarantine_dir :: "string option"
  rn_interpreters :: "string list option"
  rn_notifications :: "notify_mode option"

definition cli_of :: "run_args \<Rightarrow> cli_overrides" where
  "cli_of args = \<lparr>co_mode = rn_mode args, co_allowlist = rn_allowlist args, co_log_file = rn_log_file args,
     co_log_level = rn_log_level args, co_mark_localhost = rn_mark_localhost args, co_soak = rn_soak args,
     co_hash_db = rn_hash_db args, co_quarantine_dir = rn_quarantine_dir args,
     co_interpreters = rn_interpreters args, co_notifications = rn_notifications args\<rparr>"

datatype execute_error = ExecuteConfig config_error | LogFileFailed string | ExecuteStart start_error

text \<open>Opening the log file creates it; \<open>None\<close> is an error.\<close>

definition init_logger :: "(string \<Rightarrow> bool) \<Rightarrow> string option \<Rightarrow> file_system \<Rightarrow> file_system option" where
  "init_logger open_ok log_file fs =
    (case log_file of
       None \<Rightarrow> Some fs
     | Some p \<Rightarrow>
        if \<not> open_ok p then None
        else Some (fs(p := (case fs p of FileAbsent \<Rightarrow> FileBytes [] | f \<Rightarrow> f))))"

definition execute ::
    "b64_engine \<Rightarrow> (string \<Rightarrow> file_config option) \<Rightarrow> (string \<Rightarrow> bool) \<Rightarrow> start_env \<Rightarrow> run_args \<Rightarrow> kernel \<Rightarrow>
      file_system \<Rightarrow> qfs \<Rightarrow> file_system \<times> (execute_error + daemon)" where
  "execute E toml open_ok sn args k fs qf =
    (case load_or_default toml (fs (rn_config args)) of
       Inl e \<Rightarrow> (fs, Inl (ExecuteConfig e))
     | Inr fl \<Rightarrow>
        let cfg = config_resolve (cli_of args) fl in
        (case init_logger open_ok (ec_log_file cfg) fs of
           None \<Rightarrow> (fs, Inl (LogFileFailed (unwrap_or (ec_log_file cfg) [])))
         | Some fs \<Rightarrow>
            (case daemon_start E sn cfg k fs qf of (fs, res) \<Rightarrow>
               (fs, case res of Inl e \<Rightarrow> Inl (ExecuteStart e) | Inr dm \<Rightarrow> Inr dm))))"

section \<open>linprov quarantine\<close>

datatype quarantine_cmd = QApply string string | QList string | QRestore string string

datatype quarantine_error = QNeedsRoot root_result | QApplyFailed apply_error | QListFailed | QRestoreFailed restore_error

text \<open>
  The arguments as on the command line, then what is printed, or the error. \<open>reply\<close> is what the daemon at a
  socket answers to \<open>quarantine <token>\<close>; listing and restoring work on the store under \<open>dir\<close> itself, and
  \<open>fs\<close> holds the manifests of that store.
\<close>

definition quarantine_request :: "string \<Rightarrow> bytes" where
  "quarantine_request token = ''quarantine '' @ token @ [CHR 0x0A]"

definition quarantine_run ::
    "install_env \<Rightarrow> (string \<Rightarrow> bytes \<Rightarrow> bytes option) \<Rightarrow> (string \<Rightarrow> r_env) \<Rightarrow> toml \<Rightarrow>
      (string \<Rightarrow> read_dir_result) \<Rightarrow> quarantine_cmd \<Rightarrow> qfs \<Rightarrow> qfs \<times> (quarantine_error + string list)" where
  "quarantine_run ie reply e tm entries cmd fs =
    (case cmd of
       QApply token socket \<Rightarrow>
         (fs, case apply_via_daemon (reply socket (quarantine_request token)) of
                Inl err \<Rightarrow> Inl (QApplyFailed err) | Inr detail \<Rightarrow> Inr [detail])
     | QList dir \<Rightarrow>
         if require_root ie \<noteq> IsRoot then (fs, Inl (QNeedsRoot (require_root ie)))
         else (fs, case quarantine_list tm (entries dir) of
                     None \<Rightarrow> Inl QListFailed | Some ms \<Rightarrow> Inr (print_list dir ms))
     | QRestore eid dir \<Rightarrow>
         if require_root ie \<noteq> IsRoot then (fs, Inl (QNeedsRoot (require_root ie)))
         else case restore (e dir) tm eid fs of (fs, res) \<Rightarrow>
           (fs, case res of Inl err \<Rightarrow> Inl (QRestoreFailed err) | Inr path \<Rightarrow> Inr [''restored to '' @ path]))"

text \<open>
  Only a restore by root touches the store: asking the daemon, listing, and everything without root leave
  it as it is, and without root the store is not read either.
\<close>

lemma quarantine_run_needs_root:
  "fst (quarantine_run ie reply e tm entries cmd fs) \<noteq> fs \<Longrightarrow> ie_euid ie = 0 \<and> (\<exists>eid dir. cmd = QRestore eid dir)"
  "ie_euid ie \<noteq> 0 \<Longrightarrow> quarantine_run ie reply e tm entries (QList dir) fs = (fs, Inl (QNeedsRoot (require_root ie)))"
  by (auto simp: quarantine_run_def require_root_def split: quarantine_cmd.splits if_splits option.splits)

section \<open>linprov notify\<close>

text \<open>The waits between attempts to register, in milliseconds; an attempt that succeeds ends the loop.\<close>

fun register_loop :: "nat \<Rightarrow> bool list \<Rightarrow> nat list" where
  "register_loop backoff [] = []"
| "register_loop backoff (ok # oks) = (if ok then [] else backoff # register_loop (min (backoff * 2) 30000) oks)"

lemma register_loop_bounded: "backoff \<le> 30000 \<Longrightarrow> \<forall>w \<in> set (register_loop backoff oks). w \<le> 30000"
  by (induction backoff oks rule: register_loop.induct) auto

lemma register_loop_doubles:
  "register_loop 500 [False, False, False, False, False, False, False, False, True] = [500, 1000, 2000, 4000, 8000, 16000, 30000, 30000]"
  by simp

section \<open>linprov review\<close>

text \<open>
  What the user did in one frame: the buttons of the header, then the boxes of the rows. \<open>fi_refresh\<close> is
  the answer to \<open>list\<close> and the text of a failure, \<open>fi_row\<close> and \<open>fi_comp\<close> are the boxes that were clicked.
\<close>

record frame_input =
  fi_refresh :: "(bytes option \<times> string) option"
  fi_all :: bool
  fi_none :: bool
  fi_act :: "review_action option"
  fi_row :: "string \<Rightarrow> bool"
  fi_comp :: "string \<Rightarrow> dim \<Rightarrow> bool"

definition row_ui :: "frame_input \<Rightarrow> review_row \<Rightarrow> review_row" where
  "row_ui fi r =
    r\<lparr>rw_selected := (rw_selected r \<noteq> fi_row fi (rw_token r)),
      rw_comps := map (\<lambda>c. c\<lparr>cp_checked := (cp_checked c \<noteq> fi_comp fi (rw_token r) (cp_dim c))\<rparr>) (rw_comps r)\<rparr>"

definition review_update ::
    "b64_engine \<Rightarrow> (bytes \<Rightarrow> 's \<Rightarrow> 's \<times> (string + bytes)) \<Rightarrow> frame_input \<Rightarrow> review_app \<Rightarrow> 's \<Rightarrow> review_app \<times> 's" where
  "review_update E srv fi a st =
    (let a = (case fi_refresh fi of None \<Rightarrow> a | Some (reply, err) \<Rightarrow> review_refresh E reply err a);
         a = (if fi_all fi then select_all a else a);
         a = (if fi_none fi then select_none a else a);
         act = (if list_ex (\<lambda>r. rw_selected r \<and> \<not> rw_done r) (ra_rows a) then fi_act fi else None)
     in case (case act of
                None \<Rightarrow> (a, st)
              | Some act \<Rightarrow> (case apply_rows srv act (ra_rows a) st of (rs, st) \<Rightarrow> (a\<lparr>ra_rows := rs\<rparr>, st))) of (a, st) \<Rightarrow>
        (a\<lparr>ra_rows := map (\<lambda>r. if rw_done r then r else row_ui fi r) (ra_rows a)\<rparr>, st))"

text \<open>
  Without a refresh a frame keeps the number of rows, and a row that is decided stays decided; without a
  button of the second line, or with nothing selected, nothing is sent.
\<close>

lemma apply_rows_done:
  "apply_rows srv act rs st = (rs', st') \<Longrightarrow> list_all2 (\<lambda>r r'. rw_token r' = rw_token r \<and> (rw_done r \<longrightarrow> rw_done r')) rs rs'"
proof (induction srv act rs st arbitrary: rs' st' rule: apply_rows.induct)
  case (2 srv act r rs st)
  have "rw_token (fst (apply_row srv act r st)) = rw_token r \<and> (rw_done r \<longrightarrow> rw_done (fst (apply_row srv act r st)))"
    by (simp add: apply_row_def row_result_def split: option.split prod.split sum.split)
  with 2 show ?case by (auto split: prod.splits)
qed simp

lemma review_update_quiet:
  assumes "fi_act fi = None \<or> (\<forall>r \<in> set (ra_rows a). \<not> rw_selected r \<or> rw_done r)" "fi_refresh fi = None" "\<not> fi_all fi"
  shows "snd (review_update E srv fi a st) = st"
  using assms by (auto simp: review_update_def Let_def select_none_def list_ex_iff)

definition review_run :: "b64_engine \<Rightarrow> bytes option \<Rightarrow> review_app option" where
  "review_run E reply = map_option (\<lambda>rows. \<lparr>ra_rows = rows, ra_banner = None\<rparr>) (fetch_pending E reply)"

end
