(* ===== verification/System.thy ===== *)
theory System
  imports Ring Wire_Types Commands
begin

text \<open>
  The whole system: the daemon's loop, the ring buffer and the hooks of the kernel, interleaved. What is
  started is what \<open>run\<close> starts; the hooks work on the maps the daemon has seeded, and the daemon's turns on
  whatever the ring delivers. The invariants of the daemon's own turns are carried to these runs.
\<close>

section \<open>Runs\<close>

text \<open>
  A turn of the loop, new entries in the ring, or something the kernel does: a hook or an eviction. Seeding
  and back-filling are not steps of their own here, the daemon does them in its turns.
\<close>

inductive system_reach :: "b64_engine \<Rightarrow> mode \<Rightarrow> daemon \<times> ring_item list \<Rightarrow> daemon \<times> ring_item list \<Rightarrow> bool" for E md s where
  start: "system_reach E md s s"
| turn: "system_reach E md s (dm, ring) \<Longrightarrow> de_b64 de = E \<Longrightarrow> loop_step de md ev ring dm = Some (dm', ring') \<Longrightarrow>
    system_reach E md s (dm', ring')"
| arrive: "system_reach E md s (dm, ring) \<Longrightarrow> system_reach E md s (dm, ring @ items)"
| kernel: "system_reach E md s (dm, ring) \<Longrightarrow> kstep l (dm_kernel dm) k' \<Longrightarrow> l \<noteq> Seed \<Longrightarrow> (\<forall>i. l \<noteq> Backfill i) \<Longrightarrow>
    system_reach E md s (dm\<lparr>dm_kernel := k'\<rparr>, ring)"

locale system_invariant = loop_invariant E I "\<lambda>it. True" for E I +
  assumes I_kernel: "I dm \<Longrightarrow> policy k' = policy (dm_kernel dm) \<Longrightarrow> I (dm\<lparr>dm_kernel := k'\<rparr>)"

lemma kstep_policy: "kstep l k k' \<Longrightarrow> l \<noteq> Seed \<Longrightarrow> policy k' = policy k"
proof (induction rule: kstep.induct)
  case (connect e rv a k k' v)
  then show ?case using connect_frame policy_update(1) by metis
next
  case (opened e fp k k' v)
  then show ?case using file_open_policy by blast
next
  case (check e rv b k k' v)
  then show ?case using bprm_check_frame policy_update(8) by metis
next
  case (committed e b k k' v)
  then show ?case using committed_frame policy_update(7) by metis
next
  case (exited e k k' v)
  then show ?case using exit_frame by blast
qed simp_all

context system_invariant
begin

lemma reach_inv: "system_reach E md s s' \<Longrightarrow> I (fst s) \<Longrightarrow> I (fst s')"
proof (induction rule: system_reach.induct)
  case (turn dm ring de ev dm' ring')
  then show ?case using loop_step_inv(1) by simp
next
  case (kernel dm ring l k')
  then show ?case using I_kernel [OF _ kstep_policy] by simp
qed simp_all

end

interpretation running: system_invariant E "daemon_inv md" for E md
proof
  fix dm k' assume "daemon_inv md dm" "policy k' = policy (dm_kernel dm)"
  then show "daemon_inv md (dm\<lparr>dm_kernel := k'\<rparr>)"
    using policyD(1) [of k' "dm_kernel dm"] policy_hash_key [of k' "dm_kernel dm"] by (simp add: daemon_inv_def)
qed

lemma typed_system:
  assumes "base64_standard E"
  shows "system_invariant E daemon_typed"
  by (intro system_invariant.intro typed_invariant [OF assms] system_invariant_axioms.intro)
    (simp add: daemon_typed_def)

interpretation strings: system_invariant rfc4648_engine daemon_typed
  by (rule typed_system) (rule rfc4648.base64_standard_axioms)

section \<open>The ring between the two\<close>

text \<open>
  The same system with the ring as the kernel fills it: what a hook submits is what arrives, in order, as
  the bytes of the event. A buffer may still be misaligned for the cast.
\<close>

inductive pipeline :: "b64_engine \<Rightarrow> mode \<Rightarrow> daemon \<times> ring_item list \<Rightarrow> daemon \<times> ring_item list \<Rightarrow> bool" for E md s where
  begun: "pipeline E md s s"
| woken: "pipeline E md s (dm, ring) \<Longrightarrow> de_b64 de = E \<Longrightarrow> loop_step de md ev ring dm = Some (dm', ring') \<Longrightarrow>
    pipeline E md s (dm', ring')"
| hooked: "pipeline E md s (dm, ring) \<Longrightarrow> kstep l (dm_kernel dm) k' \<Longrightarrow> l \<noteq> Seed \<Longrightarrow> (\<forall>i. l \<noteq> Backfill i) \<Longrightarrow>
    EVENTS k' = EVENTS (dm_kernel dm) @ evs \<Longrightarrow> map fst items = map bytes_of_event evs \<Longrightarrow>
    pipeline E md s (dm\<lparr>dm_kernel := k'\<rparr>, ring @ items)"

text \<open>Every run of it is a run of the system in which anything may arrive, and no hook blocks it.\<close>

lemma pipeline_refines: "pipeline E md s s' \<Longrightarrow> system_reach E md s s'"
proof (induction rule: pipeline.induct)
  case (hooked dm ring l k' evs items)
  then show ?case by (intro system_reach.arrive system_reach.kernel)
qed (auto intro: system_reach.start system_reach.turn)

lemma pipeline_goes_on:
  assumes "pipeline E md s (dm, ring)" "kstep Hook (dm_kernel dm) k'"
  shows "\<exists>items. pipeline E md s (dm\<lparr>dm_kernel := k'\<rparr>, ring @ items)"
proof -
  obtain evs where evs: "EVENTS k' = EVENTS (dm_kernel dm) @ evs"
    using kstep_appends [OF assms(2)] by (auto simp: appends_def)
  have "map fst (map (\<lambda>ev. (bytes_of_event ev, None)) evs) = map bytes_of_event evs" by simp
  from pipeline.hooked [OF assms _ _ evs this] show ?thesis by blast
qed

locale pipeline_invariant = loop_invariant +
  assumes I_hook: "I dm \<Longrightarrow> kstep l (dm_kernel dm) k' \<Longrightarrow> l \<noteq> Seed \<Longrightarrow> (\<forall>i. l \<noteq> Backfill i) \<Longrightarrow> I (dm\<lparr>dm_kernel := k'\<rparr>)"
    and J_event: "I dm \<Longrightarrow> ev \<in> set (EVENTS (dm_kernel dm)) \<Longrightarrow> J (bytes_of_event ev, c)"

context pipeline_invariant
begin

lemma pipeline_inv:
  "pipeline E md s s' \<Longrightarrow> I (fst s) \<Longrightarrow> \<forall>it \<in> set (snd s). J it \<Longrightarrow> I (fst s') \<and> (\<forall>it \<in> set (snd s'). J it)"
proof (induction rule: pipeline.induct)
  case (woken dm ring de ev dm' ring')
  then show ?case using loop_step_inv [OF woken(3,2)] by simp
next
  case (hooked dm ring l k' evs items)
  then have inv: "I (dm\<lparr>dm_kernel := k'\<rparr>)" using I_hook by simp
  have "J it" if "it \<in> set items" for it
  proof -
    have "fst it \<in> set (map fst items)" using that by simp
    then obtain ev where "ev \<in> set evs" "fst it = bytes_of_event ev" using hooked(6) by auto
    then show ?thesis using J_event [OF inv, of ev "snd it"] hooked(5) by (metis UnCI daemon.select_convs(1) daemon.surjective
      daemon.update_convs(1) prod.collapse set_append)
  qed
  with inv hooked show ?case by auto
qed simp

end

text \<open>An invariant that holds whatever arrives holds with what the kernel sends.\<close>

sublocale system_invariant \<subseteq> piped: pipeline_invariant E I "\<lambda>it. True"
  by unfold_locales (simp_all add: I_kernel kstep_policy)

interpretation sound: pipeline_invariant E records_inv sound_entry for E
proof
  fix dm l k' assume "records_inv dm" "kstep l (dm_kernel dm) k'"
  then show "records_inv (dm\<lparr>dm_kernel := k'\<rparr>)" using kstep_inv by (simp add: records_inv_def)
next
  fix dm ev c assume "records_inv dm" "ev \<in> set (EVENTS (dm_kernel dm))"
  then show "sound_entry (bytes_of_event ev, c)"
    using kernel_invD(3) by (auto simp: sound_entry_def records_inv_def)
qed

section \<open>Properties of the system\<close>

text \<open>Seeding touches neither the records nor the events.\<close>

lemma seed_updates [simp]:
  "kernel_inv (k\<lparr>INTERPRETERS := ip\<rparr>) = kernel_inv k" "kernel_inv (k\<lparr>INTERP_INODE := ii\<rparr>) = kernel_inv k"
  "kernel_inv (k\<lparr>ALLOW_RULES := ars\<rparr>) = kernel_inv k" "kernel_inv (k\<lparr>ALLOW_RULE_COUNT := n\<rparr>) = kernel_inv k"
  "kernel_inv (k\<lparr>CONFIG := c\<rparr>) = kernel_inv k" "kernel_inv (k\<lparr>KEY := y\<rparr>) = kernel_inv k"
  by (simp_all add: kernel_inv_def)

lemma seed_interpreters_records: "kernel_inv (fst (seed_interpreters ok names k)) = kernel_inv k"
  by (induction names arbitrary: k) (simp_all add: Let_def)

lemma seed_inodes_records: "kernel_inv (seed_interpreter_inodes f ok names k) = kernel_inv k"
proof -
  have p: "kernel_inv (probe_interpreter f ok p k) = kernel_inv k" for p k
    by (simp add: probe_interpreter_def split: path_fd.split)
  have d: "kernel_inv (foldl (\<lambda>k d. probe_interpreter f ok (path_join d n) k) k ds) = kernel_inv k" for n ds k
    by (induction ds arbitrary: k) (simp_all add: p)
  show ?thesis
    unfolding seed_interpreter_inodes_def by (induction names arbitrary: k) (simp_all add: Let_def d)
qed

lemma daemon_start_records:
  assumes "daemon_start E sn cfg k fs qf = (fs', Inr dm)" "kernel_inv k"
  shows "records_inv dm"
proof -
  obtain key R where st: "daemon_setup E sn cfg key R k fs' qf = Inr dm"
    using assms(1) by (auto simp: daemon_start_def Let_def split: if_splits prod.splits sum.splits)
  obtain k1 where k1: "seed_rules (sn_seed_err sn) (rule_list R) (hk0 key) (hk1 key) k = (k1, True)"
    using st by (auto simp: daemon_setup_def split: prod.splits if_splits)
  obtain k2 where k2: "seed_interpreters (sn_interp_ok sn) (ec_interpreters cfg) k1 = (k2, True)"
    using st k1 by (auto simp: daemon_setup_def split: prod.splits if_splits)
  have "kernel_inv k1" using k1 assms(2) by (auto simp: seed_rules_def Let_def split: prod.splits if_splits)
  then have "kernel_inv k2"
    using seed_interpreters_records [of "sn_interp_ok sn" "ec_interpreters cfg" k1] k2 by simp
  then have "kernel_inv (seed_config cfg key (sn_pid sn) (seed_interpreter_inodes f ok names k2))" for f ok names
    using seed_inodes_records by (simp add: seed_config_def)
  with st k1 k2 show ?thesis
    by (auto simp: daemon_setup_def records_inv_def Let_def split: option.splits sum.splits)
qed

text \<open>
  C9: Every record, wherever it is kept, is complete. Let the daemon start on a kernel whose maps are
  well-formed, and let hooks, evictions, requests and turns of the loop follow each other in any order.
  Then every record in inode storage or inherited by a process is of the current schema and has its full
  arrays; so has every record the daemon wrote into an xattr, which reads back from its bytes; and every
  entry waiting in the ring has the size the daemon expects and decodes to an event of a known kind whose
  record is complete, so the daemon rejects none of them as short or unknown.
\<close>

theorem records_always_complete:
  assumes "daemon_start E sn cfg k fs qf = (fs', Inr dm0)" "kernel_inv k"
    and "pipeline E (ec_mode cfg) (dm0, []) (dm, ring)"
  shows "kernel_inv (dm_kernel dm) \<and>
    (\<forall>i v. hs_xattrs (dm_hs dm) i = Some v \<longrightarrow> record_ok (origin_of_bytes v) \<and> bytes_of_origin (origin_of_bytes v) = v) \<and>
    (\<forall>it \<in> set ring. length (fst it) = EVENT_SIZE \<and> event_ok (event_of_bytes (fst it)))"
proof -
  have inv: "records_inv dm" "\<forall>it \<in> set ring. sound_entry it"
    using sound.pipeline_inv [OF assms(3)] daemon_start_records [OF assms(1,2)] by simp_all
  have "record_ok (origin_of_bytes v) \<and> bytes_of_origin (origin_of_bytes v) = v" if "xattr_ok v" for v
    using that origin_bytes_roundtrip_aux by (auto simp: xattr_ok_def record_ok_def)
  moreover have "length (fst it) = EVENT_SIZE \<and> event_ok (event_of_bytes (fst it))" if "sound_entry it" for it
    using that length_bytes_of_event event_of_bytes_of_event by (auto simp: sound_entry_def)
  ultimately show ?thesis using inv by (auto simp: records_inv_def ran_def)
qed

lemma sample_kernel_inv: "kernel_inv sample_kernel"
  by (simp add: kernel_inv_def sample_kernel_def)

theorem records_always_complete_witness:
  "\<exists>dm fs'. daemon_start rfc4648_engine quiet_start quiet_config sample_kernel key_files sample_fs = (fs', Inr dm) \<and>
    kernel_inv (dm_kernel dm)"
  using quiet_starts records_always_complete [OF _ sample_kernel_inv pipeline.begun] by blast

text \<open>
  C10: After a successful start, however turns of the loop, requests, events and hooks follow each other, all
  parts that hash a path do so under one key: the path walk in the kernel, the rules, the audit database and
  the tokens. The pending table stays consistent and the kernel keeps running in the configured mode.
\<close>

theorem daemon_keeps_one_key:
  assumes "daemon_start E sn cfg k fs qf = (fs', Inr dm0)"
    and "system_reach E (ec_mode cfg) (dm0, ring0) (dm, ring)"
  shows "daemon_inv (ec_mode cfg) dm"
  using running.reach_inv [OF assms(2)] daemon_start_inv [OF assms(1)] by simp

theorem daemon_keeps_one_key_witness:
  "\<exists>dm fs'. daemon_start rfc4648_engine quiet_start quiet_config sample_kernel key_files sample_fs = (fs', Inr dm) \<and>
    daemon_inv (ec_mode quiet_config) dm"
  using quiet_starts daemon_keeps_one_key [OF _ system_reach.start] by blast

text \<open>
  C23: Whatever bytes the kernel and the file names of other users deliver, what the daemon keeps are Rust
  strings. From a successful start on, in every state of the system, each path of the audit database is valid
  UTF-8; each pending block has valid UTF-8 in all its fields, and its token, kind and rule line have no
  control byte, so that the block takes one line and the expected columns in the reply to \<open>list\<close>.
\<close>

theorem daemon_strings_typed:
  assumes "base64_standard E" "daemon_start E sn cfg k fs qf = (fs', Inr dm0)"
    and "system_reach E (ec_mode cfg) (dm0, ring0) (dm, ring)"
  shows "(\<forall>h p. hashdb_resolve (hs_db (dm_hs dm)) h = Some p \<longrightarrow> utf8_valid p) \<and>
    (\<forall>t r. record_for (blocks (dm_control dm)) t = Some r \<longrightarrow>
      utf8_valid (b_token r) \<and> utf8_valid (b_kind r) \<and> utf8_valid (b_rule_line r) \<and>
      utf8_valid (b_target r) \<and> utf8_valid (b_creator r) \<and>
      (\<forall>c \<in> set (b_token r @ b_kind r @ b_rule_line r). \<not> control_byte c))"
proof -
  have "daemon_typed dm"
    using system_invariant.reach_inv [OF typed_system [OF assms(1)] assms(3)] daemon_start_typed [OF assms(2)] by simp
  then show ?thesis
    by (auto simp: daemon_typed_def db_typed_def hashdb_resolve_def blocks_typed_def record_for_def wire_ok_def split: if_splits)
qed

theorem daemon_strings_typed_witness:
  "\<exists>dm fs'. daemon_start rfc4648_engine quiet_start quiet_config sample_kernel key_files sample_fs = (fs', Inr dm) \<and>
    (\<forall>h p. hashdb_resolve (hs_db (dm_hs dm)) h = Some p \<longrightarrow> utf8_valid p)"
  using quiet_starts daemon_strings_typed [OF rfc4648.base64_standard_axioms _ system_reach.start] by blast

text \<open>What the daemon has done with the ring when it has caught up with a denial.\<close>

lemma caught_up:
  assumes "event_ok ev" "e_status ev \<noteq> 0" "daemon_inv md dm" "ring' = ring @ [(bytes_of_event ev, None)]"
  shows "\<exists>dm' token l. wakes de md (length ring' div 256 + 1) ring' dm = (dm', []) \<and>
    block_pending (if e_kind ev = EVENT_KIND_EXECVE then ''exec'' else ''script'')
      (c_str_to_string (take EXEC_PATH_LEN (e_filename ev))) token dm' \<and>
    (\<exists>rec \<in> set (blocks_list (blocks (dm_control dm'))). b_token rec = token) \<and>
    last (hs_log (dm_hs dm')) = Warn (l @ verdict_text ev token)"
proof -
  define dm1 where "dm1 = fold (handle_item de md) ring dm"
  define dm' where "dm' = handle_item de md (bytes_of_event ev, None) dm1"
  have w: "wakes de md (length ring' div 256 + 1) ring' dm = (dm', [])"
    using enough_wakes [of ring'] assms(4) by (simp add: wakes_fold DRAIN_BUDGET_def dm'_def dm1_def)
  obtain token l where pend: "block_pending (if e_kind ev = EVENT_KIND_EXECVE then ''exec'' else ''script'')
      (c_str_to_string (take EXEC_PATH_LEN (e_filename ev))) token dm'"
    and log: "hs_log (dm_hs dm') = hs_log (dm_hs dm1) @ [Warn (l @ verdict_text ev token)]"
    using denied_event_pends [OF assms(1,2), of dm1 de md] unfolding dm'_def by blast
  have "daemon_inv md dm'"
    unfolding dm'_def dm1_def using one_key.fold_inv [OF refl _ assms(3)] by (intro handle_item_inv) simp
  then have inv: "blocks_inv (blocks (dm_control dm'))" by (simp add: daemon_inv_def)
  obtain rec where rec: "bt_map (blocks (dm_control dm')) token = Some rec"
    using pend by (auto simp: block_pending_def record_for_def)
  then have "rec \<in> set (blocks_list (blocks (dm_control dm')))" "b_token rec = token"
    using blocks_list_order [OF inv] inv by (auto simp: ran_def blocks_inv_def)
  with w pend log show ?thesis by (intro exI [of _ dm'] exI [of _ token] exI [of _ l]) auto
qed

text \<open>
  C3: A denial never stays without an answer. Whenever a hook denies an execution or, with room in the
  ring, the opening of a script, in any state that the started system reaches, it submits one event with
  its verdict. However many entries are queued before it, after one wake-up per started 256 entries the
  ring is empty, the block is in the table under a token, with the path the hook saw, a subscriber was
  sent the block under the same token, and the last line of the log carries the verdict and the token.
\<close>

theorem denial_becomes_block:
  assumes "daemon_start E sn cfg k fs qf = (fs', Inr dm0)" "kernel_inv k"
    and "pipeline E (ec_mode cfg) (dm0, []) (dm, ring)" "env_ok e" "v \<noteq> 0"
    and "bprm_check_security e 0 bprm (dm_kernel dm) = (k', v) \<and> kind = ''exec'' \<or>
      file_open e fp (dm_kernel dm) = (k', v) \<and> reserve_ok e \<and> kind = ''script''"
  shows "\<exists>ev dm' token l. EVENTS k' = EVENTS (dm_kernel dm) @ [ev] \<and>
    wakes de (ec_mode cfg) ((length ring + 1) div 256 + 1) (ring @ [(bytes_of_event ev, None)]) (dm\<lparr>dm_kernel := k'\<rparr>) = (dm', []) \<and>
    block_pending kind (c_str_to_string (take EXEC_PATH_LEN (d_path e []))) token dm' \<and>
    (\<exists>rec \<in> set (blocks_list (blocks (dm_control dm'))). b_token rec = token) \<and>
    last (hs_log (dm_hs dm')) = Warn (l @ '' (LSM verdict '' @ show_i32 v @ '') [allow: '' @ token @ '']'')"
proof -
  have inv: "records_inv dm" using sound.pipeline_inv [OF assms(3)] daemon_start_records [OF assms(1,2)] by simp
  have key: "daemon_inv (ec_mode cfg) dm"
    using running.piped.pipeline_inv [OF assms(3)] daemon_start_inv [OF assms(1)] by simp
  have step: "kstep Hook (dm_kernel dm) k'" using assms(6) kstep.check [OF assms(4)] kstep.opened [OF assms(4)] by blast
  obtain ev where ev: "EVENTS k' = EVENTS (dm_kernel dm) @ [ev]" "e_status ev = v" "e_filename ev = d_path e []"
      "kind = (if e_kind ev = EVENT_KIND_EXECVE then ''exec'' else ''script'')"
    using assms(6) exec_denial_event [OF _ assms(5)] open_denial_event [OF _ assms(5)] by (metis event_kinds_differ(6))
  have "kernel_inv k'" using kstep_inv [OF step] inv by (simp add: records_inv_def)
  then have ok: "event_ok ev" using kernel_invD(3) ev(1) by simp
  have "daemon_inv (ec_mode cfg) (dm\<lparr>dm_kernel := k'\<rparr>)"
    using running.I_kernel [OF key kstep_policy [OF step]] by simp
  from caught_up [OF ok _ this refl] ev assms(5) show ?thesis
    unfolding verdict_text_def by (simp del: append_assoc)
qed

definition strict_config :: effective_config where
  "strict_config = config_resolve
     \<lparr>co_mode = Some Enforce, co_allowlist = Some ''/a'', co_log_file = None, co_log_level = None, co_mark_localhost = None,
      co_soak = None, co_hash_db = None, co_quarantine_dir = None, co_interpreters = Some [], co_notifications = None\<rparr>
     default_file_config"

lemma archive_kernel_inv: "kernel_inv archive_kernel"
  by (simp add: kernel_inv_def archive_kernel_def sample_defs record_ok_def record_shape_def zero_record_def sample_comm_def size_consts)

lemma strict_starts:
  "\<exists>dm fs'. daemon_start rfc4648_engine quiet_start strict_config archive_kernel key_files sample_fs = (fs', Inr dm) \<and>
    CONFIG (dm_kernel dm) = [MODE_ENFORCE, 0, 1] \<and> ALLOW_RULE_COUNT (dm_kernel dm) = [0] \<and>
    INODE_MARKS (dm_kernel dm) = [3 \<mapsto> sample_mark]"
  by (simp add: daemon_start_def daemon_setup_def quiet_start_def strict_config_def config_resolve_def opt_or_def
    unwrap_or_def default_file_config_def key_files_def key_load_or_create_def key_from_key_bytes
    rules_load_def rules_default_def seed_rules_def archive_kernel_def sample_kernel_def seed_interpreter_inodes_def hashdb_open_def
    DEFAULT_KEY_PATH_def DEFAULT_HASHDB_PATH_def seed_config_def Let_def)

theorem denial_becomes_block_witness:
  "\<exists>dm fs' ev dm' token. daemon_start rfc4648_engine quiet_start strict_config archive_kernel key_files sample_fs = (fs', Inr dm) \<and>
    wakes curl_env (ec_mode strict_config) 1 [(bytes_of_event ev, None)]
      (dm\<lparr>dm_kernel := fst (bprm_check_security sample_env 0 (Some (Some (reg_file 3 0))) (dm_kernel dm))\<rparr>) = (dm', []) \<and>
    block_pending ''exec'' (c_str_to_string (take EXEC_PATH_LEN (d_path sample_env []))) token dm'"
proof -
  obtain dm fs' where st: "daemon_start rfc4648_engine quiet_start strict_config archive_kernel key_files sample_fs = (fs', Inr dm)"
    and k: "CONFIG (dm_kernel dm) = [MODE_ENFORCE, 0, 1]" "ALLOW_RULE_COUNT (dm_kernel dm) = [0]"
      "INODE_MARKS (dm_kernel dm) = [3 \<mapsto> sample_mark]"
    using strict_starts by blast
  obtain k' v where d: "bprm_check_security sample_env 0 (Some (Some (reg_file 3 0))) (dm_kernel dm) = (k', v)" by fastforce
  have "v \<noteq> 0"
    using d k by (auto simp: bprm_check_security_def exec_mark_def check_allowlist_def reg_file_def sample_env_def sample_mark_def
      read_origin_xattr_def array_get_def config_consts Let_def split: if_splits option.splits)
  from denial_becomes_block [OF st archive_kernel_inv pipeline.begun sample_env_ok this, of "Some (Some (reg_file 3 0))" k' "''exec''"
      None curl_env] d
  obtain ev dm' token where "wakes curl_env (ec_mode strict_config) ((length ([] :: ring_item list) + 1) div 256 + 1)
      ([] @ [(bytes_of_event ev, None)]) (dm\<lparr>dm_kernel := k'\<rparr>) = (dm', [])"
    and "block_pending ''exec'' (c_str_to_string (take EXEC_PATH_LEN (d_path sample_env []))) token dm'" by blast
  moreover have "(length ([] :: ring_item list) + 1) div 256 + 1 = 1" by simp
  ultimately show ?thesis using st d by (metis append_Nil fst_conv)
qed

lemma as_u32_enforce: "as_u32 md = MODE_ENFORCE \<longleftrightarrow> md = Enforce"
  by (cases md) (simp_all add: mode_consts)

text \<open>What a successful \<open>run\<close> went through.\<close>

lemma execute_started:
  assumes "execute E toml open_ok sn args k fs qf = (fs', Inr dm)"
  obtains fl fs1 where "load_or_default toml (fs (rn_config args)) = Inr fl"
    and "daemon_start E sn (config_resolve (cli_of args) fl) k fs1 qf = (fs', Inr dm)"
  using assms by (auto simp: execute_def Let_def split: sum.splits option.splits prod.splits)

text \<open>
  C11: Blocking is opt-in. Unless the command line says \<open>enforce\<close>, or leaves the mode out and the configuration
  file says \<open>enforce\<close>, no hook ever denies anything: not on any file, in any state the system reaches from
  the start, whatever rules, requests and events there were in between. A configuration file that is absent
  does not say \<open>enforce\<close>.
\<close>

theorem default_run_never_blocks:
  assumes "execute E toml open_ok sn args k fs qf = (fs', Inr dm0)"
    and "rn_mode args \<noteq> Some Enforce"
    and "rn_mode args = None \<Longrightarrow> fs (rn_config args) = FileAbsent \<or>
      (\<exists>fl. load_or_default toml (fs (rn_config args)) = Inr fl \<and> fc_mode fl \<noteq> Some Enforce)"
    and "system_reach E md (dm0, ring0) (dm, ring)"
  shows "snd (bprm_check_security e 0 bprm (dm_kernel dm)) = 0 \<and> snd (file_open e fp (dm_kernel dm)) = 0 \<and>
    snd (socket_connect e 0 addr (dm_kernel dm)) = 0 \<and> snd (bprm_committed_creds e bprm (dm_kernel dm)) = 0"
proof -
  obtain fl fs1 where fl: "load_or_default toml (fs (rn_config args)) = Inr fl"
    and st: "daemon_start E sn (config_resolve (cli_of args) fl) k fs1 qf = (fs', Inr dm0)"
    using execute_started [OF assms(1)] by blast
  let ?m = "ec_mode (config_resolve (cli_of args) fl)"
  have "rn_mode args = None \<Longrightarrow> fc_mode fl \<noteq> Some Enforce"
    using assms(3) fl by (auto simp: load_or_default_def default_file_config_def)
  then have "?m \<noteq> Enforce"
    using assms(2) by (auto simp: config_resolve_def cli_of_def opt_or_def unwrap_or_def split: option.splits)
  moreover have "daemon_inv ?m dm" using running.reach_inv [OF assms(4)] daemon_start_inv [OF st] by simp
  ultimately have "array_get (CONFIG (dm_kernel dm)) CONFIG_MODE \<noteq> MODE_ENFORCE"
    by (simp add: daemon_inv_def as_u32_enforce)
  then show ?thesis by (rule lax_mode_permits)
qed

definition quiet_args :: run_args where
  "quiet_args = \<lparr>rn_config = ''/etc/linprov/config.toml'', rn_mode = None, rn_allowlist = None, rn_soak = None,
     rn_mark_localhost = None, rn_log_level = None, rn_log_file = None, rn_hash_db = None, rn_quarantine_dir = None,
     rn_interpreters = Some [], rn_notifications = None\<rparr>"

lemma quiet_executes:
  "\<exists>dm fs'. execute rfc4648_engine (\<lambda>s. None) (\<lambda>p. True) quiet_start quiet_args sample_kernel key_files sample_fs =
    (fs', Inr dm)"
proof -
  have abs: "key_files (rn_config quiet_args) = FileAbsent"
    by (simp add: key_files_def quiet_args_def DEFAULT_KEY_PATH_def)
  have cfg: "config_resolve (cli_of quiet_args) default_file_config = quiet_config"
    by (simp add: quiet_config_def cli_of_def quiet_args_def)
  have "ec_log_file quiet_config = None"
    by (simp add: quiet_config_def config_resolve_def opt_or_def default_file_config_def)
  then show ?thesis using quiet_starts by (auto simp: execute_def abs load_or_default_def cfg init_logger_def Let_def)
qed

theorem default_run_never_blocks_witness:
  "\<exists>dm fs'. execute rfc4648_engine (\<lambda>s. None) (\<lambda>p. True) quiet_start quiet_args sample_kernel key_files sample_fs =
      (fs', Inr dm) \<and> (\<forall>e bprm fp. snd (bprm_check_security e 0 bprm (dm_kernel dm)) = 0 \<and> snd (file_open e fp (dm_kernel dm)) = 0)"
proof -
  obtain dm fs' where ex: "execute rfc4648_engine (\<lambda>s. None) (\<lambda>p. True) quiet_start quiet_args sample_kernel
    key_files sample_fs = (fs', Inr dm)" using quiet_executes by blast
  have "rn_mode quiet_args \<noteq> Some Enforce" "key_files (rn_config quiet_args) = FileAbsent"
    by (simp_all add: key_files_def quiet_args_def DEFAULT_KEY_PATH_def)
  then show ?thesis
    using ex default_run_never_blocks [OF ex _ _ system_reach.start] by blast
qed

end
