(* ===== verification/Unblock.thy ===== *)
theory Unblock
  imports System
begin

text \<open>
  Allowing a block, from the denial in the kernel to the same execution after the decision: the facts a
  record stands for give a rule that permits them, and the daemon stays able to install it.
\<close>

section \<open>The rule of a block\<close>

text \<open>A rule that matches some facts brings no string into play that is not one of them.\<close>

lemma dir_part_prefix: "SLASH \<in> set p \<Longrightarrow> dir_part p \<in> set (slash_prefixes p)"
  using last_slash_prefix [of p] by (induction p rule: rev_induct) (auto simp: slash_prefixes_snoc dir_part_snoc)

lemma in_folder_prefix: "in_folder rc p f \<Longrightarrow> f \<in> set (slash_prefixes p)"
  using dir_part_prefix by (auto simp: in_folder_def dest: in_set_dropD)

lemma matched_strings:
  assumes "spec_matches spec x"
  shows "set (strings_in_play spec x) \<subseteq> set (strings_in_play default_spec x)"
  using assms in_folder_prefix
  by (auto simp: spec_matches_def strings_in_play_def when_set_def opt_strings_def default_spec_def split: option.splits)

lemma no_collision_subset: "no_collision a b ss \<Longrightarrow> set ts \<subseteq> set ss \<Longrightarrow> no_collision a b ts"
  by (auto simp: no_collision_def)

text \<open>The users of an execution are always known, so the rule is never empty.\<close>

lemma rule_set_keeps_flags: "s_flags spec \<noteq> 0 \<Longrightarrow> s_flags (fst (rule_set d v spec)) \<noteq> 0"
  by (cases d) (auto simp: rule_set_def or_eq_0_iff Let_def split: prod.split option.split)

lemma rule_set_uid_flags: "s_flags (fst (rule_set CreatorUid v spec)) \<noteq> 0"
  by (auto simp: rule_set_def or_eq_0_iff dim_consts Let_def split: option.split)

lemma steps_keep_flags: "s_flags spec \<noteq> 0 \<Longrightarrow> s_flags (foldl (context_step ctx) spec ds) \<noteq> 0"
proof (induction ds arbitrary: spec)
  case (Cons d ds)
  then show ?case using rule_set_keeps_flags by (simp add: context_step_def split: option.split)
qed simp

lemma own_rule_flags: "s_flags (rule_from_context ctx ALLOW_DIMS) \<noteq> 0"
proof -
  let ?spec = "foldl (context_step ctx) default_spec [TargetFilename, CreatorProcess, CreatorComm]"
  have "s_flags (context_step ctx ?spec CreatorUid) \<noteq> 0"
    using rule_set_uid_flags by (simp add: context_step_def)
  from steps_keep_flags [OF this, of ctx "[ExecutionUid, LandingFolder, LandingFilename]"]
  show ?thesis by (simp add: rule_from_context_def ALLOW_DIMS_def)
qed

lemma c_str_take: "c_str (take n p) = take n (c_str p)"
  unfolding c_str_def
proof (induction p arbitrary: n)
  case (Cons b p)
  then show ?case by (cases n) simp_all
qed simp

lemma fitting_name_short: "name_fits c \<Longrightarrow> length c = COMM_LEN \<Longrightarrow> length (c_str c) < COMM_LEN"
proof (rule ccontr)
  assume c: "name_fits c" "length c = COMM_LEN" "\<not> length (c_str c) < COMM_LEN"
  have p: "c = c_str c @ dropWhile (\<lambda>b. b \<noteq> NUL) c" by (simp add: c_str_def)
  then have "length c = length (c_str c) + length (dropWhile (\<lambda>b. b \<noteq> NUL) c)" by (metis length_append)
  with c(2,3) have "length (dropWhile (\<lambda>b. b \<noteq> NUL) c) = 0" by linarith
  with p have "c_str c = c" by (metis append_Nil2 length_0_conv)
  with c(2) have l: "length (c_str c) = COMM_LEN" "c_str c = c" by simp_all
  then have "NUL \<in> set (pad_comm (c_str c))" by (simp add: pad_comm_def size_consts)
  moreover have "c_str c = c" by (rule l(2))
  moreover have "NUL \<notin> set (c_str c)" by (auto simp: c_str_def dest: set_takeWhileD)
  ultimately show False using c(1) by (simp add: name_fits_def)
qed

text \<open>What the daemon makes of an event is fit for a rule line.\<close>

lemma event_ctx_fit:
  assumes "ctx_describes (event_ctx h ev D) x" "db_typed D" "name_fits (x_comm x)" "length (x_comm x) = COMM_LEN"
    and "comm (e_origin ev) = x_comm x"
  shows "ctx_ok (event_ctx h ev D)"
proof -
  let ?c = "event_ctx h ev D"
  have r: "utf8_opt (hashdb_resolve D h)" for h
    using assms(2) by (auto simp: utf8_opt_def hashdb_resolve_def db_typed_def split: option.split)
  have "c_creator_comm ?c = c_str (x_comm x)"
    using assms(3,5) by (simp add: event_ctx_def comm_to_string_def name_fits_def from_utf8_lossy_valid)
  moreover have "folder_ok (c_landing_folder ?c)"
    using assms(1) dir_part_slash by (auto simp: ctx_describes_def folder_ok_def when_set_def in_folder_def split: option.splits)
  ultimately show ?thesis
    using fitting_name_short [OF assms(3,4)] assms(3) r
    by (simp add: ctx_ok_def event_ctx_def name_fits_def c_str_to_string_def lossy_valid)
qed

section \<open>Serving\<close>

definition serving :: "string \<Rightarrow> daemon \<Rightarrow> bool" where
  "serving p dm \<longleftrightarrow> map_shape (dm_kernel dm) \<and> hs_soak (dm_hs dm) = None \<and> allowlist_path (dm_control dm) = Some p"

lemma seed_loop_length: "length (fst (seed_loop i rs err arr)) = length arr"
  by (induction i rs err arr rule: seed_loop.induct) simp_all

lemma seed_rules_shape: "map_shape k \<Longrightarrow> map_shape (fst (seed_rules err specs a b k))"
  by (simp add: seed_rules_def map_shape_def seed_loop_length case_prod_beta Let_def)

lemma seed_interpreters_shape: "map_shape (fst (seed_interpreters ok names k)) = map_shape k"
  by (induction names arbitrary: k) (simp_all add: map_shape_def Let_def)

lemma seed_inodes_shape: "map_shape (seed_interpreter_inodes f ok names k) = map_shape k"
proof -
  have p: "map_shape (probe_interpreter f ok p k) = map_shape k" for p k
    by (simp add: probe_interpreter_def map_shape_def split: path_fd.split)
  have d: "map_shape (foldl (\<lambda>k d. probe_interpreter f ok (path_join d n) k) k ds) = map_shape k" for n ds k
    by (induction ds arbitrary: k) (simp_all add: p)
  show ?thesis
    unfolding seed_interpreter_inodes_def by (induction names arbitrary: k) (simp_all add: Let_def d)
qed

lemma handle_event_soak: "hs_soak st = None \<Longrightarrow> hs_soak (handle_event E h md c bs st) = None"
  by (auto simp: handle_event_def dispatch_event_def on_file_marked_def on_execve_marked_def on_script_exec_def
    record_block_token_def maybe_soak_def Let_def split: option.splits prod.splits)

interpretation serving: system_invariant E "serving p" for E p
proof
  fix de :: daemon_env and dm md item
  assume "serving p dm"
  then show "serving p (handle_item de md item dm)"
    using handle_event_soak [of "handler_view dm"]
    by (simp add: serving_def handle_item_def after_handler_def handler_view_def map_shape_def)
next
  fix de dm assume "serving p dm"
  then show "serving p (fst (reseed_from_control de dm))"
    by (simp add: reseed_from_control_def serving_def seed_rules_shape case_prod_beta split: sum.split)
next
  fix dm k' assume "serving p dm" "policy k' = policy (dm_kernel dm)"
  then show "serving p (dm\<lparr>dm_kernel := k'\<rparr>)" using policyD(3,4) [of k' "dm_kernel dm"] by (simp add: serving_def map_shape_def)
qed (simp_all add: serving_def resolve_token_def say_def)

lemma daemon_start_serving:
  assumes "daemon_start E sn cfg k fs qf = (fs', Inr dm)" "map_shape k" "ec_mode cfg \<noteq> Soak" "ec_allowlist cfg = Some p"
  shows "serving p dm"
proof -
  obtain key R where st: "daemon_setup E sn cfg key R k fs' qf = Inr dm"
    using assms(1) by (auto simp: daemon_start_def Let_def split: if_splits prod.splits sum.splits)
  obtain k1 where k1: "seed_rules (sn_seed_err sn) (rule_list R) (hk0 key) (hk1 key) k = (k1, True)"
    using st by (auto simp: daemon_setup_def split: prod.splits if_splits)
  obtain k2 where k2: "seed_interpreters (sn_interp_ok sn) (ec_interpreters cfg) k1 = (k2, True)"
    using st k1 by (auto simp: daemon_setup_def split: prod.splits if_splits)
  have "map_shape k1" using seed_rules_shape [OF assms(2)] k1 by (metis fst_conv)
  then have "map_shape k2" using seed_interpreters_shape k2 by (metis fst_conv)
  then have "map_shape (seed_config cfg key (sn_pid sn) (seed_interpreter_inodes f ok names k2))" for f ok names
    using seed_inodes_shape [of f ok names k2] by (simp add: seed_config_def map_shape_def)
  with st k1 k2 assms(3,4) show ?thesis
    by (auto simp: daemon_setup_def serving_def control_new_def Let_def split: sum.splits)
qed

section \<open>From the denial to the permission\<close>

lemma exec_mark_cong: "INODE_MARKS k' = INODE_MARKS k \<Longrightarrow> exec_mark e fl k' = exec_mark e fl k"
  by (simp only: exec_mark_def)

lemma exec_permitted:
  assumes "exec_mark e fl k = Some rec" "check_allowlist e k (d_path e []) rec"
  shows "snd (bprm_check_security e 0 (Some (Some fl)) k) = 0"
  using assms by (simp add: bprm_check_security_def Let_def)

lemma walked_short: "c_str f = p \<Longrightarrow> length p < EXEC_PATH_LEN \<Longrightarrow> walked f = p"
  by (simp add: walked_def size_consts)

text \<open>The event of the denial, as the kernel writes it.\<close>

lemma exec_denied_with:
  assumes "bprm_check_security e 0 (Some (Some fl)) k = (k', v)" "v \<noteq> 0" "exec_mark e fl k = Some rec"
  shows "array_get (CONFIG k) CONFIG_MODE = MODE_ENFORCE" "INODE_MARKS k' = INODE_MARKS k" "policy k' = policy k"
    "EVENTS k' = EVENTS k @ [\<lparr>e_kind = EVENT_KIND_EXECVE, e_pid = current_pid e, e_tgid = current_tid e,
       e_status = v, e_comm = current_comm e, e_origin = rec, e_filename = d_path e []\<rparr>]"
  using assms by (auto simp: bprm_check_security_def policy_def Let_def split: if_splits)

text \<open>What the theorem asks of the daemon's surroundings: the allowlist is readable, has room, and takes the line.\<close>

definition allowlist_accepts :: "daemon_env \<Rightarrow> file_open_result \<Rightarrow> string \<Rightarrow> bool" where
  "allowlist_accepts de f line \<longleftrightarrow>
    de_append_ok de \<and> de_append_err de = None \<and> de_seed_err de = None \<and> ends_line f \<and>
    (case rules_load (de_b64 de) f of Inl e \<Rightarrow> False
     | Inr R \<Rightarrow> length (rule_list R) < MAX_RULES \<and> (\<forall>r \<in> set (rule_list R). to_line (de_b64 de) r \<noteq> line))"

text \<open>
  C2: A blocked execution can be allowed, end to end. Let the started system, after any run, have handled what
  was in the ring, and let the exec hook then deny an execution. One wake-up later the block is pending; the
  daemon accepts \<open>allow <token>\<close> for the token it logged; and the hook, on the maps as the daemon leaves them,
  permits the same execution, while the block is off the table. Assumed are: that the record of the file
  stands for some facts, whose strings neither collide under the key nor with other paths of the audit
  database; that the path and the creator's name fit and are UTF-8; that the process can still be looked
  up when its event is handled; and that the allowlist file is readable and has room for the new line.
\<close>

theorem blocked_then_allowed:
  assumes "base64_standard (de_b64 de)" "daemon_start (de_b64 de) sn cfg k fs qf = (fs', Inr dm0)"
    and "kernel_inv k" "map_shape k" "ec_allowlist cfg = Some p"
    and "pipeline (de_b64 de) (ec_mode cfg) (dm0, []) (dm, [])"
    and "env_ok e" "bprm_check_security e 0 (Some (Some fl)) (dm_kernel dm) = (k', v)" "v \<noteq> 0"
    and "EVENTS k' = EVENTS (dm_kernel dm) @ [ev]" "dm_key dm = \<lparr>hk0 = a, hk1 = b\<rparr>"
    and "describes a b (e_origin ev) x" "no_collision a b (strings_in_play default_spec x)"
    and "db_distinguishes (hs_db (dm_hs dm)) (dir_part (x_landing x) # base_part (x_landing x) # opt_strings (x_creator x))"
    and "c_str (d_path e []) = x_target x" "length (x_target x) < EXEC_PATH_LEN" "utf8_valid (x_target x)" "name_fits (x_comm x)"
    and "current_uid e = x_exec_uid x" "get_uid_for_pid (de_henv de) (current_pid e) = Some (x_exec_uid x)"
    and "line = to_line (de_b64 de) (rule_from_context (event_ctx (de_henv de) ev (hs_db (dm_hs dm))) ALLOW_DIMS)"
    and "token = block_token (blocks (dm_control dm)) line" "rule_for (blocks (dm_control dm)) token \<in> {None, Some line}"
    and "allowlist_accepts de (dm_files dm p) line"
  shows "\<exists>dm1 dm2. wakes de (ec_mode cfg) 1 [(bytes_of_event ev, None)] (dm\<lparr>dm_kernel := k'\<rparr>) = (dm1, []) \<and>
    block_pending ''exec'' (x_target x) token dm1 \<and>
    process_control_request de (''allow '' @ token) dm1 = (dm2, Inr line) \<and>
    snd (bprm_check_security e 0 (Some (Some fl)) (dm_kernel dm2)) = 0 \<and>
    record_for (blocks (dm_control dm2)) token = None"
proof -
  let ?E = "de_b64 de" and ?D = "hs_db (dm_hs dm)" and ?md = "ec_mode cfg"
  let ?dm = "dm\<lparr>dm_kernel := k'\<rparr>"
  let ?ev = "ev\<lparr>e_filename := pad_path (e_filename ev)\<rparr>"
  obtain rec where m: "exec_mark e fl (dm_kernel dm) = Some rec"
    using assms(8,9) by (auto simp: bprm_check_security_def split: option.splits)
  note den = exec_denied_with [OF assms(8,9) m]
  have ev: "e_kind ev = EVENT_KIND_EXECVE" "e_status ev = v" "e_filename ev = d_path e []" "e_origin ev = rec"
    "e_pid ev = current_pid e" using assms(10) den(4) by auto
  have step: "kstep Hook (dm_kernel dm) k'" using kstep.check [OF assms(7,8)] .
  have recs: "records_inv dm" using sound.pipeline_inv [OF assms(6)] daemon_start_records [OF assms(2,3)] by simp
  have keys: "daemon_inv ?md dm"
    using running.piped.pipeline_inv [OF assms(6)] daemon_start_inv [OF assms(2)] by simp
  have md: "?md \<noteq> Soak" using keys den(1) as_u32_enforce [of ?md] by (auto simp: daemon_inv_def)
  have sv: "serving p ?dm"
    using serving.piped.pipeline_inv [OF assms(6)] daemon_start_serving [OF assms(2,4) md assms(5)]
      serving.I_kernel [OF _ den(3)] by simp
  have typed: "daemon_typed dm"
    using system_invariant.reach_inv [OF typed_system [OF assms(1)] pipeline_refines [OF assms(6)]]
      daemon_start_typed [OF assms(2)] by simp
  have ok: "event_ok ev"
    using kstep_inv [OF step] recs kernel_invD(3) assms(10) by (simp add: records_inv_def)
  have len: "length (x_comm x) = COMM_LEN"
    using ok assms(12) by (simp add: event_ok_def record_ok_def record_shape_def describes_def)
  have name: "c_str (e_filename ?ev) = x_target x"
    using assms(15,16) ev(3) by (simp add: c_str_pad_path c_str_take size_consts)
  have ctx: "event_ctx (de_henv de) ?ev ?D = event_ctx (de_henv de) ev ?D"
    using name assms(15) ev(3) by (simp add: event_ctx_def c_str_to_string_def)
  have key: "db_k0 ?D = a" "db_k1 ?D = b" "hash_key k' = (a, b)"
    using keys assms(11) policy_hash_key [OF den(3)] by (simp_all add: daemon_inv_def)
  have desc: "ctx_describes (event_ctx (de_henv de) ?ev ?D) x"
    using assms(12,14,17,18,20) key ev(5) name by (intro event_ctx_describes) simp_all
  have fit: "ctx_ok (event_ctx (de_henv de) ?ev ?D)"
    using typed assms(12) by (intro event_ctx_fit [OF desc _ assms(18) len]) (simp_all add: daemon_typed_def describes_def)
  let ?spec = "rule_from_context (event_ctx (de_henv de) ?ev ?D) ALLOW_DIMS"
  have line: "line = to_line ?E ?spec" using assms(21) ctx by simp
  have nc: "no_collision a b (strings_in_play ?spec x)"
    using no_collision_subset [OF assms(13)] matched_strings rule_from_context_matches [OF desc] by blast
  obtain R where R: "rules_load ?E (dm_files dm p) = Inr R" "length (rule_list R) < MAX_RULES"
    "\<forall>r \<in> set (rule_list R). to_line ?E r \<noteq> to_line ?E ?spec" "ends_line (dm_files dm p)"
    "de_append_ok de" "de_append_err de = None" "de_seed_err de = None"
    using assms(24) line by (auto simp: allowlist_accepts_def split: sum.splits)
  define dm1 where "dm1 = handle_item de ?md (bytes_of_event ev, None) ?dm"
  have dm1: "dm1 = after_handler (dispatch_event ?E (de_henv de) ?md ?ev (handler_view ?dm)) ?dm"
    by (simp add: dm1_def handle_item_def handle_sound_entry [OF ok])
  have w: "wakes de ?md 1 [(bytes_of_event ev, None)] ?dm = (dm1, [])"
    using wakes_fold [of de ?md 1 "[(bytes_of_event ev, None)]" ?dm] by (simp add: DRAIN_BUDGET_def dm1_def)
  have "block_pending ''exec'' (c_str_to_string (take EXEC_PATH_LEN (e_filename ev))) token dm1"
    using denied_event_pends [OF ok, of ?dm de ?md] ev assms(9) line assms(22) unfolding dm1_def by auto
  moreover have "c_str_to_string (take EXEC_PATH_LEN (e_filename ev)) = x_target x"
    using assms(15-17) ev(3) by (simp add: c_str_to_string_def c_str_take from_utf8_lossy_valid)
  moreover have "\<exists>dm2. process_control_request de (''allow '' @ token) dm1 = (dm2, Inr line) \<and>
      (\<forall>e filename. current_uid e = x_exec_uid x \<longrightarrow> walked filename = x_target x \<longrightarrow>
        check_allowlist e (dm_kernel dm2) filename (e_origin ev)) \<and>
      INODE_MARKS (dm_kernel dm2) = INODE_MARKS k' \<and> record_for (blocks (dm_control dm2)) token = None"
    using denied_event_allowed [of de ?ev "event_ctx (de_henv de) ?ev ?D" ?dm x ?spec a b token p R ?md] assms(1,9,11,12,22,23)
      ev(1,2) fit desc own_rule_flags len nc sv R key(3) line unfolding dm1 by (simp add: serving_def)
  ultimately obtain dm2 where dm2: "process_control_request de (''allow '' @ token) dm1 = (dm2, Inr line)"
    "check_allowlist e (dm_kernel dm2) (d_path e []) rec" "INODE_MARKS (dm_kernel dm2) = INODE_MARKS (dm_kernel dm)"
    "record_for (blocks (dm_control dm2)) token = None" "block_pending ''exec'' (x_target x) token dm1"
    using assms(19) walked_short [OF assms(15,16)] ev(4) den(2) by auto
  have "exec_mark e fl (dm_kernel dm2) = Some rec" using exec_mark_cong [OF dm2(3)] m by simp
  then have "snd (bprm_check_security e 0 (Some (Some fl)) (dm_kernel dm2)) = 0"
    using exec_permitted [OF _ dm2(2)] by simp
  with w dm2 show ?thesis by blast
qed

definition curl_comm :: bytes where
  "curl_comm = ''curl'' @ replicate 12 NUL"

definition curl_facts :: exec_facts where
  "curl_facts = \<lparr>x_target = ''x'', x_landing = ''x'', x_creator = None, x_comm = curl_comm,
     x_creator_uid = 7, x_exec_uid = 9\<rparr>"

definition curl_mark :: origin_record where
  "curl_mark = uid7_record\<lparr>version := ORIGIN_VERSION, comm := curl_comm\<rparr>"

definition curl_denial :: event where
  "curl_denial = \<lparr>e_kind = EVENT_KIND_EXECVE, e_pid = 7, e_tgid = 7, e_status = -1, e_comm = zero_comm,
     e_origin = curl_mark, e_filename = ''x''\<rparr>"

definition curl_exec :: env where
  "curl_exec = uid7_env\<lparr>pid_tgid := 0x700000007, d_path := (\<lambda>b. ''x'')\<rparr>"

definition curl_kernel :: kernel where
  "curl_kernel = sample_kernel\<lparr>INODE_MARKS := [3 \<mapsto> curl_mark], ALLOW_RULES := replicate MAX_RULES (pack 1 2 default_spec)\<rparr>"

definition curl_files :: file_system where
  "curl_files = (\<lambda>p. FileAbsent)(DEFAULT_KEY_PATH := FileBytes (key_bytes \<lparr>hk0 = 1, hk1 = 2\<rparr>))"

lemma curl_starts:
  "\<exists>dm fs'. daemon_start rfc4648_engine quiet_start strict_config curl_kernel curl_files sample_fs = (fs', Inr dm) \<and>
    CONFIG (dm_kernel dm) = [MODE_ENFORCE, 0, 1] \<and> ALLOW_RULE_COUNT (dm_kernel dm) = [0] \<and>
    INODE_MARKS (dm_kernel dm) = [3 \<mapsto> curl_mark] \<and> EVENTS (dm_kernel dm) = [] \<and>
    dm_key dm = \<lparr>hk0 = 1, hk1 = 2\<rparr> \<and> hs_db (dm_hs dm) = sample_db \<and> blocks (dm_control dm) = blocks_new 1 2 \<and>
    dm_files dm ''/a'' = FileAbsent"
  by (simp add: daemon_start_def daemon_setup_def quiet_start_def strict_config_def config_resolve_def opt_or_def
    unwrap_or_def default_file_config_def curl_files_def key_load_or_create_def key_from_key_bytes
    rules_load_def rules_default_def seed_rules_def curl_kernel_def sample_kernel_def seed_interpreter_inodes_def hashdb_open_def
    DEFAULT_KEY_PATH_def DEFAULT_HASHDB_PATH_def seed_config_def sample_db_def control_new_def file_content_def Let_def)

definition curl_rule :: rule_spec where
  "curl_rule = default_spec\<lparr>s_flags := TARGET_FILENAME OR CREATOR_COMM OR CREATOR_UID OR EXECUTION_UID,
     s_target_filename := Some ''x'', s_creator_comm := Some ''curl'', s_creator_uid := Some 7,
     s_execution_uid := Some 9\<rparr>"

lemma curl_text: "utf8_valid ''x''" "utf8_valid ''curl''" "utf8_valid ''Uid: 9''"
  by (simp_all add: utf8_valid_ascii)

lemma curl_uid: "get_uid_for_pid (de_henv curl_env) 7 = Some 9"
proof -
  have nine: "\<forall>c \<in> set ''9''. solid c" by (simp add: solid_ascii)
  have w: "str_split_whitespace '' 9'' = [''9'']"
    using split_ws_solid [OF nine, of "[]" "[]"]
    by (simp add: str_split_whitespace_def split_ws_space split_ws_end)
  have d: "digit_value 10 (CHR ''9'') = Some 9" by (simp add: digit_value_def)
  have "str_lines ''Uid: 9'' = [''Uid: 9'']" by (simp add: str_lines_def)
  moreover have "str_strip_prefix ''Uid:'' ''Uid: 9'' = Some '' 9''" by (simp add: str_strip_prefix_def)
  ultimately show ?thesis
    using w d curl_text(3) by (simp add: get_uid_for_pid_def curl_env_def parse_u32_def parse_uint_def)
qed

lemma curl_denial_ctx: "event_ctx (de_henv curl_env) curl_denial sample_db =
    \<lparr>c_target_filename = ''x'', c_landing_folder = None, c_landing_basename = None, c_creator_path = None,
     c_creator_comm = ''curl'', c_creator_uid = 7, c_execution_uid = 9\<rparr>"
  using curl_uid curl_text
  by (simp add: event_ctx_def curl_denial_def curl_mark_def c_str_to_string_def comm_to_string_def from_utf8_lossy_valid
    hashdb_resolve_def sample_db_def uid7_record_def curl_comm_def c_str_def unwrap_or_def)

lemma curl_rule_from_ctx: "rule_from_context (event_ctx (de_henv curl_env) curl_denial sample_db) ALLOW_DIMS = curl_rule"
  by (simp add: curl_denial_ctx rule_from_context_def ALLOW_DIMS_def context_step_def non_empty_def rule_set_def
    default_spec_def dim_consts size_consts parse_show_u32 curl_rule_def Let_def)

lemma curl_describes: "describes 1 2 curl_mark curl_facts"
  by (simp add: describes_def curl_mark_def curl_facts_def uid7_record_def parent_hash_def
    ancestor_hashes_def ancestor_array_def slash_prefixes_def base_part_def zero_record_def size_consts)

lemma curl_distinct: "no_collision 1 2 (strings_in_play default_spec curl_facts)"
  by (simp add: no_collision_def strings_in_play_def curl_facts_def opt_strings_def default_spec_def
    slash_prefixes_def base_part_def siphash_x_nonzero)

lemma curl_kernel_ok: "kernel_inv curl_kernel" "map_shape curl_kernel" "env_ok curl_exec"
  by (simp_all add: kernel_inv_def curl_kernel_def sample_kernel_def record_ok_def record_shape_def curl_mark_def uid7_record_def
    zero_record_def curl_comm_def size_consts map_shape_def env_ok_def curl_exec_def uid7_env_def)

lemma curl_is_denied:
  assumes "CONFIG k = [MODE_ENFORCE, 0, 1]" "ALLOW_RULE_COUNT k = [0]" "INODE_MARKS k = [3 \<mapsto> curl_mark]"
  shows "bprm_check_security curl_exec 0 (Some (Some (reg_file 3 0))) k = (k\<lparr>EVENTS := EVENTS k @ [curl_denial]\<rparr>, -1)"
  using assms
  by (simp add: bprm_check_security_def exec_mark_def check_allowlist_def reg_file_def curl_exec_def uid7_env_def curl_mark_def
    curl_denial_def uid7_record_def current_pid_def current_tid_def current_comm_def read_origin_xattr_def array_get_def
    config_consts Let_def)

theorem blocked_then_allowed_witness:
  "\<exists>dm fs' dm1 dm2. daemon_start rfc4648_engine quiet_start strict_config curl_kernel curl_files sample_fs = (fs', Inr dm) \<and>
    snd (bprm_check_security curl_exec 0 (Some (Some (reg_file 3 0))) (dm_kernel dm)) = -1 \<and>
    process_control_request curl_env (''allow '' @ block_token (blocks_new 1 2) (to_line rfc4648_engine curl_rule)) dm1 =
      (dm2, Inr (to_line rfc4648_engine curl_rule)) \<and>
    snd (bprm_check_security curl_exec 0 (Some (Some (reg_file 3 0))) (dm_kernel dm2)) = 0"
proof -
  obtain dm fs' where st: "daemon_start rfc4648_engine quiet_start strict_config curl_kernel curl_files sample_fs = (fs', Inr dm)"
    and k: "CONFIG (dm_kernel dm) = [MODE_ENFORCE, 0, 1]" "ALLOW_RULE_COUNT (dm_kernel dm) = [0]"
      "INODE_MARKS (dm_kernel dm) = [3 \<mapsto> curl_mark]" "EVENTS (dm_kernel dm) = []"
    and dm: "dm_key dm = \<lparr>hk0 = 1, hk1 = 2\<rparr>" "hs_db (dm_hs dm) = sample_db" "blocks (dm_control dm) = blocks_new 1 2"
      "dm_files dm ''/a'' = FileAbsent"
    using curl_starts by blast
  note den = curl_is_denied [OF k(1-3)]
  have de: "de_b64 curl_env = rfc4648_engine" by (simp add: curl_env_def)
  have std: "base64_standard (de_b64 curl_env)" using de rfc4648.base64_standard_axioms by simp
  have al: "ec_allowlist strict_config = Some ''/a''"
    by (simp add: strict_config_def config_resolve_def opt_or_def)
  have ev: "EVENTS ((dm_kernel dm)\<lparr>EVENTS := EVENTS (dm_kernel dm) @ [curl_denial]\<rparr>) = EVENTS (dm_kernel dm) @ [curl_denial]"
    "e_origin curl_denial = curl_mark" by (simp_all add: curl_denial_def)
  have facts: "c_str (d_path curl_exec []) = x_target curl_facts" "length (x_target curl_facts) < EXEC_PATH_LEN"
    "utf8_valid (x_target curl_facts)" "name_fits (x_comm curl_facts)" "current_uid curl_exec = x_exec_uid curl_facts"
    by (simp_all add: curl_exec_def curl_facts_def c_str_def size_consts curl_text name_fits_def curl_comm_def pad_comm_def
      current_uid_def uid7_env_def)
  have uid: "get_uid_for_pid (de_henv curl_env) (current_pid curl_exec) = Some (x_exec_uid curl_facts)"
    using curl_uid by (simp add: curl_exec_def curl_facts_def current_pid_def)
  have db: "db_distinguishes (hs_db (dm_hs dm)) ss" for ss
    by (simp add: dm(2) sample_db_def db_distinguishes_def)
  have line: "to_line (de_b64 curl_env) (rule_from_context (event_ctx (de_henv curl_env) curl_denial (hs_db (dm_hs dm))) ALLOW_DIMS)
      = to_line rfc4648_engine curl_rule" using curl_rule_from_ctx dm(2) de by simp
  have free: "rule_for (blocks (dm_control dm)) t \<in> {None, Some l}" for t l
    by (simp add: dm(3) rule_for_def blocks_new_def)
  have acc: "allowlist_accepts curl_env (dm_files dm ''/a'') l" for l
    by (simp add: allowlist_accepts_def dm(4) curl_env_def ends_line_def file_content_def rules_load_def rules_default_def size_consts)
  have v: "(-1 :: i32) \<noteq> 0" by simp
  note desc = curl_describes [folded ev(2)]
  from blocked_then_allowed [OF std st [folded de] curl_kernel_ok(1,2) al pipeline.begun curl_kernel_ok(3) den v ev(1) dm(1) desc
      curl_distinct db facts uid line [symmetric] refl free acc]
  show ?thesis using st den dm(3) by auto
qed

end
