(* ===== verification/Reports.thy ===== *)
theory Reports
  imports Commands
begin

text \<open>
  What the programs tell the user, and the entry point: the checks and the texts of \<open>setup.rs\<close>, the lines the
  daemon logs when it has started (\<open>run.rs\<close>), the icons and the start of the tray agent (\<open>notify.rs\<close>), and
  \<open>main.rs\<close>, which calls the function of the subcommand. A text that is printed is the list of its bytes.
\<close>

section \<open>linprov setup\<close>

text \<open>
  The kernel checks: the text of \<open>/sys/kernel/security/lsm\<close> or what the error of reading it prints, and
  whether the type information of the kernel exists.
\<close>

definition preflight_lsm :: "string + string \<Rightarrow> log_entry" where
  "preflight_lsm lsm =
    (case lsm of
       Inr s \<Rightarrow>
         (let trimmed = str_trim s in
          if list_ex (\<lambda>m. m = ''bpf'') (str_split (CHR '','') trimmed)
          then Info (''BPF LSM is active ('' @ trimmed @ '')'')
          else Warn (''BPF LSM not in the active lsm= boot parameter ('' @ trimmed @ ''); '' @
            ''linprov won't be able to attach until you reboot with `bpf` in `lsm=`.''))
     | Inl e \<Rightarrow>
         Warn (''couldn't read /sys/kernel/security/lsm ('' @ e @ ''); securityfs is '' @
           ''usually mounted at boot '' @ EM_DASH @ '' is `CONFIG_SECURITY` enabled?''))"

definition preflight :: "string + string \<Rightarrow> bool \<Rightarrow> log_entry list" where
  "preflight lsm btf =
    [preflight_lsm lsm,
     if btf then Info ''vmlinux BTF is present''
     else Warn (''/sys/kernel/btf/vmlinux is missing '' @ EM_DASH @ '' kernel needs to be '' @
       ''built with `CONFIG_DEBUG_INFO_BTF=y`.'')]"

definition invoke_for :: "setup_args \<Rightarrow> string \<Rightarrow> string" where
  "invoke_for args binary = (if sa_no_install args then binary else ''linprov'')"

definition setup_summary :: "setup_args \<Rightarrow> string \<Rightarrow> string" where
  "setup_summary args binary = unlines
    ([[], ''linprov is set up.''] @
     (if sa_no_install args then [] else [''  binary:    '' @ binary]) @
     [''  config:    '' @ sa_config args, ''  allowlist: '' @ sa_allowlist args] @
     (if sa_no_systemd args then [] else [''  unit:      '' @ sa_systemd_unit args]) @
     [[]])"

definition print_next_steps :: "setup_args \<Rightarrow> string \<Rightarrow> string" where
  \<open>print_next_steps args invoke = unlines
    ([''Recommended next steps '' @ EM_DASH @ '' soak first, then enforce. Don't enable the'',
      ''systemd unit yet; you want to build up an allowlist before anything'',
      ''gets blocked.'',
      [],
      ''  # 1. Run a soak in the foreground. Use your machine normally '' @ EM_DASH,
      ''  #    every marked execve appends a rule to '' @ sa_allowlist args @ ''.'',
      ''  #    `^C` when you're satisfied; the rules persist in the file.'',
      [],
      ''  sudo '' @ invoke @ '' run --mode soak'',
      [],
      ''  # 2. Review the allowlist.'',
      ''  cat '' @ sa_allowlist args,
      [],
      ''  # 3. Edit '' @ sa_config args @ '' and flip `mode` from'',
      ''  #    "observe" to "enforce".''] @
     (if \<not> sa_no_systemd args then
       [[],
        ''  # 4. Enable the systemd unit.'',
        ''  sudo systemctl daemon-reload'',
        ''  sudo systemctl enable --now linprov.service'',
        ''  journalctl -u linprov.service -f'']
      else
       [[],
        ''  # 4. Run the daemon (whatever supervises it on your system).'',
        ''  sudo '' @ invoke @ '' run --config '' @ sa_config args]))\<close>

definition print_enforce_reminder :: "setup_args \<Rightarrow> string \<Rightarrow> string" where
  \<open>print_enforce_reminder args invoke = unlines
    ([''When your allowlist looks good:'',
      ''  1. review:   cat '' @ sa_allowlist args,
      ''  2. enforce:  set mode = "enforce" in '' @ sa_config args] @
     (if \<not> sa_no_systemd args then [''  3. enable:   sudo systemctl enable --now linprov.service'']
      else [''  3. run:      sudo '' @ invoke @ '' run --config '' @ sa_config args]))\<close>

section \<open>linprov run\<close>

fun show_mode :: "mode \<Rightarrow> string" where
  "show_mode Observe = ''Observe''"
| "show_mode Soak = ''Soak''"
| "show_mode Enforce = ''Enforce''"

fun show_notify_mode :: "notify_mode \<Rightarrow> string" where
  "show_notify_mode Off = ''Off''"
| "show_notify_mode Tray = ''Tray''"

text \<open>What the group database answers: an entry, no entry, or an error; a full buffer is an error.\<close>

datatype group_lookup = GroupFound u32 | GroupMissing | GroupError

definition linprov_group_gid :: "group_lookup \<Rightarrow> u32 option" where
  "linprov_group_gid g = (case g of GroupFound gid \<Rightarrow> Some gid | GroupMissing \<Rightarrow> None | GroupError \<Rightarrow> None)"

text \<open>
  The socket is bound if possible; a daemon without one runs on. \<open>bound\<close> is what the error prints. The
  lines go to the log before the first turn of the loop.
\<close>

definition start_log :: "effective_config \<Rightarrow> string option \<Rightarrow> log_entry list" where
  "start_log cfg bound =
    [case bound of
       None \<Rightarrow> Info (''control socket listening at '' @ DEFAULT_CONTROL_SOCKET_PATH @ '' (notifications='' @
         show_notify_mode (ec_notifications cfg) @ '')'')
     | Some e \<Rightarrow> Warn (''control socket disabled ('' @ DEFAULT_CONTROL_SOCKET_PATH @ ''): '' @ e),
     Info (''linprov running ('' @ show_mode (ec_mode cfg) @ ''). press Ctrl-C to exit, SIGHUP to reload the allowlist.'' @
       (if ec_mode cfg = Soak
        then '' soak dims (AND-joined per emitted rule): '' @ str_join '','' (map as_key (ec_soak cfg))
        else []))]"

section \<open>linprov notify\<close>

text \<open>
  A decoded picture: its colour type and depth are RGBA with eight bits, or not, and its bytes. The decoder
  is a library, a function of the bytes of the file.
\<close>

record picture =
  pc_rgba8 :: bool
  pc_width :: u32
  pc_height :: u32
  pc_data :: bytes

record icon =
  ic_width :: i32
  ic_height :: i32
  ic_data :: bytes

text \<open>RGBA to ARGB, pixel by pixel; an incomplete pixel at the end is dropped.\<close>

fun argb :: "bytes \<Rightarrow> bytes" where
  "argb (r # g # b # a # px) = a # r # g # b # argb px"
| "argb px = []"

definition load_icon :: "(bytes \<Rightarrow> picture option) \<Rightarrow> bytes \<Rightarrow> icon option" where
  "load_icon decode png =
    (case decode png of
       None \<Rightarrow> None
     | Some p \<Rightarrow>
        if \<not> pc_rgba8 p then None
        else Some \<lparr>ic_width = ucast (pc_width p), ic_height = ucast (pc_height p), ic_data = argb (pc_data p)\<rparr>)"

definition icon_pixmap :: "(bytes \<Rightarrow> picture option) \<Rightarrow> bytes \<Rightarrow> bytes \<Rightarrow> linprov_tray \<Rightarrow> icon list" where
  "icon_pixmap decode idle attn t =
    (case load_icon decode (if recent t = [] then idle else attn) of None \<Rightarrow> [] | Some i \<Rightarrow> [i])"

definition attention_icon_pixmap :: "(bytes \<Rightarrow> picture option) \<Rightarrow> bytes \<Rightarrow> icon list" where
  "attention_icon_pixmap decode attn = (case load_icon decode attn of None \<Rightarrow> [] | Some i \<Rightarrow> [i])"

text \<open>A pixel keeps its four bytes, so a whole picture keeps its size, and turning it three times more gives it back.\<close>

lemma argb_length: "length (argb px) = length px div 4 * 4"
proof (induction px rule: argb.induct)
  case (1 r g b a px)
  then show ?case using div_add_self1 [of 4 "length px"] by simp
qed simp_all

lemma argb_period:
  "length px mod 4 = 0 \<Longrightarrow> argb (argb (argb (argb px))) = px"
proof (induction px rule: argb.induct)
  case (1 r g b a px)
  then have "length px mod 4 = 0" by simp
  with 1 show ?case by simp
qed simp_all

definition linprov_gid :: "group_lookup \<Rightarrow> u32 option" where
  "linprov_gid g = (case g of GroupFound gid \<Rightarrow> Some gid | GroupMissing \<Rightarrow> None | GroupError \<Rightarrow> None)"

text \<open>
  The start of the agent: the warning about the group, the waits between attempts to register in
  milliseconds, and the line before the subscription, which goes on for ever (\<open>subscribe_turn\<close>).
\<close>

definition notify_run :: "group_lookup \<Rightarrow> bytes option \<Rightarrow> bool list \<Rightarrow> string \<Rightarrow> log_entry list \<times> nat list" where
  "notify_run grp status attempts socket =
    ((if lacks_linprov_group (linprov_gid grp) status
      then [Warn (''this process is NOT in the `linprov` group, so it can't reach the '' @
        ''daemon's control socket '' @ EM_DASH @ '' the tray will stay empty. If `id -nG` '' @
        ''shows you in the group, your launcher has a stale group set: a '' @
        ''`systemd --user` service inherits the user manager's groups, which '' @
        ''only refresh after a FULL logout/login or reboot (not '' @
        ''`systemctl --user restart`/`daemon-reexec`/`newgrp`).'')]
      else []) @
     (if True \<in> set attempts
      then [Info (''linprov tray agent started; subscribing to '' @ socket)] else []),
     register_loop 500 attempts)"

section \<open>The entry point\<close>

text \<open>The subcommands with their arguments.\<close>

datatype linprov_cmd = CmdRun run_args | CmdSetup setup_args | CmdUpgrade upgrade_args
  | CmdAllow string bool string | CmdNotify string | CmdQuarantine quarantine_cmd | CmdReview string

text \<open>
  What the subcommands find: the states they start from and what the system and the daemon at a socket
  answer.
\<close>

record machine =
  mc_b64 :: b64_engine
  mc_config :: "string \<Rightarrow> file_config option"
  mc_open_ok :: "string \<Rightarrow> bool"
  mc_start :: start_env
  mc_kernel :: kernel
  mc_files :: file_system
  mc_qfs :: qfs
  mc_setup :: setup_env
  mc_state :: setup_state
  mc_toml :: toml
  mc_renv :: "string \<Rightarrow> r_env"
  mc_entries :: "string \<Rightarrow> read_dir_result"
  mc_reply :: "string \<Rightarrow> bytes \<Rightarrow> bytes option"
  mc_group :: group_lookup
  mc_status :: "bytes option"
  mc_attempts :: "bool list"

datatype main_outcome = RanDaemon "file_system \<times> (execute_error + daemon)"
  | RanSetup "setup_state \<times> setup_error option"
  | RanUpgrade "inst_fs \<times> string list list \<times> install_error option"
  | RanAllow "allow_error + string" | RanNotify "log_entry list \<times> nat list"
  | RanQuarantine "qfs \<times> (quarantine_error + string list)" | RanReview "review_app option"

text \<open>Whether the simple logger is set up, which \<open>run\<close> does on its own, and what the subcommand did.\<close>

definition linprov_main :: "machine \<Rightarrow> linprov_cmd \<Rightarrow> bool \<times> main_outcome" where
  "linprov_main mc cmd =
    ((case cmd of CmdRun _ \<Rightarrow> False | _ \<Rightarrow> True),
     case cmd of
       CmdRun args \<Rightarrow> RanDaemon (execute (mc_b64 mc) (mc_config mc) (mc_open_ok mc) (mc_start mc) args (mc_kernel mc)
         (mc_files mc) (mc_qfs mc))
     | CmdSetup args \<Rightarrow> RanSetup (setup_run (mc_setup mc) args (mc_state mc))
     | CmdUpgrade args \<Rightarrow> RanUpgrade (upgrade_run (se_ie (mc_setup mc)) args (su_fs (mc_state mc)))
     | CmdAllow token once socket \<Rightarrow> RanAllow (allow_run once (mc_reply mc socket (allow_command once token)))
     | CmdNotify socket \<Rightarrow> RanNotify (notify_run (mc_group mc) (mc_status mc) (mc_attempts mc) socket)
     | CmdQuarantine c \<Rightarrow> RanQuarantine (quarantine_run (se_ie (mc_setup mc)) (mc_reply mc) (mc_renv mc) (mc_toml mc)
         (mc_entries mc) c (mc_qfs mc))
     | CmdReview socket \<Rightarrow> RanReview (review_run (mc_b64 mc) (mc_reply mc socket (''list'' @ [CHR 0x0A]))))"

text \<open>Without root, neither setup nor the store of the quarantine changes anything, whatever the arguments.\<close>

lemma main_needs_root:
  assumes "ie_euid (se_ie (mc_setup mc)) \<noteq> 0"
  shows "snd (linprov_main mc (CmdSetup args)) = RanSetup (mc_state mc, Some (SetupInstall NeedsRoot))"
    "snd (linprov_main mc (CmdQuarantine c)) = RanQuarantine (qf, res) \<Longrightarrow> qf = mc_qfs mc"
proof -
  show "snd (linprov_main mc (CmdSetup args)) = RanSetup (mc_state mc, Some (SetupInstall NeedsRoot))"
    using assms by (simp add: linprov_main_def setup_run_def require_root_def split: option.split)
  show "qf = mc_qfs mc" if "snd (linprov_main mc (CmdQuarantine c)) = RanQuarantine (qf, res)"
    using that assms quarantine_run_needs_root(1) [of "se_ie (mc_setup mc)" "mc_reply mc" "mc_renv mc" "mc_toml mc"
      "mc_entries mc" c "mc_qfs mc"] by (auto simp: linprov_main_def)
qed

end
