(* ===== verification/Install_Frame.thy ===== *)
theory Install_Frame
  imports Setup Daemon_Props
begin

text \<open>
  The entries of the file system the installer changes: every step relates the states before and after
  by \<open>keeps A\<close>, and a locale carries an invariant of the steps through a whole run of setup.
\<close>

section \<open>File systems that differ in files only\<close>

definition link_at :: "inst_fs \<Rightarrow> string \<Rightarrow> string option" where
  "link_at fs e = (case nodes fs e of Some (LinkNode t) \<Rightarrow> Some t | _ \<Rightarrow> None)"

definition same_links :: "inst_fs \<Rightarrow> inst_fs \<Rightarrow> bool" where
  "same_links fs fs' \<longleftrightarrow> dir_entry fs' = dir_entry fs \<and> (\<forall>e. link_at fs' e = link_at fs e)"

lemma resolve_link_at:
  "resolve fs n p = (case link_at fs (dir_entry fs p) of
     None \<Rightarrow> Some (dir_entry fs p) | Some t \<Rightarrow> (case n of 0 \<Rightarrow> None | Suc m \<Rightarrow> resolve fs m t))"
  by (cases n) (auto simp: link_at_def split: option.splits fs_node.splits)

lemma resolve_same_links: "same_links fs fs' \<Longrightarrow> resolve fs' n p = resolve fs n p"
  by (induction n arbitrary: p) (auto simp: resolve_link_at same_links_def split: option.splits)

lemma follow_same_links: "same_links fs fs' \<Longrightarrow> follow_links fs' p = follow_links fs p"
  by (simp add: follow_links_def resolve_same_links)

lemma resolve_no_link: "resolve fs n p = Some q \<Longrightarrow> link_at fs q = None"
  by (induction n arbitrary: p) (auto simp: link_at_def split: option.splits fs_node.splits)

lemma follow_no_link: "follow_links fs p = Some q \<Longrightarrow> link_at fs q = None"
  by (simp add: follow_links_def resolve_no_link)

lemma resolve_entry: "resolve fs n p = Some q \<Longrightarrow> \<exists>r. q = dir_entry fs r"
  by (induction n arbitrary: p) (auto split: option.splits fs_node.splits)

lemma follow_direct: "link_at fs (dir_entry fs p) = None \<Longrightarrow> follow_links fs p = Some (dir_entry fs p)"
  by (simp add: follow_links_def resolve_link_at)

text \<open>Entry names name themselves.\<close>

definition entries_ok :: "inst_fs \<Rightarrow> bool" where
  "entries_ok fs \<longleftrightarrow> (\<forall>p. dir_entry fs (dir_entry fs p) = dir_entry fs p)"

lemma follow_follow: "entries_ok fs \<Longrightarrow> follow_links fs p = Some q \<Longrightarrow> follow_links fs q = Some q"
  by (metis entries_ok_def follow_links_def follow_direct follow_no_link resolve_entry)

section \<open>The entries a run changes\<close>

text \<open>
  \<open>keeps A\<close> relates two states of the file system when nothing but files at the entries in \<open>A\<close> differs.
\<close>

definition keeps :: "string set \<Rightarrow> inst_fs \<Rightarrow> inst_fs \<Rightarrow> bool" where
  "keeps A fs fs' \<longleftrightarrow> same_links fs fs' \<and> (\<forall>e. e \<notin> A \<longrightarrow> nodes fs' e = nodes fs e)"

lemma keeps_refl [simp]: "keeps A fs fs"
  by (simp add: keeps_def same_links_def)

lemma keeps_trans: "keeps A fs fs1 \<Longrightarrow> keeps A fs1 fs2 \<Longrightarrow> keeps A fs fs2"
  by (simp add: keeps_def same_links_def)

lemma keeps_file:
  assumes "link_at fs e = None" "e \<in> A"
  shows "keeps A fs (fs\<lparr>nodes := (nodes fs)(e := map_option FileNode f)\<rparr>)"
  using assms by (auto simp: keeps_def same_links_def link_at_def split: option.splits)

lemma keeps_follow: "keeps A fs fs' \<Longrightarrow> follow_links fs' p = follow_links fs p"
  by (simp add: keeps_def follow_same_links)

lemma keeps_entry: "keeps A fs fs' \<Longrightarrow> dir_entry fs' = dir_entry fs \<and> link_at fs' e = link_at fs e"
  by (simp add: keeps_def same_links_def)

lemma keeps_put:
  "link_at fs (dir_entry fs p) = None \<Longrightarrow> dir_entry fs p \<in> A \<Longrightarrow> keeps A fs (put_node p (FileNode f) fs)"
  using keeps_file [of fs "dir_entry fs p" A "Some f"] by (simp add: put_node_def)

lemma keeps_drop: "link_at fs (dir_entry fs p) = None \<Longrightarrow> dir_entry fs p \<in> A \<Longrightarrow> keeps A fs (drop_node p fs)"
  using keeps_file [of fs "dir_entry fs p" A None] by (simp add: drop_node_def)

lemma keeps_write_bytes: "link_at fs q = None \<Longrightarrow> q \<in> A \<Longrightarrow> keeps A fs (write_bytes q uid mode body fs)"
  unfolding write_bytes_def by (rule keeps_file [of _ _ _ "Some _", simplified])

lemma keeps_write_text:
  assumes "\<forall>q. follow_links fs p = Some q \<longrightarrow> q \<in> A"
  shows "keeps A fs (fst (write_text se p body fs))"
  using assms
  by (auto simp: write_text_def Let_def follow_no_link intro!: keeps_write_bytes split: option.splits)

lemma keeps_set_mode: "\<forall>q. follow_links fs p = Some q \<longrightarrow> q \<in> A \<Longrightarrow> keeps A fs (set_mode p m fs)"
  using keeps_file [of fs _ A "Some _", simplified]
  by (auto simp: set_mode_def follow_no_link split: option.splits)

lemma keeps_write_new:
  assumes "\<forall>q. follow_links fs p = Some q \<longrightarrow> q \<in> A"
  shows "keeps A fs (fst (write_new se force p body mode fs))"
proof -
  have w: "keeps A fs (fst (write_text se p body fs))" by (rule keeps_write_text [OF assms])
  have "keeps A fs (set_mode p m (fst (write_text se p body fs)))" for m
    using w keeps_set_mode assms keeps_follow [OF w] keeps_trans by metis
  with w show ?thesis
    by (auto simp: write_new_def and_then_def split: prod.splits option.splits)
qed

lemma keeps_install_to:
  assumes "link_at fs (dir_entry fs dest) = None" "link_at fs (dir_entry fs (tmp_path ie dest)) = None"
  shows "keeps {dir_entry fs dest, dir_entry fs (tmp_path ie dest)} fs (fst (install_to ie p dest fs))"
proof -
  let ?t = "tmp_path ie dest" and ?A = "{dir_entry fs dest, dir_entry fs (tmp_path ie dest)}"
  have step: "keeps ?A fs fs1 \<Longrightarrow> keeps ?A fs (put_node ?t (FileNode f) fs1)"
    "keeps ?A fs fs1 \<Longrightarrow> keeps ?A fs (put_node dest (FileNode f) fs1)"
    "keeps ?A fs fs1 \<Longrightarrow> keeps ?A fs (drop_node ?t fs1)" for fs1 f
    using assms keeps_entry [of ?A fs fs1] keeps_put keeps_drop by (auto intro: keeps_trans)
  show ?thesis
    by (auto simp: install_to_def Let_def intro!: step split: option.splits)
qed

text \<open>
  What holds throughout a run of setup: an invariant of the state that answers and commands cannot
  break holds after every step if the steps that write files keep it.
\<close>

locale setup_inv =
  fixes I :: "setup_state \<Rightarrow> bool"
  assumes I_answers: "I st \<Longrightarrow> I (st\<lparr>su_answers := as\<rparr>)"
    and I_cmds: "I st \<Longrightarrow> I (st\<lparr>su_cmds := cs\<rparr>)"
begin

lemma and_then_inv: "I (fst r) \<Longrightarrow> (\<And>st. I st \<Longrightarrow> I (fst (f st))) \<Longrightarrow> I (fst (and_then r f))"
  by (auto simp: and_then_def split: prod.splits option.splits)

lemma prompt_inv: "I st \<Longrightarrow> (\<And>yes st. I st \<Longrightarrow> I (fst (k yes st))) \<Longrightarrow> I (fst (prompt_yes_no d k st))"
  by (auto simp: prompt_yes_no_def I_answers split: list.splits option.splits)

lemma run_cmd_inv: "I st \<Longrightarrow> I (fst (run_cmd se cmd st))"
  by (simp add: run_cmd_def I_cmds)

lemma add_user_inv: "I st \<Longrightarrow> I (fst (add_user_to_group se u st))"
  by (simp add: add_user_to_group_def run_cmd_def I_cmds)

lemma group_inv: "I st \<Longrightarrow> I (ensure_linprov_group se st)"
  by (simp add: ensure_linprov_group_def run_cmd_inv)

lemma enable_inv: "I st \<Longrightarrow> I (enable_user_unit user st)"
  by (simp add: enable_user_unit_def Let_def I_cmds)

lemma restart_inv: "I st \<Longrightarrow> I (fst (restart_step se st))"
  by (auto simp: restart_step_def systemd_unit_active_def restart_system_unit_def run_cmd_def I_cmds intro!: prompt_inv)

lemma soak_inv: "I st \<Longrightarrow> I (fst (soak_step se binary st))"
  by (auto simp: soak_step_def run_cmd_def I_cmds intro!: prompt_inv)

lemma tray_ui_inv:
  assumes "I st"
    and "\<And>st. I st \<Longrightarrow> I (fst (on_fs (set_config_notifications_tray se (sa_config args)) st))"
    and "\<And>st. I st \<Longrightarrow> I (fst (on_fs (write_user_notify_unit se user binary) st))"
  shows "I (fst (setup_tray_ui se args binary user st))"
  unfolding setup_tray_ui_def
  by (intro and_then_inv prompt_inv assms(1))
    (simp_all add: assms(2,3) add_user_inv and_then_inv enable_inv)

lemma walkthrough_inv:
  assumes "I st"
    and "\<And>st. I st \<Longrightarrow> I (fst (on_fs (set_config_notifications_tray se (sa_config args)) st))"
    and "\<And>st user. invoking_user (se_ie se) = Some user \<Longrightarrow> I st \<Longrightarrow> I (fst (on_fs (write_user_notify_unit se user binary) st))"
  shows "I (fst (walkthrough se args binary st))"
proof -
  have "I (fst (tray_step se args binary st))"
    using assms by (auto simp: tray_step_def intro!: prompt_inv tray_ui_inv split: option.splits)
  then show ?thesis unfolding walkthrough_def by (intro and_then_inv restart_inv soak_inv)
qed

lemma setup_run_inv:
  assumes "I st" "I (st\<lparr>su_fs := fst (setup_binary se args (su_fs st))\<rparr>)"
    and "\<And>st. I st \<Longrightarrow> I (fst (on_fs (write_config se (sa_config args) (sa_allowlist args) (sa_force args)) st))"
    and "\<And>st. I st \<Longrightarrow> I (fst (on_fs (write_empty_allowlist se (sa_allowlist args) (sa_force args)) st))"
    and "\<And>st binary. I st \<Longrightarrow>
      I (fst (on_fs (write_systemd_unit se (sa_systemd_unit args) binary (sa_config args) (sa_force args)) st))"
    and "\<And>st. I st \<Longrightarrow> I (fst (on_fs (set_config_notifications_tray se (sa_config args)) st))"
    and "\<And>st user binary. invoking_user (se_ie se) = Some user \<Longrightarrow> I st \<Longrightarrow>
      I (fst (on_fs (write_user_notify_unit se user binary) st))"
  shows "I (fst (setup_run se args st))"
proof -
  have files: "I (fst (and_then (on_fs (write_config se (sa_config args) (sa_allowlist args) (sa_force args)) st) (\<lambda>st.
      and_then (on_fs (write_empty_allowlist se (sa_allowlist args) (sa_force args)) st) (\<lambda>st.
      and_then (if sa_no_systemd args then (ensure_linprov_group se st, None)
                else on_fs (write_systemd_unit se (sa_systemd_unit args) binary (sa_config args) (sa_force args))
                  (ensure_linprov_group se st))
        (\<lambda>st. if setup_interactive se (sa_yes args) then walkthrough se args binary st else (st, None))))))"
    if "I st" for st binary
    using that by (intro and_then_inv) (auto simp: assms(3-7) group_inv intro!: walkthrough_inv)
  show ?thesis using assms(1,2) files unfolding setup_run_def Let_def by (auto split: prod.splits sum.splits)
qed

end

interpretation kept: setup_inv "\<lambda>st. keeps A fs (su_fs st)" for A fs
  by unfold_locales simp_all

lemma on_fs_kept: "keeps A fs (fst (f (su_fs st))) \<Longrightarrow> keeps A fs (su_fs (fst (on_fs f st)))"
  by (cases "f (su_fs st)") (simp add: on_fs_def)

section \<open>Writing as the user\<close>

definition user_writable :: "u32 \<Rightarrow> fs_node option \<Rightarrow> bool" where
  "user_writable uid n \<longleftrightarrow> (case n of None \<Rightarrow> True | Some (FileNode f) \<Rightarrow> may_write uid f | Some (LinkNode t) \<Rightarrow> False)"

lemma user_writableD: "user_writable uid n \<Longrightarrow> n = None \<or> (\<exists>f. n = Some (FileNode f) \<and> may_write uid f)"
  by (simp add: user_writable_def split: option.splits fs_node.splits)

lemma keeps_write_as:
  assumes "\<And>q. follow_links fs p = Some q \<Longrightarrow> user_writable uid (nodes fs q) \<Longrightarrow> q \<in> A"
  shows "keeps A fs (fst (write_as se uid p body fs))"
proof (cases "follow_links fs p")
  case (Some q)
  have "user_writable uid (nodes fs q)" if "\<not> (case nodes fs q of Some (FileNode f) \<Rightarrow> \<not> may_write uid f | _ \<Rightarrow> False)"
    using that follow_no_link [OF Some] by (auto simp: user_writable_def link_at_def split: option.splits fs_node.splits)
  with Some assms show ?thesis
    by (auto simp: write_as_def follow_no_link intro!: keeps_write_bytes split: option.splits)
qed (simp add: write_as_def)

lemma keeps_user_unit:
  assumes "\<And>q. follow_links fs (user_unit_path user) = Some q \<Longrightarrow> user_writable (iu_uid user) (nodes fs q) \<Longrightarrow> q \<in> A"
  shows "keeps A fs (fst (write_user_notify_unit se user binary fs))"
  using keeps_write_as [OF assms]
  by (simp add: write_user_notify_unit_def write_user_tree_as_user_def drop_to_user_and_write_def case_prod_beta split: option.splits)

definition setup_entries :: "setup_env \<Rightarrow> setup_args \<Rightarrow> inst_fs \<Rightarrow> string set" where
  "setup_entries se args fs =
    {dir_entry fs (sa_install_path args), dir_entry fs (tmp_path (se_ie se) (sa_install_path args))} \<union>
    {q. \<exists>p \<in> {sa_config args, sa_allowlist args, sa_systemd_unit args}. follow_links fs p = Some q} \<union>
    {q. \<exists>user. invoking_user (se_ie se) = Some user \<and> follow_links fs (user_unit_path user) = Some q \<and>
        user_writable (iu_uid user) (nodes fs q)}"

lemma keeps_user_unit_later:
  assumes "keeps A fs fs1"
    and "\<And>q. follow_links fs (user_unit_path user) = Some q \<Longrightarrow> user_writable (iu_uid user) (nodes fs q) \<Longrightarrow> q \<in> A"
  shows "keeps A fs (fst (write_user_notify_unit se user binary fs1))"
proof -
  have "keeps A fs1 (fst (write_user_notify_unit se user binary fs1))"
  proof (rule keeps_user_unit)
    fix q assume q: "follow_links fs1 (user_unit_path user) = Some q" "user_writable (iu_uid user) (nodes fs1 q)"
    show "q \<in> A"
    proof (rule ccontr)
      assume "q \<notin> A"
      then have "nodes fs1 q = nodes fs q" using assms(1) by (simp add: keeps_def)
      with q assms(2) \<open>q \<notin> A\<close> show False by (simp add: keeps_follow [OF assms(1)])
    qed
  qed
  with assms(1) show ?thesis by (rule keeps_trans)
qed

lemma keeps_setup_binary:
  assumes "link_at fs (dir_entry fs (sa_install_path args)) = None"
    and "link_at fs (dir_entry fs (tmp_path (se_ie se) (sa_install_path args))) = None"
  shows "keeps {dir_entry fs (sa_install_path args), dir_entry fs (tmp_path (se_ie se) (sa_install_path args))} fs
    (fst (setup_binary se args fs))"
  using keeps_install_to [OF assms]
  by (auto simp: setup_binary_def split: option.splits prod.splits) (metis fst_conv)

lemma keeps_mono: "keeps A fs fs' \<Longrightarrow> A \<subseteq> B \<Longrightarrow> keeps B fs fs'"
  by (auto simp: keeps_def)

lemma keeps_later:
  assumes "keeps A fs fs1" "\<And>fs. \<forall>q. follow_links fs p = Some q \<longrightarrow> q \<in> A \<Longrightarrow> keeps A fs (fst (w fs))"
    "\<forall>q. follow_links fs p = Some q \<longrightarrow> q \<in> A"
  shows "keeps A fs (fst (w fs1))"
  using assms(2) [of fs1] assms(1,3) by (auto simp: keeps_follow [OF assms(1)] intro: keeps_trans)

lemma keeps_set_config:
  "\<forall>q. follow_links fs p = Some q \<longrightarrow> q \<in> A \<Longrightarrow> keeps A fs (fst (set_config_notifications_tray se p fs))"
  using keeps_write_text [of fs p A se] by (auto simp: set_config_notifications_tray_def split: option.splits)

lemma keeps_setup_run:
  assumes "link_at (su_fs st) (dir_entry (su_fs st) (sa_install_path args)) = None"
    and "link_at (su_fs st) (dir_entry (su_fs st) (tmp_path (se_ie se) (sa_install_path args))) = None"
  shows "keeps (setup_entries se args (su_fs st)) (su_fs st) (su_fs (fst (setup_run se args st)))"
proof (rule kept.setup_run_inv)
  let ?fs = "su_fs st" and ?A = "setup_entries se args (su_fs st)"
  show "keeps ?A ?fs (su_fs (st\<lparr>su_fs := fst (setup_binary se args ?fs)\<rparr>))"
    using keeps_setup_binary [OF assms] by (simp, elim keeps_mono) (auto simp: setup_entries_def)
  fix st1 :: setup_state assume k: "keeps ?A ?fs (su_fs st1)"
  have p: "\<forall>q. follow_links ?fs p = Some q \<longrightarrow> q \<in> ?A" if "p \<in> {sa_config args, sa_allowlist args, sa_systemd_unit args}" for p
    using that by (auto simp: setup_entries_def)
  show "keeps ?A ?fs (su_fs (fst (on_fs (write_config se (sa_config args) (sa_allowlist args) (sa_force args)) st1)))"
    unfolding write_config_def
    by (rule on_fs_kept, rule keeps_later [OF k keeps_write_new], assumption, rule p, simp)
  show "keeps ?A ?fs (su_fs (fst (on_fs (write_empty_allowlist se (sa_allowlist args) (sa_force args)) st1)))"
    unfolding write_empty_allowlist_def
    by (rule on_fs_kept, rule keeps_later [OF k keeps_write_new], assumption, rule p, simp)
  show "keeps ?A ?fs (su_fs (fst (on_fs (write_systemd_unit se (sa_systemd_unit args) b (sa_config args) (sa_force args)) st1)))" for b
    unfolding write_systemd_unit_def
    by (rule on_fs_kept, rule keeps_later [OF k keeps_write_new], assumption, rule p, simp)
  show "keeps ?A ?fs (su_fs (fst (on_fs (set_config_notifications_tray se (sa_config args)) st1)))"
    by (rule on_fs_kept, rule keeps_later [OF k keeps_set_config], assumption, rule p, simp)
  show "keeps ?A ?fs (su_fs (fst (on_fs (write_user_notify_unit se user b) st1)))"
    if "invoking_user (se_ie se) = Some user" for user b
    using that by (intro on_fs_kept keeps_user_unit_later [OF k]) (auto simp: setup_entries_def)
qed simp

end
