(* ===== verification/Install_Props.thy ===== *)
theory Install_Props
  imports Install_Frame
begin

text \<open>
  Properties of the installer: which files it changes, what an upgrade can put at the install path,
  that the files setup writes are files the daemon and a later upgrade accept, and what enabling the
  tray does to a configuration.
\<close>

section \<open>The files of setup\<close>

text \<open>
  C21: Setup changes only its own files and, for the tray, a file the invoking user could have written.
  Let the install path and its temporary sibling be no symbolic links. However the run ends, an entry that
  differs afterwards is one of these two, the end of the path of the configuration, the allowlist or the
  unit, or the end of the path of the user's unit; the latter only if nothing was there or the kernel would
  have opened it for writing to that user, wherever links in the home directory lead.
\<close>

theorem setup_changes_only:
  assumes "setup_run se args st = (st', err)" "fs = su_fs st"
    and "link_at fs (dir_entry fs (sa_install_path args)) = None"
    and "link_at fs (dir_entry fs (tmp_path (se_ie se) (sa_install_path args))) = None"
    and "nodes (su_fs st') e \<noteq> nodes fs e"
  shows "e = dir_entry fs (sa_install_path args) \<or> e = dir_entry fs (tmp_path (se_ie se) (sa_install_path args)) \<or>
    (\<exists>p \<in> {sa_config args, sa_allowlist args, sa_systemd_unit args}. follow_links fs p = Some e) \<or>
    (\<exists>user. invoking_user (se_ie se) = Some user \<and> follow_links fs (user_unit_path user) = Some e \<and>
      (nodes fs e = None \<or> (\<exists>f. nodes fs e = Some (FileNode f) \<and> may_write (iu_uid user) f)))"
proof -
  have "e \<in> setup_entries se args fs"
    using keeps_setup_run [of st args se] assms by (auto simp: keeps_def)
  then show ?thesis unfolding setup_entries_def using user_writableD by blast
qed

section \<open>Installing\<close>

definition installed_file :: "install_env \<Rightarrow> bytes \<Rightarrow> inst_file" where
  "installed_file ie data = \<lparr>i_data = data, i_mode = 0x1ED, i_uid = ie_euid ie, i_regular = True\<rparr>"

lemma canon_metadata:
  "canon fs p = Some q \<Longrightarrow> \<exists>f. metadata fs p = Some f \<and> nodes fs q = Some (FileNode f) \<and> follow_links fs p = Some q"
  by (auto simp: canon_def metadata_def split: if_splits option.splits fs_node.splits)

lemma read_direct:
  "dir_entry fs q = q \<Longrightarrow> nodes fs q = Some (FileNode f) \<Longrightarrow> read_file fs q = Some (i_data f)"
  by (simp add: read_file_def metadata_def follow_direct link_at_def)

lemma follow_entry: "entries_ok fs \<Longrightarrow> follow_links fs p = Some q \<Longrightarrow> dir_entry fs q = q"
  by (metis entries_ok_def follow_links_def resolve_entry)

lemma install_to_dest:
  assumes "install_to ie p dest fs = (fs', res)" "entries_ok fs"
    and "dir_entry fs (tmp_path ie dest) \<noteq> dir_entry fs dest" "nodes fs (dir_entry fs (tmp_path ie dest)) = None"
  shows "nodes fs' (dir_entry fs dest) = nodes fs (dir_entry fs dest) \<and> res \<noteq> Inr Installed \<or>
    (\<exists>f. metadata fs p = Some f \<and> nodes fs' (dir_entry fs dest) = Some (FileNode (installed_file ie (i_data f))))"
proof (cases "canon fs p")
  case None
  with assms(1) show ?thesis by (auto simp: install_to_def)
next
  case (Some q)
  let ?t = "dir_entry fs (tmp_path ie dest)"
  from canon_metadata [OF Some] obtain f where
    f: "metadata fs p = Some f" "nodes fs q = Some (FileNode f)" "follow_links fs p = Some q" by blast
  have q: "q \<noteq> ?t" "dir_entry fs q = q" using f assms(2,4) follow_entry by auto
  have "read_file (fs\<lparr>nodes := (nodes fs)(?t \<mapsto> n)\<rparr>) q = Some (i_data f)" for n
    using q f(2) by (simp add: read_direct)
  moreover have "(if ie_remove_ok ie then drop_node (tmp_path ie dest) fs else fs) = fs"
    using assms(4) by (simp add: drop_node_def fun_upd_idem)
  ultimately show ?thesis
    using assms(1,3,4) Some f(1)
    by (auto simp: install_to_def Let_def put_node_def drop_node_def installed_file_def split: if_splits option.splits)
qed

lemma install_to_others:
  assumes "e \<noteq> dir_entry fs dest" "e \<noteq> dir_entry fs (tmp_path ie dest)"
  shows "nodes (fst (install_to ie p dest fs)) e = nodes fs e"
  using assms by (auto simp: install_to_def Let_def put_node_def drop_node_def split: option.splits)

definition vetted :: "install_env \<Rightarrow> inst_file \<Rightarrow> bool \<Rightarrow> bool" where
  "vetted ie f named \<longleftrightarrow> i_regular f \<and> i_mode f AND 0x12 = 0 \<and>
    (named \<or> i_uid f = 0 \<or> i_uid f = ie_euid ie \<or>
      (\<exists>u \<in> set (candidate_users ie). \<exists>r. lookup_user ie u = Some r \<and> i_uid f = iu_uid r))"

lemma trusted_uids:
  "uid \<in> set (trusted_owner_uids ie) \<longleftrightarrow> uid = 0 \<or> uid = ie_euid ie \<or>
    (\<exists>u \<in> set (candidate_users ie). \<exists>r. lookup_user ie u = Some r \<and> uid = iu_uid r)"
  by (auto simp: trusted_owner_uids_def List.map_filter_def image_iff) force+

lemma ensure_trusted: "ensure_trusted_source ie fs p named = None \<Longrightarrow> \<exists>f. metadata fs p = Some f \<and> vetted ie f named"
  by (auto simp: ensure_trusted_source_def vetted_def trusted_uids split: option.splits if_splits)

lemma resolve_source_vetted:
  assumes "resolve_source ie fs explicit dest = Inr p"
  shows "\<exists>f. metadata fs p = Some f \<and> vetted ie f (explicit = Some p \<or> ie_exe ie = Some p)"
  using assms by (auto simp: resolve_source_def vetted_def split: option.splits if_splits dest!: ensure_trusted)

text \<open>A run ends before the copy or with the outcome of the copy.\<close>

definition no_copy :: "upgrade_args \<Rightarrow> inst_fs \<Rightarrow> inst_fs \<Rightarrow> bool \<Rightarrow> bool" where
  "no_copy args fs fs' restart \<longleftrightarrow> fs' = fs \<and> (restart \<longrightarrow> ua_no_install args \<or> ua_dry_run args)"

definition did_copy :: "install_env \<Rightarrow> upgrade_args \<Rightarrow> inst_fs \<Rightarrow> inst_fs \<Rightarrow> bool \<Rightarrow> bool" where
  "did_copy ie args fs fs' restart \<longleftrightarrow> \<not> ua_dry_run args \<and>
    (\<exists>p res. resolve_source ie fs (ua_source args) (ua_install_path args) = Inr p \<and>
      install_to ie p (ua_install_path args) fs = (fs', res) \<and> (restart \<longrightarrow> res = Inr Installed))"

lemma upgrade_install_cases:
  assumes "upgrade_install ie args fs = (fs', r)"
  shows "no_copy args fs fs' (r = Inr True) \<or> did_copy ie args fs fs' (r = Inr True)"
proof (cases "ua_no_install args \<or> ua_dry_run args")
  case True
  with assms show ?thesis by (auto simp: upgrade_install_def no_copy_def split: sum.splits if_splits)
next
  case False
  with assms show ?thesis
    by (auto simp: upgrade_install_def no_copy_def did_copy_def split: sum.splits option.splits prod.splits outcome.splits)
qed

lemma upgrade_run_install:
  assumes "upgrade_run ie args fs = (fs', cmds, err)"
  shows "fs' = fs \<and> cmds = [] \<or> (\<exists>r. upgrade_install ie args fs = (fs', r) \<and>
    (cmds \<noteq> [] \<longrightarrow> r = Inr True \<and> systemctl ie (ua_unit args) (ua_dry_run args) = (cmds, err)))"
  using assms by (auto simp: upgrade_run_def split: if_splits prod.splits sum.splits)

lemma upgrade_run_cases:
  assumes "upgrade_run ie args fs = (fs', cmds, err)"
  shows "no_copy args fs fs' (cmds \<noteq> []) \<or> did_copy ie args fs fs' (cmds \<noteq> [])"
  using upgrade_run_install [OF assms] upgrade_install_cases [of ie args fs]
  by (auto simp: no_copy_def did_copy_def)

text \<open>
  C22: An upgrade installs a vetted binary, whole, or leaves the installed one alone. However the run
  ends, the entry of the install path is as it was, or it is a complete copy with mode 0755 of
  a regular file that group and others cannot write and that was named by the operator, is the
  running binary, or belongs to root or to the user who invoked the command. No link at the install path
  is followed, and no other entry than the temporary sibling changes.
\<close>

theorem upgrade_installs_vetted:
  assumes "upgrade_run ie args fs = (fs', cmds, err)" "entries_ok fs" "dest = ua_install_path args"
    and "dir_entry fs (tmp_path ie dest) \<noteq> dir_entry fs dest" "nodes fs (dir_entry fs (tmp_path ie dest)) = None"
  shows "(nodes fs' (dir_entry fs dest) = nodes fs (dir_entry fs dest) \<or>
    (\<exists>p f. metadata fs p = Some f \<and> nodes fs' (dir_entry fs dest) = Some (FileNode (installed_file ie (i_data f))) \<and>
      i_regular f \<and> i_mode f AND 0x12 = 0 \<and>
      (ua_source args = Some p \<or> ie_exe ie = Some p \<or> i_uid f = 0 \<or> i_uid f = ie_euid ie \<or>
        (\<exists>u \<in> set (candidate_users ie). \<exists>r. lookup_user ie u = Some r \<and> i_uid f = iu_uid r)))) \<and>
    (\<forall>e. e \<noteq> dir_entry fs dest \<and> e \<noteq> dir_entry fs (tmp_path ie dest) \<longrightarrow> nodes fs' e = nodes fs e)"
  using upgrade_run_cases [OF assms(1)]
proof
  assume "did_copy ie args fs fs' (cmds \<noteq> [])"
  then obtain p res where p: "resolve_source ie fs (ua_source args) dest = Inr p" "install_to ie p dest fs = (fs', res)"
    by (auto simp: did_copy_def assms(3))
  from resolve_source_vetted [OF p(1)] obtain f where f: "metadata fs p = Some f"
    "vetted ie f (ua_source args = Some p \<or> ie_exe ie = Some p)" by blast
  have frame: "\<forall>e. e \<noteq> dir_entry fs dest \<and> e \<noteq> dir_entry fs (tmp_path ie dest) \<longrightarrow> nodes fs' e = nodes fs e"
    using install_to_others [of _ fs dest ie p] by (simp add: p(2))
  from install_to_dest [OF p(2) assms(2,4,5)] show ?thesis
  proof
    assume "\<exists>f. metadata fs p = Some f \<and> nodes fs' (dir_entry fs dest) = Some (FileNode (installed_file ie (i_data f)))"
    with f have "nodes fs' (dir_entry fs dest) = Some (FileNode (installed_file ie (i_data f)))" by auto
    with f frame show ?thesis unfolding vetted_def by blast
  qed (use frame in blast)
qed (simp add: no_copy_def)

text \<open>
  C31: The service is restarted only for a new binary. If an upgrade runs any command, it is no dry run
  and either no installation was asked for or the file at the install path is now the copy of a source;
  the commands are a reload and, if it succeeds, the restart. A dry run changes no file and runs nothing.
\<close>

theorem upgrade_restarts_for_new_binary:
  assumes "upgrade_run ie args fs = (fs', cmds, err)" "entries_ok fs" "dest = ua_install_path args"
    and "dir_entry fs (tmp_path ie dest) \<noteq> dir_entry fs dest" "nodes fs (dir_entry fs (tmp_path ie dest)) = None"
  shows "(ua_dry_run args \<longrightarrow> fs' = fs \<and> cmds = []) \<and>
    (cmds \<noteq> [] \<longrightarrow>
      (ua_no_install args \<or>
        (\<exists>p f. metadata fs p = Some f \<and> nodes fs' (dir_entry fs dest) = Some (FileNode (installed_file ie (i_data f))))) \<and>
      (cmds = [[''systemctl'', ''daemon-reload'']] \<and> err \<noteq> None \<or>
       cmds = [[''systemctl'', ''daemon-reload''], [''systemctl'', ''restart'', ua_unit args]]))"
proof (intro conjI impI)
  note c = upgrade_run_cases [OF assms(1)]
  have sc: "systemctl ie (ua_unit args) (ua_dry_run args) = (cmds, err)" if "cmds \<noteq> []"
    using upgrade_run_install [OF assms(1)] that by auto
  { assume "ua_dry_run args"
    then show "fs' = fs" using c by (auto simp: no_copy_def did_copy_def)
    show "cmds = []" using \<open>ua_dry_run args\<close> sc by (auto simp: systemctl_def) }
  assume ne: "cmds \<noteq> []"
  then have dry: "\<not> ua_dry_run args" using sc by (auto simp: systemctl_def)
  from sc [OF ne] dry show "cmds = [[''systemctl'', ''daemon-reload'']] \<and> err \<noteq> None \<or>
      cmds = [[''systemctl'', ''daemon-reload''], [''systemctl'', ''restart'', ua_unit args]]"
    by (auto simp: systemctl_def split: option.splits if_splits)
  from c show "ua_no_install args \<or> (\<exists>p f. metadata fs p = Some f \<and>
      nodes fs' (dir_entry fs dest) = Some (FileNode (installed_file ie (i_data f))))"
  proof
    assume "did_copy ie args fs fs' (cmds \<noteq> [])"
    then obtain p where "install_to ie p dest fs = (fs', Inr Installed)" using ne by (auto simp: did_copy_def assms(3))
    from install_to_dest [OF this assms(2,4,5)] show ?thesis by auto
  qed (use ne dry in \<open>simp add: no_copy_def\<close>)
qed

section \<open>What setup writes\<close>

text \<open>Lines that end nowhere inside and carry no carriage return are read back.\<close>

definition one_line :: "string \<Rightarrow> bool" where
  "one_line l \<longleftrightarrow> CHR 0x0A \<notin> set l \<and> CHR 0x0D \<notin> set l"

definition whole_line :: "string \<Rightarrow> bool" where
  "whole_line l \<longleftrightarrow> one_line l \<and> utf8_valid l"

lemma strip_cr: "CHR 0x0D \<notin> set l \<Longrightarrow> str_strip_suffix_char (CHR 0x0D) l = None"
  unfolding str_strip_suffix_char_def str_ends_with_char_def by (metis last_in_set)

lemma whole_line_cr: "one_line l \<Longrightarrow> str_strip_suffix_char (CHR 0x0D) l = None"
  by (simp add: one_line_def strip_cr)

lemma split_unlines: "\<forall>l \<in> set ls. one_line l \<Longrightarrow> str_split (CHR 0x0A) (unlines ls) = ls @ [[]]"
  by (induction ls) (simp_all add: unlines_def one_line_def str_split_append)

lemma str_lines_unlines: "\<forall>l \<in> set ls. one_line l \<Longrightarrow> str_lines (unlines ls) = ls"
  by (simp add: str_lines_def split_unlines whole_line_cr cong: map_cong)

lemma whole_one_line: "\<forall>l \<in> set ls. whole_line l \<Longrightarrow> \<forall>l \<in> set ls. one_line l"
  by (simp add: whole_line_def)

lemma read_lines_unlines: "\<forall>l \<in> set ls. whole_line l \<Longrightarrow> read_lines (unlines ls) = map Some ls"
  by (simp add: read_lines_def split_unlines [OF whole_one_line] line_of_def whole_line_cr whole_line_def cong: map_cong)

lemma utf8_unlines: "\<forall>l \<in> set ls. whole_line l \<Longrightarrow> utf8_valid (unlines ls)"
proof (induction ls)
  case (Cons l ls)
  then have "utf8_valid (l @ [CHR 0x0A] @ unlines ls)"
    by (intro utf8_valid_append) (simp_all add: whole_line_def utf8_valid_ascii)
  then show ?case by (simp add: unlines_def)
qed (simp add: unlines_def)

lemma whole_line_ascii: "\<forall>b \<in> set l. 0x1F < (of_char b :: nat) \<and> (of_char b :: nat) < 0x80 \<Longrightarrow> whole_line l"
  by (auto simp: whole_line_def one_line_def intro: utf8_valid_ascii)

lemma whole_line_append: "whole_line a \<Longrightarrow> whole_line b \<Longrightarrow> whole_line (a @ b)"
  by (simp add: whole_line_def one_line_def utf8_valid_append)

lemma whole_arrow: "whole_line RIGHT_ARROW"
proof -
  have "utf8_valid RIGHT_ARROW"
    by (subst utf8_valid.simps)
      (simp add: RIGHT_ARROW_def utf8_head_def utf8_width_def second_ok_def byte_at_def)
  then show ?thesis by (simp add: RIGHT_ARROW_def whole_line_def one_line_def)
qed

lemma load_comments:
  assumes "\<forall>l \<in> set ls. \<exists>s. l = CHR ''#'' # s"
  shows "load_lines E i (map Some ls) R = Inr R"
  using assms by (induction ls arbitrary: i) (auto simp: strip_comment_def str_trim_trimmed)

text \<open>Trimming stops at a byte that no white space contains.\<close>

lemma trim_left_solid:
  assumes "\<forall>w \<in> set ws. x \<notin> set w"
  shows "\<exists>p. trim_left ws (a @ x # b) = p @ x # b"
proof (induction "length a" arbitrary: a rule: less_induct)
  case less
  show ?case
  proof (cases "ws_head ws (a @ x # b)")
    case None
    then show ?thesis using trim_left_None by blast
  next
    case (Some w)
    from ws_head_SomeD [OF this] have w: "w \<in> set ws" "w \<noteq> []" "take (length w) (a @ x # b) = w" by simp_all
    have len: "length w \<le> length a"
    proof (rule ccontr)
      assume "\<not> length w \<le> length a"
      then have "x \<in> set (take (length w) (a @ x # b))" by (cases "length w - length a") auto
      with w(1,3) assms show False by auto
    qed
    have "trim_left ws (a @ x # b) = trim_left ws (drop (length w) (a @ x # b))"
      using Some by (subst trim_left.simps) simp
    also have "drop (length w) (a @ x # b) = drop (length w) a @ x # b" using len by simp
    finally show ?thesis using less.hyps [of "drop (length w) a"] w(2) len by (cases w) auto
  qed
qed

lemma trim_keeps_solid:
  assumes "solid (hd a)" "a \<noteq> []" "solid x"
  shows "\<exists>r. str_trim (a @ x # b) = a @ x # r"
proof -
  obtain h t where a: "a = h # t" using assms(2) by (cases a) simp_all
  have "ws_head white_space (h # t @ x # b) = None"
    using ws_head_solid [of white_space h "[]" "t @ x # b"] assms(1) by (simp add: solid_def a ws_head_None)
  then have "ws_head white_space (a @ x # b) = None" by (simp add: a)
  then have s: "str_trim_start (a @ x # b) = a @ x # b" unfolding str_trim_start_def by (rule trim_left_None)
  have "\<forall>w \<in> set (map rev white_space). x \<notin> set w" using assms(3) by (auto simp: solid_def)
  from trim_left_solid [OF this, of "rev b" "rev a"] obtain p where
    "trim_left (map rev white_space) (rev b @ x # rev a) = p @ x # rev a" by blast
  then have "str_trim (a @ x # b) = a @ x # rev p" unfolding str_trim_def s str_trim_end_def by simp
  then show ?thesis by blast
qed

lemma first_word:
  assumes "\<forall>c \<in> set b. solid c" "b \<noteq> []"
  shows "\<exists>ws. str_split_whitespace (str_trim (b @ '' run'' @ c)) = b # ws"
proof -
  have "solid (CHR ''r'')" by (simp add: solid_ascii)
  with assms obtain r where r: "str_trim ((b @ '' '') @ CHR ''r'' # ''un'' @ c) = (b @ '' '') @ CHR ''r'' # r"
    using trim_keeps_solid [of "b @ '' ''" "CHR ''r''" "''un'' @ c"] by auto
  then have "str_split_whitespace (str_trim (b @ '' run'' @ c)) = split_ws_acc [] (b @ CHR '' '' # CHR ''r'' # r)"
    by (simp add: str_split_whitespace_def)
  also have "\<dots> = b # split_ws_acc [] (CHR ''r'' # r)"
    using split_ws_solid [OF assms(1), of "[]" "CHR '' '' # CHR ''r'' # r"] assms(2) by (simp add: split_ws_space)
  finally show ?thesis by blast
qed

lemma whole_line_Cons: "0x1F < (of_char c :: nat) \<Longrightarrow> (of_char c :: nat) < 0x80 \<Longrightarrow> whole_line (c # l) = whole_line l"
  by (auto simp: whole_line_def one_line_def utf8_valid_ascii_Cons)

lemma whole_Nil: "whole_line []"
  by (simp add: whole_line_ascii)

lemmas whole_lines = whole_line_Cons whole_line_append whole_arrow whole_Nil

text \<open>The unit starts the binary it was written for, and the new allowlist has no rules.\<close>

lemma whole_unit_lines: "whole_line b \<Longrightarrow> whole_line c \<Longrightarrow> \<forall>l \<in> set (unit_lines b c). whole_line l"
  by (simp add: unit_lines_def whole_lines)

lemma unit_exec_binary:
  assumes "\<forall>x \<in> set b. solid x" "b \<noteq> []" "whole_line b" "whole_line c"
  shows "exec_binary (unit_body b c) = Some b"
proof -
  have "find_map (str_strip_prefix ''ExecStart='') (unit_lines b c) = Some (b @ '' run'' @ '' --config '' @ c)"
    by (simp add: unit_lines_def str_strip_prefix_def str_starts_with_def)
  then show ?thesis
    using first_word [OF assms(1,2), of "'' --config '' @ c"] str_lines_unlines [OF whole_one_line [OF whole_unit_lines [OF assms(3,4)]]]
    by (auto simp: exec_binary_def unit_body_def)
qed

lemma unit_body_utf8: "whole_line b \<Longrightarrow> whole_line c \<Longrightarrow> utf8_valid (unit_body b c)"
  unfolding unit_body_def by (rule utf8_unlines, rule whole_unit_lines)

lemma allowlist_body_loads: "rules_load E (FileBytes allowlist_body) = Inr rules_default"
proof -
  have "\<forall>l \<in> set allowlist_lines. whole_line l" by (simp add: allowlist_lines_def whole_lines)
  moreover have "\<forall>l \<in> set allowlist_lines. \<exists>s. l = CHR ''#'' # s" by (simp add: allowlist_lines_def)
  ultimately show ?thesis
    by (simp add: rules_load_def allowlist_body_def read_lines_unlines load_comments)
qed

lemma read_kept:
  assumes "keeps A fs fs'" "follow_links fs p = Some q" "q \<notin> A"
  shows "read_file fs' p = read_file fs p"
  using assms by (simp add: read_file_def metadata_def keeps_follow) (simp add: keeps_def)

lemma read_file_node: "follow_links fs p = Some q \<Longrightarrow> nodes fs q = Some (FileNode f) \<Longrightarrow> read_file fs p = Some (i_data f)"
  by (simp add: read_file_def metadata_def)

lemma read_to_string_Some:
  "read_file fs p = Some bs \<Longrightarrow> \<not> ie_read_err ie p \<Longrightarrow> read_to_string ie fs p = FileBytes bs"
  by (auto simp: read_to_string_def read_file_def metadata_def split: option.splits)

lemma write_text_read:
  assumes "write_text se p body fs = (fs', None)"
  shows "read_file fs' p = Some body"
proof -
  from assms obtain q where q: "follow_links fs p = Some q" by (auto simp: write_text_def split: option.splits)
  have "keeps {q} fs fs'" using keeps_write_text [of fs p "{q}" se body] q assms by simp
  then have "follow_links fs' p = Some q" using keeps_follow q by metis
  moreover have "\<exists>f. nodes fs' q = Some (FileNode f) \<and> i_data f = body"
    using assms q by (auto simp: write_text_def write_bytes_def Let_def split: if_splits option.splits fs_node.splits)
  ultimately show ?thesis using read_file_node by blast
qed

lemma set_mode_read: "read_file (set_mode p m fs) p = read_file fs p"
proof (cases "\<exists>q f. follow_links fs p = Some q \<and> metadata fs p = Some f")
  case True
  then obtain q f where q: "follow_links fs p = Some q" "metadata fs p = Some f" by blast
  then have "follow_links (set_mode p m fs) p = Some q"
    using keeps_follow [OF keeps_set_mode [of fs p "{q}" m]] by auto
  moreover have "nodes (set_mode p m fs) q = Some (FileNode (f\<lparr>i_mode := m\<rparr>))" using q by (simp add: set_mode_def)
  ultimately show ?thesis using q(2) by (simp add: read_file_node) (simp add: read_file_def)
qed (auto simp: set_mode_def split: option.splits)

lemma write_new_read: "write_new se True p body mode fs = (fs', None) \<Longrightarrow> read_file fs' p = Some body"
  by (auto simp: write_new_def and_then_def set_mode_read split: if_splits option.splits prod.splits dest: write_text_read)

lemma write_new_follows: "write_new se True p body mode fs = (fs', None) \<Longrightarrow> \<exists>q. follow_links fs p = Some q"
  by (auto simp: write_new_def and_then_def write_text_def split: if_splits option.splits)

lemma write_new_kept:
  "write_new se True p body mode fs = (fs', err) \<Longrightarrow> follow_links fs p = Some q \<Longrightarrow> keeps {q} fs fs'"
  using keeps_write_new [of fs p "{q}" se True body mode] by simp

text \<open>After a successful installation the install path has the bytes of the source.\<close>

lemma install_to_bytes:
  assumes "install_to ie p dest fs = (fs', Inr out)" "entries_ok fs"
    and "dir_entry fs (tmp_path ie dest) \<noteq> dir_entry fs dest" "nodes fs (dir_entry fs (tmp_path ie dest)) = None"
    and "\<not> ie_read_err ie dest" "\<forall>q. canon fs p = Some q \<longrightarrow> \<not> ie_read_err ie q"
  shows "\<exists>bs. read_file fs p = Some bs \<and> read_file fs' dest = Some bs"
proof (cases out)
  case Installed
  then have "nodes fs' (dir_entry fs dest) = Some (FileNode (installed_file ie (i_data f)))" "metadata fs p = Some f"
    if "metadata fs p = Some f" for f
    using install_to_dest [OF assms(1-4)] that by auto
  moreover have "dir_entry fs' = dir_entry fs"
    using assms(1) by (auto simp: install_to_def Let_def put_node_def drop_node_def split: if_splits option.splits)
  moreover obtain f where "metadata fs p = Some f" using install_to_dest [OF assms(1-4)] Installed by auto
  ultimately show ?thesis
    by (auto simp: read_file_def metadata_def [of fs'] follow_direct link_at_def installed_file_def)
next
  case AlreadyCurrent
  with assms(1) obtain q where q: "canon fs p = Some q" "fs' = fs" "dest_matches_running ie fs q dest"
    by (auto simp: install_to_def Let_def split: if_splits option.splits)
  from canon_metadata [OF q(1)] obtain f where f: "metadata fs p = Some f" "nodes fs q = Some (FileNode f)" "follow_links fs p = Some q"
    by blast
  then have "read_file fs q = Some (i_data f)" using assms(2) read_direct follow_entry by blast
  then show ?thesis using q assms(5,6) f
    by (auto simp: dest_matches_running_def fs_read_def read_file_def split: option.splits)
qed

lemma setup_run_files:
  assumes "setup_run se args st = (st', None)" "sa_yes args" "\<not> sa_no_systemd args"
  obtains fs1 fs2 fs3 binary where "setup_binary se args (su_fs st) = (fs1, Inr binary)"
    "write_config se (sa_config args) (sa_allowlist args) (sa_force args) fs1 = (fs2, None)"
    "write_empty_allowlist se (sa_allowlist args) (sa_force args) fs2 = (fs3, None)"
    "write_systemd_unit se (sa_systemd_unit args) binary (sa_config args) (sa_force args) fs3 = (su_fs st', None)"
  using assms
  by (auto simp: setup_run_def and_then_def on_fs_def ensure_linprov_group_def run_cmd_def setup_interactive_def Let_def
      split: if_splits prod.splits sum.splits option.splits)


section \<open>Enabling the tray\<close>

lemma tray_lines_seen: "tray_lines ls True = (ls, True)"
  by (induction ls) simp_all

lemma tray_lines_none: "\<forall>l \<in> set ls. \<not> mentions_tray l \<Longrightarrow> tray_lines ls False = (ls, False)"
  by (induction ls) simp_all

lemma tray_lines_first:
  assumes "\<forall>l \<in> set pre. \<not> mentions_tray l" "mentions_tray hint"
  shows "tray_lines (pre @ hint # post) False = (pre @ TRAY_LINE # post, True)"
  using assms by (induction pre) (simp_all add: tray_lines_seen)

lemma mentions_TRAY_LINE: "mentions_tray TRAY_LINE"
proof -
  have "ws_head white_space (CHR ''n'' # s) = None" for s
    using ws_head_solid [of white_space "CHR ''n''" "[]" s] solid_ascii [of "CHR ''n''"] by (simp add: solid_def ws_head_None)
  then have "str_trim_start (CHR ''n'' # s) = CHR ''n'' # s" for s unfolding str_trim_start_def by (rule trim_left_None)
  then show ?thesis by (simp add: mentions_tray_def TRAY_LINE_def str_starts_with_def)
qed

lemma unlines_end: "ls \<noteq> [] \<Longrightarrow> str_ends_with_char (CHR 0x0A) (unlines ls)"
  by (induction ls rule: rev_induct) (simp_all add: unlines_def str_ends_with_char_def)

lemma unlines_append: "unlines (a @ b) = unlines a @ unlines b"
  by (simp add: unlines_def)

lemma ensure_tray_none:
  assumes "\<forall>l \<in> set (str_lines text). \<not> mentions_tray l"
  shows "ensure_tray_line text = unlines (str_lines text @ [TRAY_LINE])"
proof -
  have "unlines (str_lines text) = [] \<or> str_ends_with_char (CHR 0x0A) (unlines (str_lines text))"
    using unlines_end [of "str_lines text"] by (cases "str_lines text = []") (simp_all add: unlines_def)
  moreover have "unlines [TRAY_LINE] = TRAY_LINE @ [CHR 0x0A]" by (simp add: unlines_def)
  ultimately show ?thesis by (auto simp: ensure_tray_line_def tray_lines_none [OF assms] unlines_append Let_def)
qed

lemma ensure_tray_shape:
  "\<exists>pre post. ensure_tray_line text = unlines (pre @ TRAY_LINE # post) \<and> (\<forall>l \<in> set pre. \<not> mentions_tray l) \<and>
    set pre \<union> set post \<subseteq> set (str_lines text)"
proof (cases "\<exists>l \<in> set (str_lines text). mentions_tray l")
  case True
  then obtain pre hint post where s: "str_lines text = pre @ hint # post" "mentions_tray hint" "\<forall>l \<in> set pre. \<not> mentions_tray l"
    using split_list_first_prop [of "str_lines text" mentions_tray] by blast
  then have "ensure_tray_line text = unlines (pre @ TRAY_LINE # post)"
    by (simp add: ensure_tray_line_def tray_lines_first)
  with s show ?thesis by auto
next
  case False
  then show ?thesis using ensure_tray_none [of "text"] by (intro exI [of _ "str_lines text"] exI [of _ "[]"]) simp
qed

lemma str_split_pieces: "x \<in> set (str_split c s) \<Longrightarrow> c \<notin> set x \<and> set x \<subseteq> set s"
  by (induction s arbitrary: x) (force split: list.splits if_splits)+

lemma str_lines_one_line:
  assumes "CHR 0x0D \<notin> set text" "l \<in> set (str_lines text)"
  shows "one_line l"
proof -
  let ?ps = "str_split (CHR 0x0A) text"
  have "str_strip_suffix_char (CHR 0x0D) x = None" if "x \<in> set ?ps" for x
    using str_split_pieces [OF that] assms(1) by (intro strip_cr) blast
  then have "map (\<lambda>l. case str_strip_suffix_char (CHR 0x0D) l of Some u \<Rightarrow> u | None \<Rightarrow> l) (butlast ?ps) = butlast ?ps"
    by (intro map_idI) (simp add: in_set_butlastD)
  then have "set (str_lines text) \<subseteq> set (butlast ?ps) \<union> {last ?ps}" by (simp add: str_lines_def Let_def subset_insertI)
  also have "\<dots> \<subseteq> set ?ps" by (auto dest: in_set_butlastD)
  finally have "l \<in> set ?ps" using assms(2) by blast
  with str_split_pieces [OF this] assms(1) show ?thesis by (auto simp: one_line_def)
qed

text \<open>
  Enabling the tray takes effect and is idempotent. For a configuration without carriage returns, the
  first line of the result that mentions the option sets it to \<open>tray\<close>, and enabling the tray again changes
  nothing.
\<close>

theorem tray_line_idempotent:
  assumes "CHR 0x0D \<notin> set text"
  shows "ensure_tray_line (ensure_tray_line text) = ensure_tray_line text \<and>
    find mentions_tray (str_lines (ensure_tray_line text)) = Some TRAY_LINE"
proof -
  obtain pre post where e: "ensure_tray_line text = unlines (pre @ TRAY_LINE # post)" "\<forall>l \<in> set pre. \<not> mentions_tray l"
    "set pre \<union> set post \<subseteq> set (str_lines text)"
    using ensure_tray_shape by blast
  have "one_line TRAY_LINE" by (simp add: TRAY_LINE_def one_line_def)
  then have "\<forall>l \<in> set (pre @ TRAY_LINE # post). one_line l" using e(3) str_lines_one_line [OF assms] by auto
  then have l: "str_lines (ensure_tray_line text) = pre @ TRAY_LINE # post" unfolding e(1) by (rule str_lines_unlines)
  have "ensure_tray_line (ensure_tray_line text) = unlines (pre @ TRAY_LINE # post)"
    unfolding ensure_tray_line_def [of "ensure_tray_line text"] l
    by (simp add: tray_lines_first [OF e(2) mentions_TRAY_LINE])
  moreover have "find mentions_tray (pre @ TRAY_LINE # post) = Some TRAY_LINE"
    using e(2) mentions_TRAY_LINE by (induction pre) simp_all
  ultimately show ?thesis by (simp only: l e(1) [symmetric])
qed

text \<open>
  C40: Enabling the tray rewrites only the first line that mentions the option. If a commented hint comes
  before a line that sets \<open>notifications\<close>, the hint becomes a second setting and the old one stays, so
  that the configuration sets the option twice.
\<close>

theorem tray_line_keeps_later_setting:
  assumes "str_lines text = pre @ hint # mid @ later # post" "\<forall>l \<in> set pre. \<not> mentions_tray l"
    and "mentions_tray hint" "str_starts_with ''notifications'' later"
  shows "ensure_tray_line text = unlines (pre @ TRAY_LINE # mid @ later # post)"
  using assms tray_lines_first [OF assms(2,3), of "mid @ later # post"] by (simp add: ensure_tray_line_def)

section \<open>Running setup again\<close>

lemma exists_kept:
  "keeps A fs fs' \<Longrightarrow> path_exists fs p \<Longrightarrow> \<forall>q. follow_links fs p = Some q \<longrightarrow> q \<notin> A \<Longrightarrow> path_exists fs' p"
  by (auto simp: path_exists_def metadata_def keeps_follow keeps_def split: option.splits)

lemma write_new_existing: "path_exists fs p \<Longrightarrow> write_new se False p body mode fs = (fs, None)"
  by (simp add: write_new_def)

text \<open>
  Setup leaves an existing installation alone. If the configuration, the allowlist and the unit exist
  and lead elsewhere than to the install path, a run without \<open>--force\<close> that asks nothing changes no
  file but the install path and its temporary sibling.
\<close>

theorem setup_keeps_existing:
  assumes "setup_run se args st = (st', err)" "sa_yes args" "\<not> sa_force args" "fs = su_fs st" "dest = sa_install_path args"
    and "link_at fs (dir_entry fs dest) = None" "nodes fs (dir_entry fs (tmp_path (se_ie se) dest)) = None"
    and "\<forall>p \<in> {sa_config args, sa_allowlist args, sa_systemd_unit args}.
      path_exists fs p \<and> follow_links fs p \<noteq> Some (dir_entry fs dest)"
    and "e \<noteq> dir_entry fs dest" "e \<noteq> dir_entry fs (tmp_path (se_ie se) dest)"
  shows "nodes (su_fs st') e = nodes fs e"
proof -
  let ?A = "{dir_entry fs dest, dir_entry fs (tmp_path (se_ie se) dest)}"
  obtain fs1 r where b: "setup_binary se args fs = (fs1, r)" by fastforce
  have k: "keeps ?A fs fs1" using keeps_setup_binary [of fs args se] assms(5-7) b by (simp add: link_at_def)
  have ex: "path_exists fs1 p" if "p \<in> {sa_config args, sa_allowlist args, sa_systemd_unit args}" for p
  proof (rule exists_kept [OF k])
    show "path_exists fs p" using assms(8) that by blast
    then show "\<forall>q. follow_links fs p = Some q \<longrightarrow> q \<notin> ?A"
      using assms(7,8) that by (auto simp: path_exists_def metadata_def split: option.splits)
  qed
  have w: "write_config se (sa_config args) (sa_allowlist args) False fs1 = (fs1, None)"
    "write_empty_allowlist se (sa_allowlist args) False fs1 = (fs1, None)"
    "write_systemd_unit se (sa_systemd_unit args) binary (sa_config args) False fs1 = (fs1, None)" for binary
    by (simp_all add: write_config_def write_empty_allowlist_def write_systemd_unit_def write_new_existing ex)
  have "su_fs (fst (setup_run se args st)) = fs \<or> su_fs (fst (setup_run se args st)) = fs1"
  proof (cases r)
    case (Inl e)
    with b show ?thesis by (simp add: setup_run_def assms(4) [symmetric] Let_def)
  next
    case (Inr binary)
    with b assms(2,3) show ?thesis
      by (simp add: setup_run_def assms(4) [symmetric] Let_def and_then_def on_fs_def w ensure_linprov_group_def
          run_cmd_def setup_interactive_def)
  qed
  then have "su_fs st' = fs \<or> su_fs st' = fs1" by (simp add: assms(1))
  with k assms(9,10) show ?thesis by (auto simp: keeps_def)
qed

section \<open>A run\<close>

definition sample_ie :: install_env where
  "sample_ie = \<lparr>ie_getpwnam = (\<lambda>n. if n = ''u'' then Some \<lparr>pw_name = Some ''u'', pw_uid = 7, pw_gid = 7, pw_dir = Some ''/h''\<rparr> else None),
    ie_getpwuid = (\<lambda>u. None), ie_var = (\<lambda>v. if v = ''SUDO_USER'' then Some ''u'' else None), ie_logname = None,
    ie_euid = 0, ie_exe = Some ''/s'', ie_argv = [], ie_umask = 0x12, ie_probe = (\<lambda>c. None), ie_read_err = (\<lambda>p. False),
    ie_mkdir_ok = (\<lambda>p. True), ie_remove_ok = True, ie_create_ok = True, ie_open_ok = True, ie_copy_err = None,
    ie_chmod_ok = True, ie_rename_ok = True, ie_pid = 5, ie_run = (\<lambda>c. Some True)\<rparr>"

definition sample_se :: setup_env where
  "sample_se = \<lparr>se_ie = sample_ie, se_tty = True, se_open_ok = (\<lambda>p. True), se_write_err = (\<lambda>p. None),
    se_run_user = (\<lambda>u. Some [''wayland-0'']), se_display = False, se_id_output = (\<lambda>u. Some ''u''), se_fork_ok = True,
    se_wait_ok = True, se_exited = True, se_initgroups_ok = True, se_setgid_ok = True, se_setuid = Some (7, 7),
    se_user_mkdir_ok = True, se_user_open = (\<lambda>u p. True)\<rparr>"

definition sample_inst_file :: inst_file where
  "sample_inst_file = \<lparr>i_data = ''x'', i_mode = 0x1ED, i_uid = 7, i_regular = True\<rparr>"

definition sample_inst_fs :: inst_fs where
  "sample_inst_fs = \<lparr>nodes = [''/s'' \<mapsto> FileNode sample_inst_file], dir_entry = (\<lambda>p. p)\<rparr>"

definition sample_sa :: setup_args where
  "sample_sa = \<lparr>sa_config = ''/c'', sa_allowlist = ''/a'', sa_install_path = ''/b'', sa_no_install = False,
    sa_systemd_unit = ''/u'', sa_no_systemd = False, sa_force = True, sa_yes = True\<rparr>"

definition sample_su :: setup_state where
  "sample_su = \<lparr>su_fs = sample_inst_fs, su_cmds = [], su_answers = []\<rparr>"

lemma sample_tmp: "tmp_path sample_ie ''/b'' = ''/.linprov-new.5''"
  by code_simp

lemma sample_setup_ok: "snd (setup_run sample_se sample_sa sample_su) = None"
  by code_simp

lemma sample_follow: "link_at fs p = None \<Longrightarrow> dir_entry fs = (\<lambda>p. p) \<Longrightarrow> follow_links fs p = Some p"
  by (simp add: follow_direct)

lemma sample_simps: "sa_config sample_sa = ''/c''" "sa_allowlist sample_sa = ''/a''" "sa_install_path sample_sa = ''/b''"
    "sa_systemd_unit sample_sa = ''/u''" "sa_yes sample_sa = True" "sa_force sample_sa = True" "sa_no_systemd sample_sa = False"
    "sa_no_install sample_sa = False" "su_fs sample_su = sample_inst_fs" "se_ie sample_se = sample_ie" "ie_exe sample_ie = Some ''/s''"
    "ie_read_err sample_ie p = False"
  by (simp_all add: sample_sa_def sample_su_def sample_se_def sample_ie_def)

lemma sample_entries: "entries_ok sample_inst_fs"
  by (simp add: entries_ok_def sample_inst_fs_def)

definition sample_ua :: upgrade_args where
  "sample_ua = \<lparr>ua_unit = ''l'', ua_unit_file = ''/u'', ua_install_path = ''/b'', ua_source = Some ''/s'',
    ua_no_install = False, ua_dry_run = False\<rparr>"

definition sample_upgraded :: inst_fs where
  "sample_upgraded = fst (upgrade_run sample_ie sample_ua sample_inst_fs)"

lemma sample_upgrade:
  "upgrade_run sample_ie sample_ua sample_inst_fs =
    (sample_upgraded, [[''systemctl'', ''daemon-reload''], [''systemctl'', ''restart'', ''l'']], None)"
proof -
  have "snd (upgrade_run sample_ie sample_ua sample_inst_fs) =
      ([[''systemctl'', ''daemon-reload''], [''systemctl'', ''restart'', ''l'']], None)" by code_simp
  then show ?thesis by (simp add: sample_upgraded_def prod_eq_iff)
qed

lemma sample_ua_simps: "ua_install_path sample_ua = ''/b''" "ua_dry_run sample_ua = False"
  by (simp_all add: sample_ua_def)

lemma sample_hyps: "''/.linprov-new.5'' \<noteq> ''/b''" "nodes sample_inst_fs ''/.linprov-new.5'' = None"
    "dir_entry sample_inst_fs p = p" "nodes sample_inst_fs ''/b'' = None"
  by (simp_all add: sample_inst_fs_def)

lemma not_False: "\<not> False"
  by simp

theorem upgrade_installs_vetted_witness: "nodes sample_upgraded ''/s'' = nodes sample_inst_fs ''/s''"
  by (rule upgrade_installs_vetted [OF sample_upgrade sample_entries refl, unfolded sample_ua_simps sample_tmp sample_hyps(3),
      OF sample_hyps(1,2), THEN conjunct2, rule_format]) simp

theorem upgrade_restarts_for_new_binary_witness:
  "\<exists>p f. metadata sample_inst_fs p = Some f \<and> nodes sample_upgraded ''/b'' = Some (FileNode (installed_file sample_ie (i_data f)))"
  using upgrade_restarts_for_new_binary [OF sample_upgrade sample_entries refl, unfolded sample_ua_simps sample_tmp sample_hyps(3),
      OF sample_hyps(1,2)] by (simp add: sample_ua_def)

text \<open>A run on a desktop: the configuration is left alone, and the user's unit is written.\<close>

definition desktop_sa :: setup_args where
  "desktop_sa = sample_sa\<lparr>sa_yes := False\<rparr>"

definition desktop_su :: setup_state where
  "desktop_su = sample_su\<lparr>su_answers := [Some '''', Some ''n'']\<rparr>"

lemma desktop_simps: "sa_install_path desktop_sa = ''/b''" "se_ie sample_se = sample_ie" "su_fs desktop_su = sample_inst_fs"
  by (simp_all add: desktop_sa_def sample_sa_def sample_se_def desktop_su_def sample_su_def)

lemma desktop_unit: "Option.is_none
    (nodes (su_fs (fst (setup_run sample_se desktop_sa desktop_su))) ''/h/.config/systemd/user/linprov-notify.service'') = False"
  by code_simp

theorem setup_changes_only_witness:
  "\<exists>user. invoking_user sample_ie = Some user \<and>
    follow_links sample_inst_fs (user_unit_path user) = Some ''/h/.config/systemd/user/linprov-notify.service''"
proof -
  let ?e = "''/h/.config/systemd/user/linprov-notify.service''"
  have ne: "nodes (su_fs (fst (setup_run sample_se desktop_sa desktop_su))) ?e \<noteq> nodes sample_inst_fs ?e"
    using desktop_unit by (auto simp: sample_inst_fs_def Option.is_none_def)
  have l: "link_at sample_inst_fs ''/b'' = None" "link_at sample_inst_fs ''/.linprov-new.5'' = None"
    by (simp_all add: link_at_def sample_inst_fs_def)
  have "follow_links sample_inst_fs p \<noteq> Some ?e" if "p \<in> {sa_config desktop_sa, sa_allowlist desktop_sa, sa_systemd_unit desktop_sa}" for p
    using that by (auto simp: desktop_sa_def sample_sa_def follow_direct link_at_def sample_inst_fs_def)
  then show ?thesis
    using setup_changes_only [OF prod.collapse [symmetric] refl, where se = sample_se and args = desktop_sa and st = desktop_su, unfolded desktop_simps sample_tmp sample_hyps(3),
      OF l ne] by auto
qed


theorem tray_line_idempotent_witness: "ensure_tray_line (ensure_tray_line ''mode'') = ensure_tray_line ''mode''"
  using tray_line_idempotent [of "''mode''"] by simp

theorem tray_line_keeps_later_setting_witness:
  \<open>ensure_tray_line (unlines [''# notifications = "tray"'', ''mode = "observe"'', ''notifications = "off"'']) =
    unlines [''notifications = "tray"'', ''mode = "observe"'', ''notifications = "off"'']\<close>
proof -
  have l: \<open>str_lines (unlines [''# notifications = "tray"'', ''mode = "observe"'', ''notifications = "off"'']) =
      [] @ ''# notifications = "tray"'' # [''mode = "observe"''] @ ''notifications = "off"'' # []\<close>
    using str_lines_unlines [of \<open>[''# notifications = "tray"'', ''mode = "observe"'', ''notifications = "off"'']\<close>]
    by (simp add: one_line_def)
  have h: \<open>mentions_tray ''# notifications = "tray"''\<close> by code_simp
  have a: \<open>str_starts_with ''notifications'' ''notifications = "off"''\<close> by code_simp
  show ?thesis using tray_line_keeps_later_setting [OF l _ h a] by (simp add: TRAY_LINE_def)
qed

definition existing_st :: setup_state where
  "existing_st = sample_su\<lparr>su_fs := sample_inst_fs\<lparr>nodes := (nodes sample_inst_fs)
    (''/c'' \<mapsto> FileNode sample_inst_file, ''/a'' \<mapsto> FileNode sample_inst_file, ''/u'' \<mapsto> FileNode sample_inst_file)\<rparr>\<rparr>"

definition existing_sa :: setup_args where
  "existing_sa = sample_sa\<lparr>sa_force := False\<rparr>"

lemma existing_simps: "sa_config existing_sa = ''/c''" "sa_allowlist existing_sa = ''/a''" "sa_install_path existing_sa = ''/b''"
    "sa_systemd_unit existing_sa = ''/u''" "sa_yes existing_sa = True" "sa_force existing_sa = False"
    "dir_entry (su_fs existing_st) p = p"
  by (simp_all add: existing_sa_def sample_sa_def existing_st_def sample_inst_fs_def)

theorem setup_keeps_existing_witness:
  "nodes (su_fs (fst (setup_run sample_se existing_sa existing_st))) ''/c'' = nodes (su_fs existing_st) ''/c''"
proof -
  have l: "link_at (su_fs existing_st) ''/b'' = None" "nodes (su_fs existing_st) ''/.linprov-new.5'' = None"
    by (simp_all add: link_at_def existing_st_def sample_inst_fs_def)
  have f: "follow_links (su_fs existing_st) p = Some p \<and> path_exists (su_fs existing_st) p" if "p \<in> {''/c'', ''/a'', ''/u''}" for p
    using that by (auto simp: path_exists_def metadata_def follow_direct link_at_def existing_st_def sample_inst_fs_def)
  have p: "\<forall>p \<in> {''/c'', ''/a'', ''/u''}. path_exists (su_fs existing_st) p \<and> follow_links (su_fs existing_st) p \<noteq> Some ''/b''"
    using f by (intro ballI) fastforce
  show ?thesis
    by (rule setup_keeps_existing [OF prod.collapse [symmetric], where args = existing_sa and st = existing_st and se = sample_se and
      fs = "su_fs existing_st" and dest = "''/b''", unfolded existing_simps sample_simps sample_tmp,
      OF TrueI not_False refl refl l p]) simp_all
qed

end
