(* ===== verification/Spec2Isabelle.thy ===== *)
theory Spec2Isabelle
  imports Unblock Reports Install_Props
begin

text \<open>
  A model of linprov, an eBPF mark-of-the-web for Linux, and the theorems that make it correct.

  \<^bold>\<open>The program.\<close> An eBPF program (\<open>linprov-ebpf\<close>) hooks \<open>connect\<close>, \<open>open\<close>, \<open>exec\<close> and task exit. A process
  that talked to the network marks the files it writes; the mark (an \<open>OriginRecord\<close> of keyed hashes,
  in inode storage and in an xattr) follows copies; the execution of a marked file, by \<open>execve\<close> or
  by an interpreter reading it, is checked against an allowlist. A daemon (\<open>linprov\<close>) seeds the BPF
  maps, completes each mark with what only userspace knows, turns denials into pending blocks with a
  token, and serves a control socket over which a token is allowed, dismissed or quarantined. Clients
  (a tray agent, a review window, the command line) talk to that socket. Both sides share the types
  and the hash of \<open>linprov-common\<close>.

  \<^bold>\<open>Theories and sources.\<close>
  \<^item> \<open>Linprov_Prelude\<close>: machine types, bytes, lemma collections. \<open>Rust_Str\<close>: what the sources use of
    Rust's strings, integer parsing, UTF-8 and line reading.
  \<^item> \<open>Siphash\<close>, \<open>Common\<close>: \<open>linprov-common/src/siphash.rs\<close> and \<open>lib.rs\<close>: the hash, the constants, the rule,
    record and event types and their byte layout.
  \<^item> \<open>Path_Walk\<close>, \<open>Kernel_State\<close>, \<open>Kernel_Match\<close>, \<open>Kernel_Hooks\<close>: \<open>linprov-ebpf/src/main.rs\<close>: the streaming path
    walk, the maps as one record, the allowlist scan, the five hooks.
  \<^item> \<open>Encoding\<close>: \<open>encoding.rs\<close>. \<open>Allowlist\<close>: \<open>allowlist.rs\<close> (rules, lines, packing, projection, soak).
  \<^item> \<open>Control\<close>: \<open>control.rs\<close> (pending blocks, tokens, \<open>allow\<close>). \<open>Hashdb\<close>: \<open>hashdb.rs\<close>.
    \<open>Daemon_Config\<close>: \<open>mode.rs\<close>, \<open>config.rs\<close>, \<open>key.rs\<close>.
  \<^item> \<open>Handler\<close>: \<open>handler.rs\<close>, \<open>inode_storage.rs\<close> (events of the ring buffer). \<open>Quarantine\<close>: \<open>quarantine.rs\<close>.
  \<^item> \<open>Daemon\<close>: \<open>run.rs\<close> (start, seeding, requests, connections, main loop).
  \<^item> \<open>Clients\<close>: \<open>notify.rs\<close>, \<open>review.rs\<close>, \<open>allow.rs\<close> and the command line of \<open>quarantine.rs\<close>.
  \<^item> \<open>Install\<close>: \<open>install.rs\<close>, \<open>upgrade.rs\<close> and \<open>privilege.rs\<close>. \<open>Setup\<close>: \<open>setup.rs\<close>.
  \<^item> \<open>Commands\<close>: the entry points of the subcommands: \<open>execute\<close> of \<open>run.rs\<close>, \<open>run\<close> of \<open>quarantine.rs\<close>, the registration
    loop of \<open>notify.rs\<close>, a frame of the window of \<open>review.rs\<close>.
  \<^item> \<open>Reports\<close>: \<open>main.rs\<close>, and what setup, the daemon at its start and the tray agent tell the user.
  \<^item> \<open>Ring\<close>: the bytes of an event between the kernel and the daemon (\<open>Event\<close> of \<open>lib.rs\<close>), and what handling an
    entry that the kernel wrote does. \<open>System\<close>: the daemon's loop, the ring and the hooks interleaved, with
    anything arriving in the ring (\<open>system_reach\<close>) or exactly what the hooks submit (\<open>pipeline\<close>), and what
    holds in every state they reach. \<open>Unblock\<close>: the way of a denial through hook, ring, daemon and request,
    back to the hook.
  \<^item> \<open>Rule_Lines\<close>, \<open>Rule_Store\<close>, \<open>Kernel_Frame\<close>, \<open>Kernel_Props\<close>, \<open>Kernel_Steps\<close>, \<open>Control_Props\<close>, \<open>Handler_Props\<close>,
    \<open>Quarantine_Props\<close>, \<open>Daemon_Props\<close>, \<open>Clients_Props\<close>, \<open>Wire_Types\<close>, \<open>Install_Frame\<close>,
    \<open>Install_Props\<close>: the lemmas and properties of the theories before them.

  \<^bold>\<open>How code is rendered.\<close> A struct is a record, an enum a datatype, \<open>u32\<close> and \<open>u64\<close> are words, a byte is a
  \<open>char\<close> and a Rust string the list of its UTF-8 bytes. A function that changes state takes and returns
  it; an error is a value of a sum or option type. What the kernel, the file system and other
  processes answer is in an environment record (\<open>env\<close>, \<open>handler_env\<close>, \<open>q_env\<close>, \<open>r_env\<close>, \<open>daemon_env\<close>, \<open>start_env\<close>,
  \<open>install_env\<close>, \<open>setup_env\<close>)
  or an argument, so that every failing call is a branch. A write that fails after \<open>n\<close> bytes leaves
  these bytes in the file. In \<open>Quarantine\<close> other processes act between the system calls (\<open>q_adv\<close>).
  Code outside the repository is a parameter: the base64 engine (its contract is the locale
  \<open>base64_standard\<close>, interpreted on RFC 4648), the TOML library (a pair of functions), the texts of
  operating-system errors.

  \<^bold>\<open>Interfaces.\<close> The locale \<open>base64_standard\<close> is what the stored forms rely on; \<open>pending_table\<close> is what the
  daemon and its clients rely on of the table of blocks, interpreted on the definitions of \<open>Control\<close>;
  \<open>audit_store\<close> is what the event handler relies on of the audit database, interpreted on those of
  \<open>Hashdb\<close>. Four locales carry an invariant from the steps to the runs: \<open>loop_invariant\<close> through the main loop
  of the daemon; \<open>system_invariant\<close>, which extends it by the steps of the kernel with an arbitrary ring,
  interpreted on the agreement of the keys, on the well-formedness of the strings and on the daemon being
  able to install rules; \<open>pipeline_invariant\<close>, which extends it by the steps of the kernel that fill the
  ring, interpreted on the completeness of all records, and which every \<open>system_invariant\<close> is as a
  sublocale; and \<open>setup_inv\<close> through the dialogue of setup, interpreted on the set of entries that may change.

  \<^bold>\<open>What is shown.\<close>
  \<^item> The decision. The streaming walk of a path emits the hashes userspace computes in one go, and the
    hashed decision in the kernel is the decision on the strings of the rule lines, up to collisions
    among the strings in play. When an exec or an open is denied is characterised exactly.
  \<^item> Provenance. Downloads are marked and then denied, copies inherit the creator, copies of
    interpreters are recognised, marks survive any interleaving of hooks. The daemon completes the
    record of the kernel without changing what the kernel wrote.
  \<^item> Decisions. A denial by the exec hook comes out of the ring as a block with a token, and the token sent
    back as \<open>allow\<close> makes the same hook permit the same execution; narrowing a rule never loses the event. The pending table is
    bounded and consistent, the tray shows only what is pending, and the review window hides only
    what was decided.
  \<^item> Storage. Rule lines, soak rules, the audit database, the key, the record bytes and the list reply
    are read back as written. A stashed file is neutralised, and restoring gives it back.
  \<^item> The system. However turns of the daemon, requests and hooks are interleaved after a start, all parts
    hash under one key and the kernel stays in the configured mode; without \<open>enforce\<close> no hook ever denies.
    Every record in the kernel, in the ring and in the xattrs is complete, and the daemon rejects no entry
    the kernel wrote. Each denial of an execution becomes a pending block with a token in bounded turns.
  \<^item> The daemon. The ring is emptied in order and in bounded turns; a log line of an event has no control bytes.
    Whatever bytes arrive, the strings it keeps are valid UTF-8 and its blocks fit the wire.
  \<^item> The installer. Setup and upgrade change only their own files, follow no link at the install path, and
    write into a home directory only what the user could have written. An upgrade installs a vetted
    binary, whole, or none, and restarts only for a new one. The files setup writes work.
  \<^item> Where the code does not do what it says: recursive folders that need base64, overlong creator
    names, an approval that outlives its interpreter, a full ring buffer, a link swapped in during
    quarantine, raw paths in the log of a quarantine request, and a configuration that sets an option
    twice.

  \<^bold>\<open>Bounds.\<close> \<open>bpf_loop\<close> runs at most the number of iterations the source asks for, and that number is the
  bound of the recursion. Following symbolic links stops after \<open>MAXSYMLINKS\<close> links, as in the kernel,
  which is an error of the call. No other definition uses fuel; the loops that are not structural
  (\<open>landing_loop\<close>, trimming, splitting, number printing) have termination proofs. The capacities
  (\<open>MAX_RULES\<close>, \<open>MAX_BLOCKS\<close>, \<open>MAX_FOLDER_ANCESTORS\<close>, \<open>DRAIN_BUDGET\<close>, \<open>MAX_RECENT\<close>) are those of the source.

  \<^bold>\<open>Not modelled.\<close> Loading and attaching the eBPF object, the format of the log and the resource limit
  (\<open>run.rs\<close>): calls of libraries that leave the modelled state alone. The asynchronous runtime: a turn
  of the main loop is one step, which is what its single task does. The PNG decoder is a parameter;
  the layout of the window is drawing. The other texts of the setup dialogue, the directories the
  installer creates, and the parser of the command line, which clap generates. The build scripts: they
  run the compiler and have no part in the running program.
\<close>

end
